(* ===== verification/Prelude.thy ===== *)
theory Prelude
  imports Main "HOL-Library.AList" "HOL-Library.Multiset" "HOL-Library.List_Lexorder" "HOL-Library.Char_ord"
begin

text \<open>
  What the components share.  Go's values and control flow as HOL has them: a Go map as an
  association list with distinct keys, a run-time panic as a value, the iteration order of
  \<open>range\<close> over a map and the order \<open>sort.Sort\<close> gives to equal elements as
  functions of which only the documented contract is known.  The theorem collections
  \<open>gomap\<close> (lookups after updates of Go maps), \<open>endpoints\<close> (projections of
  endpoint lists) and \<open>frame\<close> (what an operation leaves alone) are filled by the
  component theories.
\<close>

named_theorems gomap "lookups and key sets of Go maps after an update"
named_theorems endpoints "projections of endpoint lists"
named_theorems frame "what an operation leaves unchanged"

section \<open>Panics\<close>

text \<open>
  A Go statement that panics (a nil pointer dereference, a slice bound out of range) is a
  branch of the model: the call does not return, its result is \<open>Panicked\<close>.
\<close>

datatype 'a outcome = Returned 'a | Panicked

fun bind_outcome :: "'a outcome \<Rightarrow> ('a \<Rightarrow> 'b outcome) \<Rightarrow> 'b outcome" where
  "bind_outcome (Returned x) f = f x"
| "bind_outcome Panicked f = Panicked"

lemma bind_outcome_Returned_iff [simp]:
  "bind_outcome m f = Returned y \<longleftrightarrow> (\<exists>x. m = Returned x \<and> f x = Returned y)"
  by (cases m) auto

lemma bind_outcome_Panicked_iff [simp]:
  "bind_outcome m f = Panicked \<longleftrightarrow> m = Panicked \<or> (\<exists>x. m = Returned x \<and> f x = Panicked)"
  by (cases m) auto

section \<open>Go maps\<close>

text \<open>
  A Go map is an association list whose keys are distinct (\<open>gm_wf\<close>): \<open>map_of m k\<close> is
  \<open>v, ok := m[k]\<close>, \<open>AList.update k v m\<close> is \<open>m[k] = v\<close>, \<open>AList.delete k m\<close> is
  \<open>delete(m, k)\<close>.  The list order stands for nothing: every loop over a map takes the
  order of its iteration as an argument.
\<close>

type_synonym ('k, 'v) gomap = "('k \<times> 'v) list"

definition gm_wf :: "('k, 'v) gomap \<Rightarrow> bool" where
  "gm_wf m \<longleftrightarrow> distinct (map fst m)"

lemma gm_wf_Nil [simp]: "gm_wf []"
  by (simp add: gm_wf_def)

lemma gm_wf_update [simp]: "gm_wf m \<Longrightarrow> gm_wf (AList.update k v m)"
  by (simp add: gm_wf_def distinct_update)

lemma gm_wf_delete [simp]: "gm_wf m \<Longrightarrow> gm_wf (AList.delete k m)"
  by (simp add: gm_wf_def distinct_delete)

lemma map_of_update_gomap [gomap]:
  "map_of (AList.update k v m) k' = (if k' = k then Some v else map_of m k')"
  by (simp add: update_conv')

lemma map_of_delete_gomap [gomap]:
  "map_of (AList.delete k m) k' = (if k' = k then None else map_of m k')"
  by (simp add: delete_conv')

lemma gm_wf_mem_iff: "gm_wf m \<Longrightarrow> (k, v) \<in> set m \<longleftrightarrow> map_of m k = Some v"
  by (simp add: gm_wf_def)

text \<open>
  The order in which \<open>range\<close> visits a map is not specified; what is, is that every entry
  is visited once.
\<close>

definition range_order :: "('a list \<Rightarrow> 'a list) \<Rightarrow> bool" where
  "range_order ord \<longleftrightarrow> (\<forall>xs. mset (ord xs) = mset xs)"

lemma range_order_set: "range_order ord \<Longrightarrow> set (ord xs) = set xs"
  by (metis range_order_def set_mset_mset)

lemma range_order_mset: "range_order ord \<Longrightarrow> mset (ord xs) = mset xs"
  by (simp add: range_order_def)

lemma range_order_distinct: "range_order ord \<Longrightarrow> distinct (ord xs) = distinct xs"
  by (metis range_order_def mset_eq_imp_distinct_iff)

lemma range_order_id [simp]: "range_order (\<lambda>xs. xs)"
  by (simp add: range_order_def)

lemma range_order_rev [simp]: "range_order rev"
  by (simp add: range_order_def)

section \<open>Sorting\<close>

text \<open>
  \<open>sort.Sort\<close> permutes its argument so that no element is \<open>Less\<close> than one before it; the
  order of elements neither of which is less is not specified (the sort is not stable).
  A model that sorts takes the sorting function as an argument; \<open>go_sort\<close> is its contract
  and \<open>insertion_sort\<close> a function that meets it.
\<close>

definition go_sort :: "('a \<Rightarrow> 'a \<Rightarrow> bool) \<Rightarrow> ('a list \<Rightarrow> 'a list) \<Rightarrow> bool" where
  "go_sort lt srt \<longleftrightarrow>
     (\<forall>xs. mset (srt xs) = mset xs \<and> sorted_wrt (\<lambda>x y. \<not> lt y x) (srt xs))"

lemma go_sort_mset: "go_sort lt srt \<Longrightarrow> mset (srt xs) = mset xs"
  by (simp add: go_sort_def)

lemma go_sort_set: "go_sort lt srt \<Longrightarrow> set (srt xs) = set xs"
  by (metis go_sort_def set_mset_mset)

lemma go_sort_sorted: "go_sort lt srt \<Longrightarrow> sorted_wrt (\<lambda>x y. \<not> lt y x) (srt xs)"
  by (simp add: go_sort_def)

fun insert_by :: "('a \<Rightarrow> 'b::linorder) \<Rightarrow> 'a \<Rightarrow> 'a list \<Rightarrow> 'a list" where
  "insert_by k x [] = [x]"
| "insert_by k x (y # ys) = (if k y \<le> k x then y # insert_by k x ys else x # y # ys)"

fun insertion_sort :: "('a \<Rightarrow> 'b::linorder) \<Rightarrow> 'a list \<Rightarrow> 'a list" where
  "insertion_sort k [] = []"
| "insertion_sort k (x # xs) = insert_by k x (insertion_sort k xs)"

lemma mset_insert_by [simp]: "mset (insert_by k x ys) = add_mset x (mset ys)"
  by (induction ys) auto

lemma set_insert_by [simp]: "set (insert_by k x ys) = insert x (set ys)"
  by (induction ys) auto

lemma mset_insertion_sort [simp]: "mset (insertion_sort k xs) = mset xs"
  by (induction xs) auto

lemma sorted_insert_by:
  "sorted_wrt (\<lambda>a b. \<not> k b < k a) ys \<Longrightarrow> sorted_wrt (\<lambda>a b. \<not> k b < k a) (insert_by k x ys)"
  by (induction ys) (auto simp: not_less intro: order_trans)

lemma sorted_insertion_sort: "sorted_wrt (\<lambda>a b. \<not> k b < k a) (insertion_sort k xs)"
  by (induction xs) (auto intro: sorted_insert_by)

lemma go_sort_insertion_sort: "go_sort (\<lambda>a b. k a < k b) (insertion_sort k)"
  by (simp add: go_sort_def sorted_insertion_sort)

text \<open>Two sorted permutations of a list whose keys are distinct are the same list.\<close>

lemma sorted_perm_unique:
  fixes k :: "'a \<Rightarrow> 'b::linorder"
  assumes "mset xs = mset ys" and "distinct (map k xs)"
    and "sorted (map k xs)" and "sorted (map k ys)"
  shows "xs = ys"
proof -
  have inj: "inj_on k (set xs)"
    using assms(2) by (simp add: distinct_map)
  have "mset (map k xs) = mset (map k ys)"
    using assms(1) by simp
  then have keys: "map k xs = map k ys"
    using assms(3,4) by (metis properties_for_sort)
  have "set xs = set ys"
    using assms(1) by (metis set_mset_mset)
  then show ?thesis
    using keys inj by (metis map_inj_on Un_absorb)
qed

lemma go_sort_sorted_keys:
  assumes "go_sort (\<lambda>a b. k a < (k b :: 'b::linorder)) srt"
  shows "sorted (map k (srt xs))"
  using go_sort_sorted [OF assms, of xs] by (simp add: sorted_map sorted_wrt_map not_less)

end
