(* ===== verification/Apis.thy ===== *)
theory Apis
  imports Prelude "HOL-Library.Word"
begin

text \<open>
  The data of the program (\<open>pkg/apis/v1alpha1/global_service_types.go\<close>,
  \<open>pkg/constants/constants.go\<close>), the object keys by which every component names a service,
  and the error values that cross component boundaries.  A Go struct is a record, a pointer
  that may be nil an option, a slice a list, a map that may be nil an option of a Go map.
  Of the Kubernetes types the records hold the fields this program reads or writes and a few
  it carries along (the UID and the annotations stand for the object metadata it never reads).
\<close>

section \<open>Errors\<close>

text \<open>
  \<open>StatusError\<close> is an error of the Kubernetes API with the reason that
  \<open>errors.IsNotFound\<close> and \<open>errors.IsAlreadyExists\<close> read; \<open>errNoItems\<close> and
  \<open>errInvalidRequest\<close> are the two package variables of \<open>pkg/fabdns/fabdns.go\<close>, compared by
  identity; \<open>HttpError\<close> is the type of \<open>pkg/service-hub/client/client.go\<close>; \<open>TextError\<close> is
  an error made by \<open>errors.New\<close> or \<open>fmt.Errorf\<close>, or one a library returns.
\<close>

datatype api_reason = ReasonNotFound | ReasonAlreadyExists | ReasonUnknown

datatype go_error =
    errNoItems
  | errInvalidRequest
  | StatusError api_reason string
  | HttpError nat string
  | TextError string

fun IsNotFound :: "go_error \<Rightarrow> bool" where
  "IsNotFound (StatusError r _) = (r = ReasonNotFound)"
| "IsNotFound _ = False"

fun IsAlreadyExists :: "go_error \<Rightarrow> bool" where
  "IsAlreadyExists (StatusError r _) = (r = ReasonAlreadyExists)"
| "IsAlreadyExists _ = False"

text \<open>The decimal text \<open>%d\<close> prints, and the text of each error.\<close>

fun show_nat :: "nat \<Rightarrow> string" where
  "show_nat n = (if n < 10 then [char_of (48 + n)] else show_nat (n div 10) @ [char_of (48 + n mod 10)])"

declare show_nat.simps [simp del]

fun error_text :: "go_error \<Rightarrow> string" where
  "error_text errNoItems = ''no items found''"
| "error_text errInvalidRequest = ''invalid query name''"
| "error_text (StatusError _ m) = m"
| "error_text (HttpError c m) = ''Status Code: '' @ show_nat c @ ''. Message: '' @ m"
| "error_text (TextError m) = m"

section \<open>Constants\<close>

definition KeyOriginResourceVersion :: string where
  "KeyOriginResourceVersion = ''fabedge.io/origin-resource-version''"

definition KeyCreatedBy :: string where
  "KeyCreatedBy = ''fabedge.io/created-by''"

definition AppServiceHub :: string where
  "AppServiceHub = ''service-hub''"

lemma label_keys_differ [simp]:
  "KeyCreatedBy \<noteq> KeyOriginResourceVersion" "KeyOriginResourceVersion \<noteq> KeyCreatedBy"
  by (simp_all add: KeyCreatedBy_def KeyOriginResourceVersion_def)

section \<open>Object keys\<close>

text \<open>
  \<open>client.ObjectKey\<close>: a namespace and a name.  Keys are ordered by namespace, then name, with
  Go's byte-wise string order, so that the library's sorting applies to them.
\<close>

datatype ObjectKey = ObjectKey (okNamespace: string) (okName: string)

instantiation ObjectKey :: linorder
begin

definition less_eq_ObjectKey :: "ObjectKey \<Rightarrow> ObjectKey \<Rightarrow> bool" where
  "less_eq_ObjectKey a b \<longleftrightarrow>
     okNamespace a < okNamespace b \<or> okNamespace a = okNamespace b \<and> okName a \<le> okName b"

definition less_ObjectKey :: "ObjectKey \<Rightarrow> ObjectKey \<Rightarrow> bool" where
  "less_ObjectKey a b \<longleftrightarrow>
     okNamespace a < okNamespace b \<or> okNamespace a = okNamespace b \<and> okName a < okName b"

instance
  by standard
    (auto simp: less_eq_ObjectKey_def less_ObjectKey_def intro: ObjectKey.expand)

end

section \<open>Kubernetes metadata\<close>

type_synonym labels = "(string, string) gomap option"

record ObjectMeta =
  omName :: string
  omNamespace :: string
  omClusterName :: string
  omResourceVersion :: string
  omLabels :: labels
  omUID :: string
  omAnnotations :: labels

text \<open>The zero value of the struct, and the composite literal that sets name and namespace.\<close>

definition zero_meta :: ObjectMeta where
  "zero_meta = \<lparr>omName = [], omNamespace = [], omClusterName = [], omResourceVersion = [],
     omLabels = None, omUID = [], omAnnotations = None\<rparr>"

text \<open>\<open>labels[k]\<close>: the empty string for a nil map or a missing key.\<close>

definition label_value :: "labels \<Rightarrow> string \<Rightarrow> string" where
  "label_value ls k =
     (case ls of None \<Rightarrow> [] | Some m \<Rightarrow> (case map_of m k of None \<Rightarrow> [] | Some v \<Rightarrow> v))"

definition labels_len :: "labels \<Rightarrow> nat" where
  "labels_len ls = (case ls of None \<Rightarrow> 0 | Some m \<Rightarrow> length m)"

record ObjectReference =
  refKind :: string
  refNamespace :: string
  refName :: string
  refUID :: string
  refAPIVersion :: string
  refResourceVersion :: string
  refFieldPath :: string

section \<open>GlobalService\<close>

type_synonym ServiceType = string

definition ClusterIP :: ServiceType where
  "ClusterIP = ''ClusterIP''"

definition Headless :: ServiceType where
  "Headless = ''Headless''"

record Endpoint =
  epAddresses :: "string list"
  epHostname :: "string option"
  epTargetRef :: "ObjectReference option"
  epCluster :: string
  epZone :: string
  epRegion :: string

record ServicePort =
  spName :: string
  spProtocol :: string
  spAppProtocol :: "string option"
  spPort :: "32 word"

record GlobalServiceSpec =
  gsType :: ServiceType
  gsPorts :: "ServicePort list"
  gsEndpoints :: "Endpoint list"

record GlobalService =
  gsMeta :: ObjectMeta
  gsSpec :: GlobalServiceSpec

definition zero_spec :: GlobalServiceSpec where
  "zero_spec = \<lparr>gsType = [], gsPorts = [], gsEndpoints = []\<rparr>"

definition zero_gs :: GlobalService where
  "zero_gs = \<lparr>gsMeta = zero_meta, gsSpec = zero_spec\<rparr>"

text \<open>\<open>keyFromObject\<close> of the importer; every other component builds the same key.\<close>

definition keyFromObject :: "GlobalService \<Rightarrow> ObjectKey" where
  "keyFromObject g = ObjectKey (omNamespace (gsMeta g)) (omName (gsMeta g))"

abbreviation endpoints_of :: "GlobalService \<Rightarrow> Endpoint list" where
  "endpoints_of g \<equiv> gsEndpoints (gsSpec g)"

lemma keyFromObject_zero [simp]: "keyFromObject zero_gs = ObjectKey [] []"
  by (simp add: keyFromObject_def zero_gs_def zero_meta_def)

lemma keyFromObject_spec_update [simp]: "keyFromObject (gsSpec_update f g) = keyFromObject g"
  by (simp add: keyFromObject_def)

section \<open>The Kubernetes objects the hub reads\<close>

text \<open>
  \<open>corev1.Service\<close> and \<open>discoveryv1.EndpointSlice\<close>, with the fields of the exporter.
  \<open>seReady\<close> is \<open>Conditions.Ready\<close>; \<open>cpNodePort\<close> and \<open>cpTargetPort\<close> are the fields of a
  service port that are not exported.
\<close>

record CoreServicePort =
  cpName :: string
  cpProtocol :: string
  cpAppProtocol :: "string option"
  cpPort :: "32 word"
  cpTargetPort :: string
  cpNodePort :: "32 word"

record Service =
  svcMeta :: ObjectMeta
  svcType :: string
  svcClusterIP :: string
  svcClusterIPs :: "string list"
  svcPorts :: "CoreServicePort list"

record SliceEndpoint =
  seAddresses :: "string list"
  seHostname :: "string option"
  seTargetRef :: "ObjectReference option"
  seReady :: "bool option"

text \<open>\<open>esOwner\<close>: the name of the Service that is the controller of the slice, from its owner references.\<close>

record EndpointSlice =
  esNamespace :: string
  esLabels :: labels
  esOwner :: "string option"
  esAddressType :: string
  esEndpoints :: "SliceEndpoint list"

definition ServiceTypeClusterIP :: string where
  "ServiceTypeClusterIP = ''ClusterIP''"

definition ClusterIPNone :: string where
  "ClusterIPNone = ''None''"

definition AddressTypeFQDN :: string where
  "AddressTypeFQDN = ''FQDN''"

end
