(* ===== verification/DnsParse.thy ===== *)
theory DnsParse
  imports Apis
begin

text \<open>
  \<open>pkg/fabdns/parse.go\<close>: the reading of a query name.  \<open>dns.SplitDomainName\<close> belongs to the
  DNS library and is the argument \<open>split\<close>; \<open>simple_split\<close> at the end is a function that does
  what its documentation says on names without escapes, for the witnesses.
\<close>

section \<open>Operations\<close>

definition LabelSVC :: string where
  "LabelSVC = ''svc''"

record recordRequest =
  rrHostname :: string
  rrCluster :: string
  rrService :: string
  rrNamespace :: string
  rrIsAdHoc :: bool

definition zero_request :: recordRequest where
  "zero_request =
     \<lparr>rrHostname = [], rrCluster = [], rrService = [], rrNamespace = [], rrIsAdHoc = False\<rparr>"

text \<open>
  The guard before the switch and the cases of the switch, in the source's order.  Go returns
  the half-filled request beside the error; no caller looks at it.
\<close>

definition parseRequest :: "(string \<Rightarrow> string list) \<Rightarrow> string \<Rightarrow> go_error + recordRequest" where
  "parseRequest split name =
     (let labels = split name in
      if length labels < 4 \<and> length labels > 6 then Inl errInvalidRequest
      else if length labels = 6 then
        Inr (zero_request\<lparr>rrHostname := labels ! 0, rrCluster := labels ! 1, rrService := labels ! 2,
               rrNamespace := labels ! 3, rrIsAdHoc := False\<rparr>)
      else if length labels = 5 then
        Inr (zero_request\<lparr>rrCluster := labels ! 0, rrService := labels ! 1, rrNamespace := labels ! 2,
               rrIsAdHoc := True\<rparr>)
      else if length labels = 4 \<and> labels ! 2 = LabelSVC then
        Inr (zero_request\<lparr>rrService := labels ! 0, rrNamespace := labels ! 1, rrIsAdHoc := False\<rparr>)
      else if length labels = 4 then
        Inr (zero_request\<lparr>rrService := labels ! 0, rrNamespace := labels ! 1, rrCluster := labels ! 2,
               rrIsAdHoc := True\<rparr>)
      else Inl errInvalidRequest)"

definition String :: "recordRequest \<Rightarrow> string" where
  "String r = rrHostname r @ ''.'' @ rrCluster r @ ''.'' @ rrService r @ ''.'' @ rrNamespace r"

section \<open>The documented name formats\<close>

text \<open>
  The four formats of the comment in \<open>parseRequest\<close>, each with its labels below a zone of one
  label and the request it stands for.
\<close>

datatype query_name =
    ServiceName (qnService: string) (qnNamespace: string)
  | ClusterName (qnCluster: string) (qnService: string) (qnNamespace: string)
  | HostName (qnHost: string) (qnCluster: string) (qnService: string) (qnNamespace: string)
  | LegacyName (qnService: string) (qnNamespace: string) (qnCluster: string)

fun name_labels :: "string \<Rightarrow> query_name \<Rightarrow> string list" where
  "name_labels z (ServiceName s n) = [s, n, LabelSVC, z]"
| "name_labels z (ClusterName c s n) = [c, s, n, LabelSVC, z]"
| "name_labels z (HostName h c s n) = [h, c, s, n, LabelSVC, z]"
| "name_labels z (LegacyName s n c) = [s, n, c, z]"

fun name_request :: "query_name \<Rightarrow> recordRequest" where
  "name_request (ServiceName s n) = zero_request\<lparr>rrService := s, rrNamespace := n\<rparr>"
| "name_request (ClusterName c s n) =
     zero_request\<lparr>rrCluster := c, rrService := s, rrNamespace := n, rrIsAdHoc := True\<rparr>"
| "name_request (HostName h c s n) =
     zero_request\<lparr>rrHostname := h, rrCluster := c, rrService := s, rrNamespace := n\<rparr>"
| "name_request (LegacyName s n c) =
     zero_request\<lparr>rrService := s, rrNamespace := n, rrCluster := c, rrIsAdHoc := True\<rparr>"

text \<open>``If you name your cluster as svc, it is your problem'': the one clash of the formats.\<close>

fun unambiguous :: "query_name \<Rightarrow> bool" where
  "unambiguous (LegacyName s n c) = (c \<noteq> LabelSVC)"
| "unambiguous _ = True"

section \<open>Lemmas\<close>

lemma parseRequest_labels:
  "split name = name_labels z q \<Longrightarrow> unambiguous q \<Longrightarrow> parseRequest split name = Inr (name_request q)"
  by (cases q) (simp_all add: parseRequest_def zero_request_def)

lemma parseRequest_error_iff:
  "parseRequest split name = Inl e \<longleftrightarrow> length (split name) \<notin> {4, 5, 6} \<and> e = errInvalidRequest"
  by (auto simp: parseRequest_def Let_def)

lemma parseRequest_Inl: "parseRequest split name = Inl e \<Longrightarrow> e = errInvalidRequest"
  by (simp add: parseRequest_error_iff)

lemma parseRequest_adHoc_hostname:
  "parseRequest split name = Inr r \<Longrightarrow> rrIsAdHoc r \<Longrightarrow> rrHostname r = []"
  by (auto simp: parseRequest_def zero_request_def Let_def split: if_splits)

text \<open>Splitting at dots, without the empty label a closing dot would make.\<close>

fun split_dots :: "string \<Rightarrow> string \<Rightarrow> string list" where
  "split_dots acc [] = (if acc = [] then [] else [rev acc])"
| "split_dots acc (c # s) =
     (if c = CHR ''.'' then rev acc # split_dots [] s else split_dots (c # acc) s)"

definition simple_split :: "string \<Rightarrow> string list" where
  "simple_split s = (if s = ''.'' then [] else split_dots [] s)"

section \<open>Properties\<close>

text \<open>
  C13 (parseRequest_roundtrip): every documented format is read back as the request it stands for,
  unless it is the deprecated one with a cluster called svc.
\<close>

theorem parseRequest_roundtrip:
  assumes "split name = name_labels z q" and "unambiguous q"
  shows "parseRequest split name = Inr (name_request q)"
  using assms by (rule parseRequest_labels)

theorem parseRequest_roundtrip_witness:
  "parseRequest simple_split ''mysql-0.chaoyang.mysql.default.svc.global.''
     = Inr (name_request (HostName ''mysql-0'' ''chaoyang'' ''mysql'' ''default''))"
  by (rule parseRequest_roundtrip [where z = "''global''"])
    (simp_all add: simple_split_def LabelSVC_def)

text \<open>
  The guard in front of the switch never holds; a name is
  refused exactly when it has not four, five or six labels, and the only error is
  \<open>errInvalidRequest\<close>.
\<close>

theorem parseRequest_accepts_by_length:
  "(\<exists>r. parseRequest split name = Inr r) = (length (split name) \<in> {4, 5, 6}) \<and>
   (parseRequest split name = Inl e) = (length (split name) \<notin> {4, 5, 6} \<and> e = errInvalidRequest)"
proof
  show "(\<exists>r. parseRequest split name = Inr r) = (length (split name) \<in> {4, 5, 6})"
    using parseRequest_error_iff [of split name] by (metis sum.exhaust Inl_Inr_False)
qed (rule parseRequest_error_iff)

text \<open>
  With five or six labels the label in front of the zone is
  never compared with svc, although every documented format has svc there: any other label is
  read the same way.
\<close>

theorem parseRequest_ignores_svc_label:
  "(split name = [c, s, n, x, z] \<longrightarrow>
      parseRequest split name = Inr (name_request (ClusterName c s n))) \<and>
   (split name = [h, c, s, n, x, z] \<longrightarrow>
      parseRequest split name = Inr (name_request (HostName h c s n)))"
  by (simp add: parseRequest_def zero_request_def)

theorem parseRequest_ignores_svc_label_witness:
  "parseRequest simple_split ''chaoyang.nginx.default.pod.global.''
     = Inr (name_request (ClusterName ''chaoyang'' ''nginx'' ''default''))"
  using parseRequest_ignores_svc_label
    [of simple_split "''chaoyang.nginx.default.pod.global.''" "''chaoyang''" "''nginx''"
        "''default''" "''pod''" "''global''"]
  by (simp add: simple_split_def)

text \<open>
  The labels of the zone are counted with those of the name.
  Below a zone of two labels the name of a service is read as the name of a cluster's
  service, one place off: the service becomes the cluster, its namespace the service, and svc
  the namespace.
\<close>

theorem parseRequest_multi_label_zone:
  assumes "split name = name_labels z1 (ServiceName s n) @ [z2]"
  shows "parseRequest split name = Inr (name_request (ClusterName s n LabelSVC))"
  using assms by (simp add: parseRequest_def zero_request_def)

theorem parseRequest_multi_label_zone_witness:
  "parseRequest simple_split ''nginx.default.svc.test.org.''
     = Inr (name_request (ClusterName ''nginx'' ''default'' ''svc''))"
  using parseRequest_multi_label_zone
    [of simple_split "''nginx.default.svc.test.org.''" "''test''" "''nginx''" "''default''" "''org''"]
  by (simp add: simple_split_def LabelSVC_def)

end
