(* ===== verification/GoNet.thy ===== *)
theory GoNet
  imports Prelude "HOL-Library.Word"
begin

text \<open>
  The part of Go's standard library the DNS plugin computes with: \<open>net.ParseIP\<close>, \<open>IP.To4\<close> and
  \<open>IP.To16\<close> as in Go 1.16, the version the Dockerfiles under \<open>build/\<close> compile with (octets of
  an IPv4 address may have leading zeros there).  An address is its list of bytes; \<open>None\<close> is
  the nil slice.  What the plugin needs of the parser is proved at the end: a parsed address
  has sixteen bytes, and \<open>To4\<close> separates the two families.
\<close>

type_synonym IP = "8 word list"

section \<open>Numbers\<close>

definition char_code :: "char \<Rightarrow> nat" where
  "char_code c = of_char c"

definition dec_digit :: "char \<Rightarrow> nat option" where
  "dec_digit c = (let n = char_code c in if 48 \<le> n \<and> n \<le> 57 then Some (n - 48) else None)"

definition hex_digit :: "char \<Rightarrow> nat option" where
  "hex_digit c =
     (let n = char_code c in
      if 48 \<le> n \<and> n \<le> 57 then Some (n - 48)
      else if 97 \<le> n \<and> n \<le> 102 then Some (n - 97 + 10)
      else if 65 \<le> n \<and> n \<le> 70 then Some (n - 65 + 10)
      else None)"

text \<open>
  \<open>dtoi\<close> and \<open>xtoi\<close>: the number at the start of a string, the count of its digits and the rest;
  no digit at all, or a number that reaches \<open>big\<close>, is a failure.
\<close>

definition big :: nat where
  "big = 0xFFFFFF"

fun digits_from ::
  "(char \<Rightarrow> nat option) \<Rightarrow> nat \<Rightarrow> nat \<Rightarrow> nat \<Rightarrow> string \<Rightarrow> (nat \<times> nat \<times> string) option" where
  "digits_from dig base n i [] = (if i = 0 then None else Some (n, i, []))"
| "digits_from dig base n i (c # s) =
     (case dig c of
        None \<Rightarrow> if i = 0 then None else Some (n, i, c # s)
      | Some d \<Rightarrow>
          if n * base + d \<ge> big then None else digits_from dig base (n * base + d) (i + 1) s)"

definition dtoi :: "string \<Rightarrow> (nat \<times> nat \<times> string) option" where
  "dtoi s = digits_from dec_digit 10 0 0 s"

definition xtoi :: "string \<Rightarrow> (nat \<times> nat \<times> string) option" where
  "xtoi s = digits_from hex_digit 16 0 0 s"

section \<open>IPv4\<close>

text \<open>Four octets; every one but the first is preceded by a dot.\<close>

fun ipv4_octets :: "nat \<Rightarrow> bool \<Rightarrow> string \<Rightarrow> 8 word list option" where
  "ipv4_octets 0 first s = (if s = [] then Some [] else None)"
| "ipv4_octets (Suc k) first s =
     (case (if first then Some s
            else (case s of [] \<Rightarrow> None | c # s' \<Rightarrow> if c = CHR ''.'' then Some s' else None)) of
        None \<Rightarrow> None
      | Some s1 \<Rightarrow>
          (case dtoi s1 of
             None \<Rightarrow> None
           | Some (n, _, rest) \<Rightarrow>
               if n > 255 then None
               else map_option (\<lambda>bs. of_nat n # bs) (ipv4_octets k False rest)))"

definition v4InV6Prefix :: IP where
  "v4InV6Prefix = replicate 10 0 @ [0xff, 0xff]"

definition parseIPv4 :: "string \<Rightarrow> IP option" where
  "parseIPv4 s = map_option (\<lambda>p. v4InV6Prefix @ p) (ipv4_octets 4 True s)"

section \<open>IPv6\<close>

text \<open>
  The loop of \<open>parseIPv6\<close>: \<open>k\<close> groups of two bytes may still follow (\<open>i < IPv6len\<close> is \<open>k > 0\<close>),
  \<open>ell\<close> is the place of the ellipsis, \<open>acc\<close> the bytes so far.  The result is the place of the
  ellipsis, the bytes and what is left of the text.
\<close>

fun ipv6_groups ::
  "nat \<Rightarrow> nat option \<Rightarrow> 8 word list \<Rightarrow> string \<Rightarrow> (nat option \<times> 8 word list \<times> string) option" where
  "ipv6_groups 0 ell acc s = Some (ell, acc, s)"
| "ipv6_groups (Suc k) ell acc s =
     (case xtoi s of
        None \<Rightarrow> None
      | Some (n, _, rest) \<Rightarrow>
          if n > 0xFFFF then None
          else if rest \<noteq> [] \<and> hd rest = CHR ''.'' then
            (if ell = None \<and> length acc \<noteq> 12 then None
             else if length acc + 4 > 16 then None
             else (case parseIPv4 s of
                     None \<Rightarrow> None
                   | Some ip4 \<Rightarrow> Some (ell, acc @ drop 12 ip4, [])))
          else
            (let acc' = acc @ [of_nat (n div 256), of_nat (n mod 256)] in
             case rest of
               [] \<Rightarrow> Some (ell, acc', [])
             | c # s1 \<Rightarrow>
                 if c \<noteq> CHR '':'' \<or> s1 = [] then None
                 else if hd s1 = CHR '':'' then
                   (if ell \<noteq> None then None
                    else if tl s1 = [] then Some (Some (length acc'), acc', [])
                    else ipv6_groups k (Some (length acc')) acc' (tl s1))
                 else ipv6_groups k ell acc' s1))"

definition parseIPv6 :: "string \<Rightarrow> IP option" where
  "parseIPv6 s =
     (let leading = take 2 s = ''::'';
          ell = (if leading then Some 0 else None);
          s1 = (if leading then drop 2 s else s)
      in if leading \<and> s1 = [] then Some (replicate 16 0)
         else (case ipv6_groups 8 ell [] s1 of
                 None \<Rightarrow> None
               | Some (ell', acc, rest) \<Rightarrow>
                   if rest \<noteq> [] then None
                   else if length acc < 16 then
                     (case ell' of
                        None \<Rightarrow> None
                      | Some e \<Rightarrow> Some (take e acc @ replicate (16 - length acc) 0 @ drop e acc))
                   else if ell' \<noteq> None then None
                   else Some acc))"

section \<open>ParseIP, To4, To16\<close>

definition ParseIP :: "string \<Rightarrow> IP option" where
  "ParseIP s =
     (case find (\<lambda>c. c = CHR ''.'' \<or> c = CHR '':'') s of
        None \<Rightarrow> None
      | Some c \<Rightarrow> if c = CHR ''.'' then parseIPv4 s else parseIPv6 s)"

definition To4 :: "IP \<Rightarrow> IP option" where
  "To4 ip =
     (if length ip = 4 then Some ip
      else if length ip = 16 \<and> take 12 ip = v4InV6Prefix then Some (drop 12 ip)
      else None)"

definition To16 :: "IP \<Rightarrow> IP option" where
  "To16 ip =
     (if length ip = 4 then Some (v4InV6Prefix @ ip)
      else if length ip = 16 then Some ip
      else None)"

section \<open>What parsing gives\<close>

lemma ipv4_octets_length: "ipv4_octets k first s = Some bs \<Longrightarrow> length bs = k"
  by (induction k first s arbitrary: bs rule: ipv4_octets.induct)
    (auto split: if_splits option.splits list.splits)

lemma length_v4InV6Prefix [simp]: "length v4InV6Prefix = 12"
  by (simp add: v4InV6Prefix_def)

lemma parseIPv4_length: "parseIPv4 s = Some ip \<Longrightarrow> length ip = 16"
  by (auto simp: parseIPv4_def dest: ipv4_octets_length)

lemma parseIPv4_To4: "parseIPv4 s = Some ip \<Longrightarrow> To4 ip = Some (drop 12 ip)"
  by (auto simp: parseIPv4_def To4_def dest: ipv4_octets_length)

lemma ipv6_groups_length:
  "ipv6_groups k ell acc s = Some (ell', acc', rest) \<Longrightarrow> length acc + 2 * k = 16 \<Longrightarrow> length acc' \<le> 16"
proof (induction k arbitrary: ell acc s)
  case 0
  then show ?case by simp
next
  case (Suc k)
  from Suc.prems(1) obtain n i r where x: "xtoi s = Some (n, i, r)" and small: "\<not> n > 0xFFFF"
    by (auto simp del: One_nat_def split: option.splits if_splits)
  let ?acc = "acc @ [of_nat (n div 256), of_nat (n mod 256)]"
  have room: "length ?acc + 2 * k = 16" using Suc.prems(2) by simp
  note step = Suc.prems(1) [unfolded ipv6_groups.simps x option.case prod.case if_not_P [OF small]]
  show ?case
  proof (cases "r \<noteq> [] \<and> hd r = CHR ''.''")
    case True
    from step [unfolded if_P [OF True]] show ?thesis
      by (auto split: option.splits if_splits dest: parseIPv4_length)
  next
    case False
    note step' = step [unfolded if_not_P [OF False] Let_def]
    show ?thesis
    proof (cases r)
      case Nil
      with step' room show ?thesis by simp
    next
      case (Cons c s1)
      note step'' = step' [unfolded Cons list.case]
      show ?thesis
        using step'' room by (auto split: if_splits dest: Suc.IH)
    qed
  qed
qed

lemma parseIPv6_length: "parseIPv6 s = Some ip \<Longrightarrow> length ip = 16"
  by (auto simp: parseIPv6_def Let_def dest!: ipv6_groups_length split: if_splits option.splits)

lemma ParseIP_length: "ParseIP s = Some ip \<Longrightarrow> length ip = 16"
  by (auto simp: ParseIP_def parseIPv4_length parseIPv6_length split: option.splits if_splits)

lemma To4_length: "To4 ip = Some ip4 \<Longrightarrow> length ip4 = 4"
  by (auto simp: To4_def split: if_splits)

lemma To16_ParseIP: "ParseIP s = Some ip \<Longrightarrow> To16 ip = Some ip"
  by (simp add: To16_def ParseIP_length)

section \<open>Evaluation\<close>

text \<open>Equations by which the simplifier computes a parsed address; used by the witnesses.\<close>

lemma parseIPv4_eval:
  "parseIPv4 s =
     map_option (\<lambda>p. v4InV6Prefix @ p) (ipv4_octets (Suc (Suc (Suc (Suc 0)))) True s)"
  by (simp add: parseIPv4_def numeral_eq_Suc)

lemma v4InV6Prefix_eval: "v4InV6Prefix = [0, 0, 0, 0, 0, 0, 0, 0, 0, 0, 0xff, 0xff]"
  by (simp add: v4InV6Prefix_def numeral_eq_Suc)

lemma ipv6_groups_8: "ipv6_groups 8 = ipv6_groups (Suc (Suc (Suc (Suc (Suc (Suc (Suc (Suc 0))))))))"
  by (simp add: numeral_eq_Suc)

lemma replicate_numeral_eval: "replicate (numeral k) x = x # replicate (pred_numeral k) x"
  by (simp add: numeral_eq_Suc)

lemmas ip_eval =
  ParseIP_def parseIPv4_eval parseIPv6_def ipv6_groups_8 dtoi_def xtoi_def dec_digit_def
  hex_digit_def char_code_def Let_def v4InV6Prefix_eval To4_def To16_def big_def
  replicate_numeral_eval

end
