(* ===== verification/KubeApi.thy ===== *)
theory KubeApi
  imports Apis
begin

text \<open>
  The Kubernetes API as the program uses it.  The client (\<open>client.Client\<close> of
  controller-runtime, \<open>ctrlpkg.CreateOrUpdate\<close>) is not code of this repository: it is the
  record \<open>'w kube\<close> of the calls the program makes, over an unknown world \<open>'w\<close>, an argument of
  every definition that calls it.  What the code relies on are the named laws of the locale
  \<open>kube_api\<close>, which state the documented behaviour of the calls; any call may fail at any
  time, and a write that fails may have been carried out, but only as a whole.  The laws say
  nothing of other writers: between the calls of one operation the objects it reads stay as
  they are (an update that lost such a race is one of the errors).  And they idealise the reads:
  \<open>get_ok\<close>, \<open>get_missing\<close>, \<open>list_ok\<close> and the read inside \<open>CreateOrUpdate\<close> see what the API holds.  The
  program reads through \<open>Manager.GetClient()\<close> (\<open>options.go\<close>), whose reads come from a cache that
  follows the API with a delay.  A write on top of a stale read is no danger to the laws, as the API
  refuses it (the resource version is old) and the write counts as failed; but a stale answer \<open>not
  found\<close> makes \<open>RevokeGlobalService\<close> succeed without doing anything, and a stale service or slice is
  exported as it was.  The theorems hold of the code for operations whose reads are up to date; what
  follows when the cache lags is not modelled.  The last section is a
  concrete API server in memory, with namespaces, resource versions, conflicts and a
  schedule of failures, on which the laws are proved and the witnesses are evaluated.
\<close>

section \<open>The calls\<close>

text \<open>
  \<open>kCreateOrUpdateGS obj f\<close> is \<open>CreateOrUpdate(ctx, client, obj, f)\<close>: \<open>f\<close> is the mutate
  function, applied to the stored object when there is one and to \<open>obj\<close> when there is none.
\<close>

record 'w kube =
  kGetGS :: "ObjectKey \<Rightarrow> 'w \<Rightarrow> (go_error + GlobalService) \<times> 'w"
  kListGS :: "'w \<Rightarrow> (go_error + GlobalService list) \<times> 'w"
  kCreateOrUpdateGS ::
    "GlobalService \<Rightarrow> (GlobalService \<Rightarrow> go_error + GlobalService) \<Rightarrow> 'w \<Rightarrow> go_error option \<times> 'w"
  kUpdateGS :: "GlobalService \<Rightarrow> 'w \<Rightarrow> go_error option \<times> 'w"
  kDeleteGS :: "GlobalService \<Rightarrow> 'w \<Rightarrow> go_error option \<times> 'w"
  kGetNS :: "string \<Rightarrow> 'w \<Rightarrow> go_error option \<times> 'w"
  kCreateNS :: "ObjectMeta \<Rightarrow> 'w \<Rightarrow> go_error option \<times> 'w"
  kGetService :: "ObjectKey \<Rightarrow> 'w \<Rightarrow> (go_error + Service) \<times> 'w"
  kListSlices ::
    "string \<Rightarrow> (string, string) gomap \<Rightarrow> 'w \<Rightarrow> (go_error + EndpointSlice list) \<times> 'w"

section \<open>The laws\<close>

text \<open>
  The server may fill in the metadata it manages (resource version, UID); name, namespace,
  labels and spec are stored as written.
\<close>

definition stored_as :: "GlobalService \<Rightarrow> GlobalService \<Rightarrow> bool" where
  "stored_as g g' \<longleftrightarrow>
     keyFromObject g' = keyFromObject g \<and> omLabels (gsMeta g') = omLabels (gsMeta g) \<and>
     gsSpec g' = gsSpec g"

lemma stored_as_refl [simp]: "stored_as g g"
  by (simp add: stored_as_def)

text \<open>
  \<open>objs w\<close> is the GlobalServices the API holds in the world \<open>w\<close>, \<open>nss w\<close> its namespaces.  A read
  or a write of one object leaves the other objects alone.
\<close>

locale kube_api =
  fixes K :: "'w kube"
    and objs :: "'w \<Rightarrow> ObjectKey \<Rightarrow> GlobalService option"
    and nss :: "'w \<Rightarrow> string set"
  assumes keyed: "objs w k = Some g \<Longrightarrow> keyFromObject g = k"
    and get_ok: "kGetGS K k w = (Inr g, w') \<Longrightarrow> objs w k = Some g"
    and get_missing: "kGetGS K k w = (Inl e, w') \<Longrightarrow> IsNotFound e \<Longrightarrow> objs w k = None"
    and get_frame: "kGetGS K k w = (r, w') \<Longrightarrow> objs w' = objs w"
    and list_ok: "kListGS K w = (Inr gs, w') \<Longrightarrow>
      distinct (map keyFromObject gs) \<and> (\<forall>g. g \<in> set gs \<longleftrightarrow> objs w (keyFromObject g) = Some g)"
    and list_frame: "kListGS K w = (r', w') \<Longrightarrow> objs w' = objs w"
    and apply_ok: "kCreateOrUpdateGS K obj f w = (None, w') \<Longrightarrow>
      \<exists>g g'. f (case objs w (keyFromObject obj) of None \<Rightarrow> obj | Some old \<Rightarrow> old) = Inr g \<and>
        objs w' (keyFromObject obj) = Some g' \<and> stored_as g g'"
    and apply_frame: "kCreateOrUpdateGS K obj f w = (r'', w') \<Longrightarrow>
      k \<noteq> keyFromObject obj \<Longrightarrow> objs w' k = objs w k"
    and apply_atomic: "kCreateOrUpdateGS K obj f w = (r'', w') \<Longrightarrow>
      objs w' (keyFromObject obj) = objs w (keyFromObject obj) \<or>
      (\<exists>g g'. f (case objs w (keyFromObject obj) of None \<Rightarrow> obj | Some old \<Rightarrow> old) = Inr g \<and>
        objs w' (keyFromObject obj) = Some g' \<and> stored_as g g')"
    and update_ok: "kUpdateGS K g w = (None, w') \<Longrightarrow>
      \<exists>g'. objs w' (keyFromObject g) = Some g' \<and> stored_as g g'"
    and update_frame: "kUpdateGS K g w = (r'', w') \<Longrightarrow>
      k \<noteq> keyFromObject g \<Longrightarrow> objs w' k = objs w k"
    and update_atomic: "kUpdateGS K g w = (r'', w') \<Longrightarrow>
      objs w' (keyFromObject g) = objs w (keyFromObject g) \<or>
      (\<exists>g'. objs w' (keyFromObject g) = Some g' \<and> stored_as g g')"
    and delete_ok: "kDeleteGS K g w = (None, w') \<Longrightarrow> objs w' (keyFromObject g) = None"
    and delete_frame: "kDeleteGS K g w = (r'', w') \<Longrightarrow>
      k \<noteq> keyFromObject g \<Longrightarrow> objs w' k = objs w k"
    and delete_atomic: "kDeleteGS K g w = (r'', w') \<Longrightarrow>
      objs w' (keyFromObject g) = objs w (keyFromObject g) \<or> objs w' (keyFromObject g) = None"
    and delete_unnamed: "kDeleteGS K g w = (r'', w') \<Longrightarrow>
      okName (keyFromObject g) = [] \<Longrightarrow> r'' \<noteq> None \<and> objs w' = objs w"
    and get_ns_ok: "kGetNS K n w = (None, w') \<Longrightarrow> n \<in> nss w'"
    and get_ns_frame: "kGetNS K n w = (r'', w') \<Longrightarrow> objs w' = objs w \<and> nss w \<subseteq> nss w'"
    and create_ns_ok: "kCreateNS K m w = (r'', w') \<Longrightarrow>
      r'' = None \<or> (\<exists>e. r'' = Some e \<and> IsAlreadyExists e) \<Longrightarrow> omName m \<in> nss w'"
    and create_ns_frame: "kCreateNS K m w = (r'', w') \<Longrightarrow> objs w' = objs w \<and> nss w \<subseteq> nss w'"
    and get_service_frame: "kGetService K k w = (rs, w') \<Longrightarrow> objs w' = objs w"
    and get_service_keyed: "kGetService K k w = (Inr s, w') \<Longrightarrow>
      ObjectKey (omNamespace (svcMeta s)) (omName (svcMeta s)) = k"
    and list_slices_frame: "kListSlices K n ls w = (rl, w') \<Longrightarrow> objs w' = objs w"

section \<open>An API server in memory\<close>

text \<open>
  The objects are lists in which the first element with a key counts.  \<open>memFaults\<close> is the
  failure schedule: every call takes its head, and \<open>Some\<close> of a message makes the call fail with
  it; an empty schedule lets every call through.
\<close>

record memory =
  memGS :: "GlobalService list"
  memNS :: "string list"
  memServices :: "Service list"
  memSlices :: "EndpointSlice list"
  memRV :: nat
  memFaults :: "string option list"

definition empty_memory :: memory where
  "empty_memory = \<lparr>memGS = [], memNS = [''default''], memServices = [], memSlices = [],
     memRV = 0, memFaults = []\<rparr>"

definition with_faults ::
  "(go_error \<Rightarrow> 'r) \<Rightarrow> (memory \<Rightarrow> 'r \<times> memory) \<Rightarrow> memory \<Rightarrow> 'r \<times> memory" where
  "with_faults err call m =
     (case memFaults m of
        [] \<Rightarrow> call m
      | None # fs \<Rightarrow> call (m\<lparr>memFaults := fs\<rparr>)
      | Some e # fs \<Rightarrow> (err (StatusError ReasonUnknown e), m\<lparr>memFaults := fs\<rparr>))"

definition mem_lookup :: "GlobalService list \<Rightarrow> ObjectKey \<Rightarrow> GlobalService option" where
  "mem_lookup gs k = find (\<lambda>g. keyFromObject g = k) gs"

definition mem_objs :: "memory \<Rightarrow> ObjectKey \<Rightarrow> GlobalService option" where
  "mem_objs m = mem_lookup (memGS m)"

definition mem_nss :: "memory \<Rightarrow> string set" where
  "mem_nss m = set (memNS m)"

fun first_by_key :: "GlobalService list \<Rightarrow> GlobalService list" where
  "first_by_key [] = []"
| "first_by_key (g # gs) =
     g # filter (\<lambda>h. keyFromObject h \<noteq> keyFromObject g) (first_by_key gs)"

text \<open>A write puts a new resource version on the object; it keeps the object's place.\<close>

fun replace_gs :: "GlobalService \<Rightarrow> GlobalService list \<Rightarrow> GlobalService list" where
  "replace_gs g [] = [g]"
| "replace_gs g (h # hs) =
     (if keyFromObject h = keyFromObject g then g # hs else h # replace_gs g hs)"

definition bump_version :: "nat \<Rightarrow> GlobalService \<Rightarrow> GlobalService" where
  "bump_version n g = g\<lparr>gsMeta := (gsMeta g)\<lparr>omResourceVersion := show_nat n\<rparr>\<rparr>"

definition mem_write :: "GlobalService \<Rightarrow> memory \<Rightarrow> memory" where
  "mem_write g m =
     m\<lparr>memGS := replace_gs (bump_version (Suc (memRV m)) g) (memGS m), memRV := Suc (memRV m)\<rparr>"

definition mem_delete :: "ObjectKey \<Rightarrow> memory \<Rightarrow> memory" where
  "mem_delete k m = m\<lparr>memGS := filter (\<lambda>g. keyFromObject g \<noteq> k) (memGS m)\<rparr>"

definition mem_get_gs :: "ObjectKey \<Rightarrow> memory \<Rightarrow> (go_error + GlobalService) \<times> memory" where
  "mem_get_gs k = with_faults Inl (\<lambda>m.
     (case mem_objs m k of
        None \<Rightarrow> Inl (StatusError ReasonNotFound ''not found'')
      | Some g \<Rightarrow> Inr g, m))"

definition mem_list_gs :: "memory \<Rightarrow> (go_error + GlobalService list) \<times> memory" where
  "mem_list_gs = with_faults Inl (\<lambda>m. (Inr (first_by_key (memGS m)), m))"

definition mem_create :: "GlobalService \<Rightarrow> memory \<Rightarrow> go_error option \<times> memory" where
  "mem_create g m =
     (if okName (keyFromObject g) = [] then (Some (TextError ''name is required''), m)
      else if okNamespace (keyFromObject g) \<notin> set (memNS m)
      then (Some (StatusError ReasonNotFound ''namespace not found''), m)
      else (None, mem_write g m))"

definition mem_create_or_update ::
  "GlobalService \<Rightarrow> (GlobalService \<Rightarrow> go_error + GlobalService) \<Rightarrow> memory
     \<Rightarrow> go_error option \<times> memory" where
  "mem_create_or_update obj f = with_faults Some (\<lambda>m.
     (case mem_objs m (keyFromObject obj) of
        None \<Rightarrow>
          (case f obj of
             Inl e \<Rightarrow> (Some e, m)
           | Inr g \<Rightarrow>
               if keyFromObject g \<noteq> keyFromObject obj
               then (Some (TextError ''MutateFn cannot mutate object name''), m)
               else mem_create g m)
      | Some old \<Rightarrow>
          (case f old of
             Inl e \<Rightarrow> (Some e, m)
           | Inr g \<Rightarrow>
               if keyFromObject g \<noteq> keyFromObject obj
               then (Some (TextError ''MutateFn cannot mutate object name''), m)
               else if g = old then (None, m)
               else (None, mem_write g m))))"

definition mem_update :: "GlobalService \<Rightarrow> memory \<Rightarrow> go_error option \<times> memory" where
  "mem_update g = with_faults Some (\<lambda>m.
     (case mem_objs m (keyFromObject g) of
        None \<Rightarrow> (Some (StatusError ReasonNotFound ''not found''), m)
      | Some old \<Rightarrow>
          if omResourceVersion (gsMeta g) \<noteq> omResourceVersion (gsMeta old)
          then (Some (StatusError ReasonUnknown ''the object has been modified''), m)
          else (None, mem_write g m)))"

definition mem_delete_gs :: "GlobalService \<Rightarrow> memory \<Rightarrow> go_error option \<times> memory" where
  "mem_delete_gs g = with_faults Some (\<lambda>m.
     if okName (keyFromObject g) = [] then (Some (TextError ''resource name may not be empty''), m)
     else if mem_objs m (keyFromObject g) = None
     then (Some (StatusError ReasonNotFound ''not found''), m)
     else (None, mem_delete (keyFromObject g) m))"

definition mem_get_ns :: "string \<Rightarrow> memory \<Rightarrow> go_error option \<times> memory" where
  "mem_get_ns n = with_faults Some (\<lambda>m.
     (if n \<in> set (memNS m) then None else Some (StatusError ReasonNotFound ''not found''), m))"

definition mem_create_ns :: "ObjectMeta \<Rightarrow> memory \<Rightarrow> go_error option \<times> memory" where
  "mem_create_ns om = with_faults Some (\<lambda>m.
     if omName om \<in> set (memNS m)
     then (Some (StatusError ReasonAlreadyExists ''already exists''), m)
     else (None, m\<lparr>memNS := omName om # memNS m\<rparr>))"

definition mem_get_service :: "ObjectKey \<Rightarrow> memory \<Rightarrow> (go_error + Service) \<times> memory" where
  "mem_get_service k = with_faults Inl (\<lambda>m.
     (case find (\<lambda>s. ObjectKey (omNamespace (svcMeta s)) (omName (svcMeta s)) = k) (memServices m) of
        None \<Rightarrow> Inl (StatusError ReasonNotFound ''not found'')
      | Some s \<Rightarrow> Inr s, m))"

definition mem_list_slices ::
  "string \<Rightarrow> (string, string) gomap \<Rightarrow> memory \<Rightarrow> (go_error + EndpointSlice list) \<times> memory" where
  "mem_list_slices ns ls = with_faults Inl (\<lambda>m.
     (Inr (filter (\<lambda>es. esNamespace es = ns \<and>
              list_all (\<lambda>(k, v). label_value (esLabels es) k = v) ls) (memSlices m)), m))"

definition mem_kube :: "memory kube" where
  "mem_kube =
     \<lparr>kGetGS = mem_get_gs, kListGS = mem_list_gs, kCreateOrUpdateGS = mem_create_or_update,
      kUpdateGS = mem_update, kDeleteGS = mem_delete_gs, kGetNS = mem_get_ns,
      kCreateNS = mem_create_ns, kGetService = mem_get_service, kListSlices = mem_list_slices\<rparr>"

section \<open>The server in memory keeps the laws\<close>

lemmas mem_calls =
  mem_get_gs_def mem_list_gs_def mem_create_or_update_def mem_update_def mem_delete_gs_def
  mem_get_ns_def mem_create_ns_def mem_get_service_def mem_list_slices_def mem_create_def
  with_faults_def

lemma mem_objs_faults [simp]: "mem_objs (m\<lparr>memFaults := fs\<rparr>) = mem_objs m"
  by (simp add: mem_objs_def)

lemma mem_objs_namespaces [simp]: "mem_objs (m\<lparr>memNS := ns\<rparr>) = mem_objs m"
  by (simp add: mem_objs_def)

lemma mem_nss_faults [simp]: "mem_nss (m\<lparr>memFaults := fs\<rparr>) = mem_nss m"
  by (simp add: mem_nss_def)

lemma keyFromObject_bump [simp]: "keyFromObject (bump_version n g) = keyFromObject g"
  by (simp add: keyFromObject_def bump_version_def)

lemma stored_as_bump [simp]: "stored_as g (bump_version n g)"
  by (simp add: stored_as_def bump_version_def keyFromObject_def)

lemma mem_lookup_keyed: "mem_lookup gs k = Some g \<Longrightarrow> keyFromObject g = k"
  by (auto simp: mem_lookup_def find_Some_iff)

lemma mem_lookup_replace:
  "mem_lookup (replace_gs g gs) k = (if k = keyFromObject g then Some g else mem_lookup gs k)"
  by (induction gs) (auto simp: mem_lookup_def)

lemma mem_lookup_filter:
  "mem_lookup (filter (\<lambda>g. keyFromObject g \<noteq> k') gs) k = (if k = k' then None else mem_lookup gs k)"
  by (induction gs) (auto simp: mem_lookup_def)

lemma mem_objs_write:
  "mem_objs (mem_write g m) k =
     (if k = keyFromObject g then Some (bump_version (Suc (memRV m)) g) else mem_objs m k)"
  by (simp add: mem_objs_def mem_write_def mem_lookup_replace)

lemma mem_objs_delete: "mem_objs (mem_delete k' m) k = (if k = k' then None else mem_objs m k)"
  by (simp add: mem_objs_def mem_delete_def mem_lookup_filter)

lemma mem_nss_write [simp]: "mem_nss (mem_write g m) = mem_nss m"
  by (simp add: mem_nss_def mem_write_def)

lemma first_by_key_distinct: "distinct (map keyFromObject (first_by_key gs))"
  by (induction gs) (auto simp: distinct_map inj_on_def)

lemma first_by_key_mem: "g \<in> set (first_by_key gs) \<longleftrightarrow> mem_lookup gs (keyFromObject g) = Some g"
  by (induction gs) (auto simp: mem_lookup_def)

lemma mem_objs_keyed: "mem_objs m k = Some g \<Longrightarrow> keyFromObject g = k"
  by (simp add: mem_objs_def mem_lookup_keyed)


lemmas mem_facts =
  mem_objs_write mem_objs_delete mem_objs_keyed first_by_key_distinct first_by_key_mem

lemma mem_create_or_update_frame:
  "mem_create_or_update obj f w = (r, w') \<Longrightarrow> k \<noteq> keyFromObject obj \<Longrightarrow> mem_objs w' k = mem_objs w k"
  by (auto simp: mem_calls mem_facts split: list.splits option.splits sum.splits if_splits)

lemma mem_create_or_update_ok:
  assumes "mem_create_or_update obj f w = (None, w')"
  shows "\<exists>g g'. f (case mem_objs w (keyFromObject obj) of None \<Rightarrow> obj | Some old \<Rightarrow> old) = Inr g \<and>
    mem_objs w' (keyFromObject obj) = Some g' \<and> stored_as g g'"
  using assms
  by (force simp: mem_calls mem_facts split: list.splits option.splits sum.splits if_splits)

lemma mem_create_or_update_atomic:
  assumes "mem_create_or_update obj f w = (r, w')"
  shows "mem_objs w' (keyFromObject obj) = mem_objs w (keyFromObject obj) \<or>
    (\<exists>g g'. f (case mem_objs w (keyFromObject obj) of None \<Rightarrow> obj | Some old \<Rightarrow> old) = Inr g \<and>
    mem_objs w' (keyFromObject obj) = Some g' \<and> stored_as g g')"
proof (cases r)
  case None
  then show ?thesis using assms mem_create_or_update_ok by simp
next
  case (Some e)
  then have "mem_objs w' = mem_objs w"
    using assms by (auto simp: mem_calls split: list.splits option.splits sum.splits if_splits)
  then show ?thesis by simp
qed

lemma mem_update_ok:
  "mem_update g w = (None, w') \<Longrightarrow>
     \<exists>g'. mem_objs w' (keyFromObject g) = Some g' \<and> stored_as g g'"
  by (auto simp: mem_calls mem_facts split: list.splits option.splits if_splits)

lemma mem_update_atomic:
  "mem_update g w = (r, w') \<Longrightarrow> mem_objs w' (keyFromObject g) = mem_objs w (keyFromObject g) \<or>
     (\<exists>g'. mem_objs w' (keyFromObject g) = Some g' \<and> stored_as g g')"
  by (auto simp: mem_calls mem_facts split: list.splits option.splits if_splits)

lemma mem_update_frame:
  "mem_update g w = (r, w') \<Longrightarrow> k \<noteq> keyFromObject g \<Longrightarrow> mem_objs w' k = mem_objs w k"
  by (auto simp: mem_calls mem_facts split: list.splits option.splits if_splits)

lemma mem_get_gs_laws:
  assumes "mem_get_gs k w = (r, w')"
  shows "mem_objs w' = mem_objs w" and "r = Inr g \<Longrightarrow> mem_objs w k = Some g"
    and "r = Inl e \<Longrightarrow> IsNotFound e \<Longrightarrow> mem_objs w k = None"
  using assms by (auto simp: mem_calls split: list.splits option.splits)

lemma mem_list_gs_laws:
  assumes "mem_list_gs w = (r, w')"
  shows "mem_objs w' = mem_objs w"
    and "r = Inr gs \<Longrightarrow> distinct (map keyFromObject gs) \<and>
      (\<forall>g. g \<in> set gs \<longleftrightarrow> mem_objs w (keyFromObject g) = Some g)"
  using assms
  by (auto simp: mem_calls mem_objs_def first_by_key_distinct first_by_key_mem
      split: list.splits option.splits)

lemma mem_delete_gs_laws:
  assumes "mem_delete_gs g w = (r, w')"
  shows "r = None \<Longrightarrow> mem_objs w' (keyFromObject g) = None"
    and "k \<noteq> keyFromObject g \<Longrightarrow> mem_objs w' k = mem_objs w k"
    and "mem_objs w' (keyFromObject g) = mem_objs w (keyFromObject g) \<or>
      mem_objs w' (keyFromObject g) = None"
    and "okName (keyFromObject g) = [] \<Longrightarrow> r \<noteq> None \<and> mem_objs w' = mem_objs w"
  using assms by (auto simp: mem_calls mem_facts split: list.splits option.splits if_splits)

lemma mem_ns_laws:
  shows "mem_get_ns n w = (None, w') \<Longrightarrow> n \<in> mem_nss w'"
    and "mem_get_ns n w = (r, w') \<Longrightarrow> mem_objs w' = mem_objs w \<and> mem_nss w \<subseteq> mem_nss w'"
    and "mem_create_ns m w = (r, w') \<Longrightarrow> r = None \<or> (\<exists>e. r = Some e \<and> IsAlreadyExists e) \<Longrightarrow>
      omName m \<in> mem_nss w'"
    and "mem_create_ns m w = (r, w') \<Longrightarrow> mem_objs w' = mem_objs w \<and> mem_nss w \<subseteq> mem_nss w'"
  by (auto simp: mem_calls mem_nss_def mem_objs_def split: list.splits option.splits if_splits)

lemma mem_hub_reads_frame:
  shows "mem_get_service k w = (rs, w') \<Longrightarrow> mem_objs w' = mem_objs w"
    and "mem_get_service k w = (Inr s, w') \<Longrightarrow>
      ObjectKey (omNamespace (svcMeta s)) (omName (svcMeta s)) = k"
    and "mem_list_slices n ls w = (rl, w') \<Longrightarrow> mem_objs w' = mem_objs w"
  by (auto simp: mem_calls find_Some_iff split: list.splits option.splits)

lemma mem_kube_calls [simp]:
  "kGetGS mem_kube = mem_get_gs" "kListGS mem_kube = mem_list_gs"
  "kCreateOrUpdateGS mem_kube = mem_create_or_update" "kUpdateGS mem_kube = mem_update"
  "kDeleteGS mem_kube = mem_delete_gs" "kGetNS mem_kube = mem_get_ns"
  "kCreateNS mem_kube = mem_create_ns" "kGetService mem_kube = mem_get_service"
  "kListSlices mem_kube = mem_list_slices"
  by (simp_all add: mem_kube_def)

lemmas mem_laws =
  mem_objs_keyed mem_get_gs_laws mem_list_gs_laws mem_create_or_update_ok
  mem_create_or_update_atomic mem_create_or_update_frame mem_update_ok mem_update_atomic
  mem_update_frame mem_delete_gs_laws mem_ns_laws mem_hub_reads_frame

interpretation mem: kube_api mem_kube mem_objs mem_nss
  by unfold_locales
    (unfold mem_kube_calls, (rule mem_laws; (assumption | rule refl))+)

end
