(* ===== verification/Samples.thy ===== *)
theory Samples
  imports Apis
begin

text \<open>
  Concrete values for the witnesses, taken from the repository's own tests
  (\<open>global_service_manager_test.go\<close>, \<open>fabdns_test.go\<close>): the service \<open>nginx\<close> in the namespace
  \<open>default\<close>, exported by the clusters \<open>beijing\<close> and \<open>shanghai\<close>.
\<close>

definition sample_meta :: "string \<Rightarrow> string \<Rightarrow> string \<Rightarrow> ObjectMeta" where
  "sample_meta ns n c = zero_meta\<lparr>omName := n, omNamespace := ns, omClusterName := c\<rparr>"

definition sample_endpoint :: "string \<Rightarrow> string \<Rightarrow> string \<Rightarrow> string list \<Rightarrow> Endpoint" where
  "sample_endpoint c z r addrs =
     \<lparr>epAddresses = addrs, epHostname = None, epTargetRef = None,
      epCluster = c, epZone = z, epRegion = r\<rparr>"

definition sample_port :: ServicePort where
  "sample_port = \<lparr>spName = ''web'', spProtocol = ''TCP'', spAppProtocol = None, spPort = 80\<rparr>"

definition sample_service :: "string \<Rightarrow> Endpoint list \<Rightarrow> GlobalService" where
  "sample_service c eps =
     \<lparr>gsMeta = sample_meta ''default'' ''nginx'' c,
      gsSpec = \<lparr>gsType = ClusterIP, gsPorts = [sample_port], gsEndpoints = eps\<rparr>\<rparr>"

definition beijing :: GlobalService where
  "beijing = sample_service ''beijing''
     [sample_endpoint ''beijing'' ''beijing'' ''north'' [''192.168.1.1'']]"

definition shanghai :: GlobalService where
  "shanghai = sample_service ''shanghai''
     [sample_endpoint ''shanghai'' ''shanghai'' ''south'' [''192.168.1.2'', ''FF01::2'']]"

definition nginx_key :: ObjectKey where
  "nginx_key = ObjectKey ''default'' ''nginx''"

lemmas samples =
  sample_meta_def sample_endpoint_def sample_port_def sample_service_def beijing_def
  shanghai_def nginx_key_def zero_meta_def zero_spec_def zero_gs_def keyFromObject_def

end
