(* ===== verification/FabDns.thy ===== *)
theory FabDns
  imports DnsParse GoNet KubeApi Samples
begin

text \<open>
  \<open>pkg/fabdns/fabdns.go\<close>: the CoreDNS plugin that answers A and AAAA queries from the
  GlobalServices of its cluster.  The DNS library, CoreDNS and the Kubernetes client are
  arguments: \<open>coredns\<close> collects the functions of the first two, with the laws of the
  locale \<open>coredns_laws\<close> for the reply messages; the client is a \<open>kube\<close>.  The state of a
  handler is the world of the client and the list of the messages written so far.
\<close>

section \<open>Messages and the libraries\<close>

definition RcodeSuccess :: nat where "RcodeSuccess = 0"
definition RcodeServerFailure :: nat where "RcodeServerFailure = 2"
definition RcodeNameError :: nat where "RcodeNameError = 3"
definition RcodeNotImplemented :: nat where "RcodeNotImplemented = 4"
definition RcodeNotZone :: nat where "RcodeNotZone = 10"
definition TypeA :: nat where "TypeA = 1"
definition TypeAAAA :: nat where "TypeAAAA = 28"

lemmas rcodes =
  RcodeSuccess_def RcodeServerFailure_def RcodeNameError_def RcodeNotImplemented_def RcodeNotZone_def

text \<open>What the accessors of \<open>request.Request\<close> give for the query, with its message id.\<close>

record query =
  qQName :: string
  qName :: string
  qQType :: nat
  qQClass :: nat
  qId :: nat

record RR_Header =
  hdrName :: string
  hdrRrtype :: nat
  hdrClass :: nat
  hdrTtl :: "32 word"

datatype RR = A (rrHdr: RR_Header) (rrData: "IP option") | AAAA (rrHdr: RR_Header) (rrData: "IP option")

record Msg =
  msgAuthoritative :: bool
  msgRcode :: nat
  msgAnswer :: "RR list"
  msgId :: nat

definition new_msg :: Msg where
  "new_msg = \<lparr>msgAuthoritative = False, msgRcode = 0, msgAnswer = [], msgId = 0\<rparr>"

text \<open>
  \<open>zonesMatches\<close> is \<open>plugin.Zones(zones).Matches\<close>, \<open>fallThrough\<close> is \<open>fall.F.Through\<close>,
  \<open>nextPlugin\<close> is \<open>plugin.NextOrFailure\<close>, \<open>pluginError\<close> is \<open>plugin.Error\<close>.
\<close>

record 'w coredns =
  splitDomainName :: "string \<Rightarrow> string list"
  setReply :: "Msg \<Rightarrow> query \<Rightarrow> Msg"
  setRcode :: "Msg \<Rightarrow> query \<Rightarrow> nat \<Rightarrow> Msg"
  zonesMatches :: "string list \<Rightarrow> string \<Rightarrow> string"
  fallThrough :: "string list \<Rightarrow> string \<Rightarrow> bool"
  nextPlugin :: "query \<Rightarrow> 'w \<times> Msg list \<Rightarrow> (nat \<times> go_error option) \<times> 'w \<times> Msg list"
  pluginError :: "string \<Rightarrow> go_error option \<Rightarrow> go_error option"

text \<open>
  A reply keeps the authoritative flag and the answers set before; \<open>SetReply\<close> sets the code to
  success, \<open>SetRcode\<close> to the code it is given; the zone that matches is a suffix of the name
  (up to case), so it is no longer; a wrapped error is an error.
\<close>

locale coredns_laws =
  fixes L :: "'w coredns"
  assumes reply_flag: "msgAuthoritative (setReply L m q) = msgAuthoritative m"
    and reply_answer: "msgAnswer (setReply L m q) = msgAnswer m"
    and reply_rcode: "msgRcode (setReply L m q) = RcodeSuccess"
    and rcode_flag: "msgAuthoritative (setRcode L m q c) = msgAuthoritative m"
    and rcode_answer: "msgAnswer (setRcode L m q c) = msgAnswer m"
    and rcode_rcode: "msgRcode (setRcode L m q c) = c"
    and wrapped_error: "pluginError L n (Some e) \<noteq> None"
    and match_length: "length (zonesMatches L zs n) \<le> length n"

section \<open>The plugin\<close>

record ClusterInfo =
  ciName :: string
  ciZone :: string
  ciRegion :: string

record 'w FabDNS =
  Zones :: "string list"
  Fall :: "string list"
  TTL :: "32 word"
  Client :: "'w kube"
  Cluster :: ClusterInfo

definition PluginName :: string where
  "PluginName = ''fabdns''"

definition defaultTTL :: int where
  "defaultTTL = 5"

fun IsNameError :: "go_error \<Rightarrow> bool" where
  "IsNameError e = (e = errNoItems \<or> e = errInvalidRequest)"

definition verifyIP :: "string \<Rightarrow> IP option \<times> bool" where
  "verifyIP address = (let ip = ParseIP address in (ip, ip \<noteq> None))"

definition isIPv4 :: "IP \<Rightarrow> bool" where
  "isIPv4 ip \<longleftrightarrow> To4 ip \<noteq> None"

definition generateRecords :: "'w FabDNS \<Rightarrow> query \<Rightarrow> Endpoint \<Rightarrow> RR list" where
  "generateRecords f q ep =
     (if qQType q = TypeA then
        concat (map (\<lambda>addr.
          (case verifyIP addr of
             (Some ip, True) \<Rightarrow>
               if isIPv4 ip
               then [A \<lparr>hdrName = qQName q, hdrRrtype = TypeA, hdrClass = qQClass q, hdrTtl = TTL f\<rparr> (To4 ip)]
               else []
           | _ \<Rightarrow> [])) (epAddresses ep))
      else if qQType q = TypeAAAA then
        concat (map (\<lambda>addr.
          (case verifyIP addr of
             (Some ip, True) \<Rightarrow>
               if \<not> isIPv4 ip
               then [AAAA \<lparr>hdrName = qQName q, hdrRrtype = TypeAAAA, hdrClass = qQClass q, hdrTtl = TTL f\<rparr> (To16 ip)]
               else []
           | _ \<Rightarrow> [])) (epAddresses ep))
      else [])"

text \<open>
  The loop of \<open>getGlobalRecords\<close>: its variables are whether the name of a headless endpoint was
  found and the records of the cluster, of the zone and of the region.
\<close>

record buckets =
  bkExists :: bool
  bkCluster :: "RR list"
  bkZone :: "RR list"
  bkRegion :: "RR list"

definition empty_buckets :: buckets where
  "empty_buckets = \<lparr>bkExists = False, bkCluster = [], bkZone = [], bkRegion = []\<rparr>"

definition sortEndpoint ::
  "'w FabDNS \<Rightarrow> query \<Rightarrow> bool \<Rightarrow> string \<Rightarrow> string \<Rightarrow> Endpoint \<Rightarrow> buckets \<Rightarrow> buckets" where
  "sortEndpoint f q headless clusterName hostname ep b =
     (if epCluster ep = clusterName then
        if headless then
          if epHostname ep = Some hostname
          then b\<lparr>bkExists := True, bkCluster := bkCluster b @ generateRecords f q ep\<rparr>
          else b
        else b\<lparr>bkCluster := bkCluster b @ generateRecords f q ep\<rparr>
      else if epZone ep = ciZone (Cluster f) then b\<lparr>bkZone := bkZone b @ generateRecords f q ep\<rparr>
      else if epRegion ep = ciRegion (Cluster f) then b\<lparr>bkRegion := bkRegion b @ generateRecords f q ep\<rparr>
      else b)"

fun sortEndpoints ::
  "'w FabDNS \<Rightarrow> query \<Rightarrow> bool \<Rightarrow> string \<Rightarrow> string \<Rightarrow> Endpoint list \<Rightarrow> buckets \<Rightarrow> buckets" where
  "sortEndpoints f q headless clusterName hostname [] b = b"
| "sortEndpoints f q headless clusterName hostname (ep # eps) b =
     sortEndpoints f q headless clusterName hostname eps
       (sortEndpoint f q headless clusterName hostname ep b)"

text \<open>What is done with the object once it is read; the reading is the function after it.\<close>

definition chooseRecords ::
  "'w FabDNS \<Rightarrow> query \<Rightarrow> recordRequest \<Rightarrow> GlobalService \<Rightarrow> go_error + RR list" where
  "chooseRecords f q r gs =
     (let headless = (rrCluster r \<noteq> []) in
      if headless \<and> gsType (gsSpec gs) \<noteq> Headless then Inl errInvalidRequest
      else
        let clusterName = (if headless then rrCluster r else ciName (Cluster f));
            b = sortEndpoints f q headless clusterName (rrHostname r) (endpoints_of gs) empty_buckets
        in if headless then (if \<not> bkExists b then Inl errNoItems else Inr (bkCluster b))
           else if length (bkCluster b) > 0 then Inr (bkCluster b)
           else if length (bkZone b) > 0 then Inr (bkZone b)
           else if length (bkRegion b) > 0 then Inr (bkRegion b)
           else Inr (concat (map (generateRecords f q) (endpoints_of gs))))"

definition getGlobalRecords ::
  "'w FabDNS \<Rightarrow> query \<Rightarrow> recordRequest \<Rightarrow> 'w \<Rightarrow> (go_error + RR list) \<times> 'w" where
  "getGlobalRecords f q r w =
     (if length (rrNamespace r) = 0 \<or> length (rrService r) = 0 then (Inl errNoItems, w)
      else if length (rrHostname r) > 0 \<and> rrCluster r = [] then (Inl errInvalidRequest, w)
      else
        (case kGetGS (Client f) (ObjectKey (rrNamespace r) (rrService r)) w of
           (Inl e, w1) \<Rightarrow> (Inl (if IsNotFound e then errNoItems else e), w1)
         | (Inr gs, w1) \<Rightarrow> (chooseRecords f q r gs, w1)))"

definition getAdHocRecords ::
  "'w FabDNS \<Rightarrow> query \<Rightarrow> recordRequest \<Rightarrow> 'w \<Rightarrow> (go_error + RR list) \<times> 'w" where
  "getAdHocRecords f q r w =
     (case kGetGS (Client f) (ObjectKey (rrNamespace r) (rrService r)) w of
        (Inl e, w1) \<Rightarrow> (Inl (if IsNotFound e then errNoItems else e), w1)
      | (Inr gs, w1) \<Rightarrow>
          (Inr (concat (map (generateRecords f q)
             (filter (\<lambda>ep. epCluster ep = rrCluster r) (endpoints_of gs)))), w1))"

type_synonym 'w handled = "(nat \<times> go_error option) \<times> 'w \<times> Msg list"

definition writeMsg ::
  "'w coredns \<Rightarrow> query \<Rightarrow> RR list \<Rightarrow> nat \<Rightarrow> go_error option \<Rightarrow> 'w \<times> Msg list \<Rightarrow> 'w handled" where
  "writeMsg L q records rcode err st =
     (let message = new_msg\<lparr>msgAuthoritative := True\<rparr>;
          (message, err) =
            (if rcode = RcodeSuccess
             then (let m = setReply L message q in (m\<lparr>msgAnswer := msgAnswer m @ records\<rparr>, err))
             else (setRcode L message q rcode, pluginError L PluginName err))
      in ((rcode, err), fst st, snd st @ [message]))"

definition nextOrFailure ::
  "'w coredns \<Rightarrow> 'w FabDNS \<Rightarrow> query \<Rightarrow> nat \<Rightarrow> go_error \<Rightarrow> 'w \<times> Msg list \<Rightarrow> 'w handled" where
  "nextOrFailure L f q rcode err st =
     (if fallThrough L (Fall f) (qName q) then nextPlugin L q st
      else writeMsg L q [] rcode (Some err) st)"

text \<open>
  \<open>zone = qname[len(qname)-len(zone):]\<close> panics when the zone is longer than the name; the
  value itself is only stored in the request and not read again.
\<close>

definition ServeDNS :: "'w coredns \<Rightarrow> 'w FabDNS \<Rightarrow> query \<Rightarrow> 'w \<times> Msg list \<Rightarrow> 'w handled outcome" where
  "ServeDNS L f q st =
     (let qname = qQName q; zone = zonesMatches L (Zones f) qname in
      if length zone = 0 then
        Returned (nextOrFailure L f q RcodeNotZone (TextError ''name not contained in zone'') st)
      else if length qname < length zone then Panicked
      else if qQType q \<noteq> TypeA \<and> qQType q \<noteq> TypeAAAA then
        Returned (nextOrFailure L f q RcodeNotImplemented
          (TextError (''query type '' @ show_nat (qQType q) @ '' is not implemented'')) st)
      else
        (case parseRequest (splitDomainName L) qname of
           Inl err \<Rightarrow> Returned ((RcodeNameError, Some err), st)
         | Inr r \<Rightarrow>
             (case (if rrIsAdHoc r then getAdHocRecords f q r (fst st)
                    else getGlobalRecords f q r (fst st)) of
                (Inl err, w1) \<Rightarrow>
                  if IsNameError err
                  then Returned (nextOrFailure L f q RcodeNameError err (w1, snd st))
                  else Returned ((RcodeServerFailure, pluginError L PluginName (Some err)), w1, snd st)
              | (Inr records, w1) \<Rightarrow>
                  Returned (writeMsg L q records RcodeSuccess None (w1, snd st)))))"


section \<open>Records\<close>

text \<open>
  What every record of an answer looks like: the name and class of the query, the TTL of the
  plugin, and an address of the family that was asked for, four bytes for A and sixteen bytes
  that are no mapped IPv4 address for AAAA.
\<close>

fun rr_ok :: "'w FabDNS \<Rightarrow> query \<Rightarrow> RR \<Rightarrow> bool" where
  "rr_ok f q (A h d) \<longleftrightarrow> qQType q = TypeA \<and>
     h = \<lparr>hdrName = qQName q, hdrRrtype = TypeA, hdrClass = qQClass q, hdrTtl = TTL f\<rparr> \<and>
     (\<exists>ip. d = Some ip \<and> length ip = 4)"
| "rr_ok f q (AAAA h d) \<longleftrightarrow> qQType q = TypeAAAA \<and>
     h = \<lparr>hdrName = qQName q, hdrRrtype = TypeAAAA, hdrClass = qQClass q, hdrTtl = TTL f\<rparr> \<and>
     (\<exists>ip. d = Some ip \<and> length ip = 16 \<and> To4 ip = None)"

lemma generateRecords_ok: "rr \<in> set (generateRecords f q ep) \<Longrightarrow> rr_ok f q rr"
  by (auto simp: generateRecords_def verifyIP_def isIPv4_def Let_def To16_ParseIP
      dest: To4_length ParseIP_length split: if_splits option.splits bool.splits)

lemma generateRecords_other_type:
  "qQType q \<noteq> TypeA \<Longrightarrow> qQType q \<noteq> TypeAAAA \<Longrightarrow> generateRecords f q ep = []"
  by (simp add: generateRecords_def)

definition records_of :: "'w FabDNS \<Rightarrow> query \<Rightarrow> (Endpoint \<Rightarrow> bool) \<Rightarrow> Endpoint list \<Rightarrow> RR list" where
  "records_of f q P eps = concat (map (generateRecords f q) (filter P eps))"

lemma records_of_Cons [endpoints]:
  "records_of f q P (e # es) = (if P e then generateRecords f q e else []) @ records_of f q P es"
  by (simp add: records_of_def)

lemma records_of_Nil [simp]: "records_of f q P [] = []"
  by (simp add: records_of_def)

lemma records_of_ok: "rr \<in> set (records_of f q P eps) \<Longrightarrow> rr_ok f q rr"
  by (auto simp: records_of_def dest: generateRecords_ok)

lemma records_of_empty:
  "records_of f q P eps = [] \<longleftrightarrow> (\<forall>e \<in> set eps. P e \<longrightarrow> generateRecords f q e = [])"
  by (induction eps) (auto simp: records_of_Cons)

section \<open>Topology\<close>

text \<open>
  How near an endpoint is to the plugin's cluster: in the cluster, in its zone, in its region,
  or elsewhere.
\<close>

definition tier :: "ClusterInfo \<Rightarrow> Endpoint \<Rightarrow> nat" where
  "tier ci e =
     (if epCluster e = ciName ci then 0
      else if epZone e = ciZone ci then 1
      else if epRegion e = ciRegion ci then 2
      else 3)"

definition tier_records :: "'w FabDNS \<Rightarrow> query \<Rightarrow> nat \<Rightarrow> Endpoint list \<Rightarrow> RR list" where
  "tier_records f q k eps = records_of f q (\<lambda>e. tier (Cluster f) e = k) eps"

lemma tier_le: "tier ci e \<le> 3"
  by (simp add: tier_def)

lemma sortEndpoints_service:
  "sortEndpoints f q False (ciName (Cluster f)) h eps b =
     \<lparr>bkExists = bkExists b,
      bkCluster = bkCluster b @ tier_records f q 0 eps,
      bkZone = bkZone b @ tier_records f q 1 eps,
      bkRegion = bkRegion b @ tier_records f q 2 eps\<rparr>"
  by (induction eps arbitrary: b)
    (simp_all add: sortEndpoint_def tier_records_def tier_def records_of_Cons)

lemma sortEndpoints_headless:
  "bkExists (sortEndpoints f q True c h eps b) \<longleftrightarrow>
     bkExists b \<or> (\<exists>e \<in> set eps. epCluster e = c \<and> epHostname e = Some h)"
  "bkCluster (sortEndpoints f q True c h eps b) =
     bkCluster b @ records_of f q (\<lambda>e. epCluster e = c \<and> epHostname e = Some h) eps"
  by (induction eps arbitrary: b) (auto simp: sortEndpoint_def records_of_Cons)

lemma all_records_last_tier:
  assumes "tier_records f q 0 eps = []" "tier_records f q 1 eps = []" "tier_records f q 2 eps = []"
  shows "concat (map (generateRecords f q) eps) = tier_records f q 3 eps"
proof -
  have "generateRecords f q e = []" if "e \<in> set eps" "tier (Cluster f) e \<noteq> 3" for e
  proof -
    have "tier (Cluster f) e = 0 \<or> tier (Cluster f) e = 1 \<or> tier (Cluster f) e = 2"
      using that(2) tier_le [of "Cluster f" e] by arith
    then show ?thesis using assms that(1) by (auto simp: tier_records_def records_of_empty)
  qed
  then show ?thesis
    by (induction eps) (auto simp: tier_records_def records_of_Cons)
qed

lemma chooseRecords_service:
  assumes "rrCluster r = []"
  shows "\<exists>k \<le> 3. chooseRecords f q r gs = Inr (tier_records f q k (endpoints_of gs)) \<and>
    (\<forall>j < k. tier_records f q j (endpoints_of gs) = []) \<and>
    (k < 3 \<longrightarrow> tier_records f q k (endpoints_of gs) \<noteq> [])"
proof -
  let ?t = "\<lambda>k. tier_records f q k (endpoints_of gs)"
  have choice: "chooseRecords f q r gs = Inr
      (if ?t 0 \<noteq> [] then ?t 0 else if ?t 1 \<noteq> [] then ?t 1 else if ?t 2 \<noteq> [] then ?t 2
       else concat (map (generateRecords f q) (endpoints_of gs)))"
    using assms by (simp add: chooseRecords_def sortEndpoints_service empty_buckets_def)
  consider "?t 0 \<noteq> []" | "?t 0 = []" "?t 1 \<noteq> []" | "?t 0 = []" "?t 1 = []" "?t 2 \<noteq> []"
    | "?t 0 = []" "?t 1 = []" "?t 2 = []" by blast
  then show ?thesis
  proof cases
    case 1
    then show ?thesis using choice by (intro exI [of _ 0]) simp
  next
    case 2
    then show ?thesis using choice by (intro exI [of _ 1]) simp
  next
    case 3
    then show ?thesis using choice by (intro exI [of _ 2]) (simp add: less_2_cases_iff)
  next
    case 4
    then show ?thesis using choice all_records_last_tier [OF 4]
      by (intro exI [of _ 3]) (auto simp: numeral_3_eq_3 less_Suc_eq numeral_2_eq_2)
  qed
qed

lemma chooseRecords_headless:
  assumes "rrCluster r = c" and "c \<noteq> []"
  shows "chooseRecords f q r gs =
    (if gsType (gsSpec gs) \<noteq> Headless then Inl errInvalidRequest
     else if \<exists>e \<in> set (endpoints_of gs). epCluster e = c \<and> epHostname e = Some (rrHostname r)
     then Inr (records_of f q (\<lambda>e. epCluster e = c \<and> epHostname e = Some (rrHostname r)) (endpoints_of gs))
     else Inl errNoItems)"
  using assms by (auto simp: chooseRecords_def Let_def sortEndpoints_headless empty_buckets_def)

lemma chooseRecords_ok:
  "chooseRecords f q r gs = Inr rs \<Longrightarrow> rr \<in> set rs \<Longrightarrow> rr_ok f q rr"
proof (cases "rrCluster r = []")
  case True
  assume "chooseRecords f q r gs = Inr rs" "rr \<in> set rs"
  then show ?thesis
    using chooseRecords_service [OF True, of f q gs] by (auto simp: tier_records_def dest: records_of_ok)
next
  case False
  assume "chooseRecords f q r gs = Inr rs" "rr \<in> set rs"
  then show ?thesis
    by (auto simp: chooseRecords_headless [OF refl False] dest: records_of_ok split: if_splits)
qed


section \<open>The handler\<close>

text \<open>The query goes past the checks in front of the parsing.\<close>

definition accepted :: "'w coredns \<Rightarrow> 'w FabDNS \<Rightarrow> query \<Rightarrow> bool" where
  "accepted L f q \<longleftrightarrow>
     zonesMatches L (Zones f) (qQName q) \<noteq> [] \<and> (qQType q = TypeA \<or> qQType q = TypeAAAA)"

definition reply_with :: "'w coredns \<Rightarrow> query \<Rightarrow> RR list \<Rightarrow> Msg" where
  "reply_with L q rs =
     (let m = setReply L (new_msg\<lparr>msgAuthoritative := True\<rparr>) q in m\<lparr>msgAnswer := msgAnswer m @ rs\<rparr>)"

definition error_reply :: "'w coredns \<Rightarrow> query \<Rightarrow> nat \<Rightarrow> Msg" where
  "error_reply L q rcode = setRcode L (new_msg\<lparr>msgAuthoritative := True\<rparr>) q rcode"

lemma writeMsg_success:
  "writeMsg L q rs RcodeSuccess None (w, ms) = ((RcodeSuccess, None), w, ms @ [reply_with L q rs])"
  by (simp add: writeMsg_def reply_with_def Let_def)

lemma writeMsg_failure:
  "rcode \<noteq> RcodeSuccess \<Longrightarrow> writeMsg L q [] rcode err (w, ms) =
     ((rcode, pluginError L PluginName err), w, ms @ [error_reply L q rcode])"
  by (simp add: writeMsg_def error_reply_def Let_def)

context coredns_laws begin

lemma reply_with_fields [simp]:
  "msgAuthoritative (reply_with L q rs)" "msgRcode (reply_with L q rs) = RcodeSuccess"
  "msgAnswer (reply_with L q rs) = rs"
  by (simp_all add: reply_with_def Let_def reply_flag reply_rcode reply_answer new_msg_def)

lemma error_reply_fields [simp]:
  "msgAuthoritative (error_reply L q c)" "msgRcode (error_reply L q c) = c"
  "msgAnswer (error_reply L q c) = []"
  by (simp_all add: error_reply_def rcode_flag rcode_rcode rcode_answer new_msg_def)

lemma ServeDNS_accepted:
  assumes "accepted L f q"
  shows "ServeDNS L f q (w, ms) =
    (case parseRequest (splitDomainName L) (qQName q) of
       Inl err \<Rightarrow> Returned ((RcodeNameError, Some err), w, ms)
     | Inr r \<Rightarrow>
         (case (if rrIsAdHoc r then getAdHocRecords f q r w else getGlobalRecords f q r w) of
            (Inl err, w1) \<Rightarrow>
              if IsNameError err then Returned (nextOrFailure L f q RcodeNameError err (w1, ms))
              else Returned ((RcodeServerFailure, pluginError L PluginName (Some err)), w1, ms)
          | (Inr records, w1) \<Rightarrow>
              Returned ((RcodeSuccess, None), w1, ms @ [reply_with L q records])))"
  using assms match_length [of "Zones f" "qQName q"]
  by (auto simp: ServeDNS_def accepted_def writeMsg_success Let_def not_less
      split: sum.splits prod.splits)

lemma ServeDNS_no_panic: "ServeDNS L f q st \<noteq> Panicked"
  using match_length [of "Zones f" "qQName q"]
  by (auto simp: ServeDNS_def Let_def not_less split: sum.splits prod.splits)

lemma ServeDNS_cluster_service:
  assumes "accepted L f q"
    and "splitDomainName L (qQName q) = name_labels z (ClusterName c s n) \<or>
         splitDomainName L (qQName q) = name_labels z (LegacyName s n c) \<and> c \<noteq> LabelSVC"
    and "kGetGS (Client f) (ObjectKey n s) w = (res, w1)"
  shows "ServeDNS L f q (w, ms) =
    (case res of
       Inl e \<Rightarrow>
         if IsNotFound e \<or> IsNameError e
         then Returned (nextOrFailure L f q RcodeNameError (if IsNotFound e then errNoItems else e) (w1, ms))
         else Returned ((RcodeServerFailure, pluginError L PluginName (Some e)), w1, ms)
     | Inr gs \<Rightarrow> Returned ((RcodeSuccess, None), w1,
         ms @ [reply_with L q (records_of f q (\<lambda>e. epCluster e = c) (endpoints_of gs))]))"
proof -
  let ?r = "name_request (ClusterName c s n)"
  have parse: "parseRequest (splitDomainName L) (qQName q) = Inr ?r"
    using assms(2)
      parseRequest_labels [of "splitDomainName L" "qQName q" z "ClusterName c s n"]
      parseRequest_labels [of "splitDomainName L" "qQName q" z "LegacyName s n c"] by auto
  have "rrIsAdHoc ?r" and "getAdHocRecords f q ?r w =
      (map_sum (\<lambda>e. if IsNotFound e then errNoItems else e)
        (\<lambda>gs. records_of f q (\<lambda>e. epCluster e = c) (endpoints_of gs)) res, w1)"
    using assms(3) by (simp_all add: getAdHocRecords_def records_of_def zero_request_def split: sum.split)
  then show ?thesis
    using ServeDNS_accepted [OF assms(1), of w ms]
    by (simp add: parse del: name_request.simps split: sum.split)
qed

lemma records_found_ok:
  assumes "(if rrIsAdHoc r then getAdHocRecords f q r w else getGlobalRecords f q r w) = (Inr rs, w1)"
    and "rr \<in> set rs"
  shows "rr_ok f q rr"
  using assms
  by (auto simp: getAdHocRecords_def getGlobalRecords_def chooseRecords_ok generateRecords_ok
      split: if_splits prod.splits sum.splits)

text \<open>
  Without fallthrough the handler writes at most one message.  The message is a reply whose code
  is the one returned, with well-formed records only; none is written exactly when the name
  does not parse or the API fails.
\<close>

lemma ServeDNS_replies:
  assumes "ServeDNS L f q (w, ms) = Returned ((rcode, err), w', ms')"
    and "\<not> fallThrough L (Fall f) (qName q)"
  shows "(ms' = ms \<and> err \<noteq> None \<and> rcode \<in> {RcodeNameError, RcodeServerFailure}) \<or>
    (\<exists>m. ms' = ms @ [m] \<and> msgRcode m = rcode \<and> msgAuthoritative m \<and>
      (\<forall>rr \<in> set (msgAnswer m). rr_ok f q rr) \<and> (rcode \<noteq> RcodeSuccess \<longrightarrow> msgAnswer m = []))"
proof (cases "accepted L f q")
  case False
  then show ?thesis
    using assms match_length [of "Zones f" "qQName q"]
    by (auto simp: ServeDNS_def accepted_def nextOrFailure_def writeMsg_failure rcodes Let_def
        split: if_splits)
next
  case True
  note run = assms(1) [unfolded ServeDNS_accepted [OF True]]
  show ?thesis
  proof (cases "parseRequest (splitDomainName L) (qQName q)")
    case (Inl e)
    with run show ?thesis by auto
  next
    case (Inr r)
    obtain res w1 where found:
      "(if rrIsAdHoc r then getAdHocRecords f q r w else getGlobalRecords f q r w) = (res, w1)" by force
    show ?thesis
    proof (cases res)
      case (Inl e)
      obtain y where y: "pluginError L PluginName (Some e) = Some y"
        using wrapped_error [of PluginName e] by auto
      with Inl run \<open>parseRequest _ _ = Inr r\<close> found assms(2) show ?thesis
        by (auto simp: nextOrFailure_def writeMsg_failure rcodes y split: if_splits)
    next
      case (Inr rs)
      with run \<open>parseRequest _ _ = Inr r\<close> found have
        "ms' = ms @ [reply_with L q rs]" "rcode = RcodeSuccess" by simp_all
      then show ?thesis using records_found_ok [OF found [unfolded Inr]] by simp
    qed
  qed
qed

end

section \<open>A DNS library for the witnesses\<close>

definition lower :: "string \<Rightarrow> string" where
  "lower s = map (\<lambda>c. let n = char_code c in if 65 \<le> n \<and> n \<le> 90 then char_of (n + 32) else c) s"

definition in_zone :: "string \<Rightarrow> string \<Rightarrow> bool" where
  "in_zone z n \<longleftrightarrow> z = ''.'' \<or> lower z = lower n \<or>
     (length z < length n \<and> lower (drop (length n - length z - 1) n) = CHR ''.'' # lower z)"

definition std_matches :: "string list \<Rightarrow> string \<Rightarrow> string" where
  "std_matches zs n =
     fold (\<lambda>z best. if length best < length z \<and> length z \<le> length n \<and> in_zone z n then z else best) zs []"

definition std_dns :: "'w coredns" where
  "std_dns =
     \<lparr>splitDomainName = simple_split,
      setReply = (\<lambda>m q. m\<lparr>msgRcode := RcodeSuccess, msgId := qId q\<rparr>),
      setRcode = (\<lambda>m q c. m\<lparr>msgRcode := c, msgId := qId q\<rparr>),
      zonesMatches = std_matches,
      fallThrough = (\<lambda>zs n. std_matches zs n \<noteq> []),
      nextPlugin = (\<lambda>q st. ((RcodeServerFailure, Some (TextError ''no next plugin found'')), st)),
      pluginError = (\<lambda>n e. Some (TextError (''plugin/'' @ n @ '': '' @
         (case e of None \<Rightarrow> ''nil'' | Some e \<Rightarrow> error_text e))))\<rparr>"

lemma std_matches_length: "length (std_matches zs n) \<le> length n"
proof -
  have "length (fold (\<lambda>z best. if length best < length z \<and> length z \<le> length n \<and> in_zone z n
      then z else best) zs b) \<le> length n" if "length b \<le> length n" for b
    using that by (induction zs arbitrary: b) auto
  from this [of "[]"] show ?thesis by (simp add: std_matches_def)
qed

interpretation std: coredns_laws std_dns
  by unfold_locales (simp_all add: std_dns_def std_matches_length)


section \<open>Properties\<close>

text \<open>The plugin of the repository's tests, and a query to it.\<close>

definition demo_dns :: "memory FabDNS" where
  "demo_dns = \<lparr>Zones = [''global.''], Fall = [], TTL = 5, Client = mem_kube,
     Cluster = \<lparr>ciName = ''shijiazhuang'', ciZone = ''hebei'', ciRegion = ''north''\<rparr>\<rparr>"

definition demo_query :: "string \<Rightarrow> nat \<Rightarrow> query" where
  "demo_query n t = \<lparr>qQName = n, qName = lower n, qQType = t, qQClass = 1, qId = 7\<rparr>"

definition demo_endpoints :: "Endpoint list" where
  "demo_endpoints =
     [sample_endpoint ''pudong'' ''shanghai'' ''east'' [''10.234.11.20''],
      (sample_endpoint ''chaoyang'' ''beijing'' ''north'' [''10.233.38.92'', ''FF01::3''])
        \<lparr>epHostname := Some ''mysql-0''\<rparr>]"

definition demo_store :: "ServiceType \<Rightarrow> memory" where
  "demo_store t = empty_memory\<lparr>memGS :=
     [\<lparr>gsMeta = sample_meta ''default'' ''nginx'' [],
       gsSpec = \<lparr>gsType = t, gsPorts = [sample_port], gsEndpoints = demo_endpoints\<rparr>\<rparr>]\<rparr>"

definition demo_A :: "string \<Rightarrow> 8 word list \<Rightarrow> RR" where
  "demo_A n ip = A \<lparr>hdrName = n, hdrRrtype = TypeA, hdrClass = 1, hdrTtl = 5\<rparr> (Some ip)"

text \<open>What the handler returns and leaves for a query to the plugin of the tests.\<close>

definition ServeDNS_result :: "query \<Rightarrow> memory handled" where
  "ServeDNS_result q =
     (case ServeDNS std_dns demo_dns q (demo_store ClusterIP, []) of
        Returned x \<Rightarrow> x
      | Panicked \<Rightarrow> ((0, None), demo_store ClusterIP, []))"

lemmas demo_eval =
  demo_dns_def demo_query_def demo_endpoints_def demo_A_def sample_endpoint_def tier_records_def
  records_of_def tier_def generateRecords_def verifyIP_def isIPv4_def TypeA_def TypeAAAA_def

text \<open>
  C2 (serve_service_nearest): the answer to a query for a global service holds the records of
  exactly the endpoints of one tier, the nearest of cluster, zone, region and elsewhere that
  has a record of the queried type.
\<close>

theorem serve_service_nearest:
  assumes "coredns_laws L" and "accepted L f q"
    and "splitDomainName L (qQName q) = name_labels z (ServiceName s n)" and "s \<noteq> []" and "n \<noteq> []"
    and "kGetGS (Client f) (ObjectKey n s) w = (Inr gs, w1)"
  shows "\<exists>k m. k \<le> 3 \<and> ServeDNS L f q (w, ms) = Returned ((RcodeSuccess, None), w1, ms @ [m]) \<and>
    msgRcode m = RcodeSuccess \<and> msgAuthoritative m \<and>
    msgAnswer m = tier_records f q k (endpoints_of gs) \<and>
    (\<forall>j < k. tier_records f q j (endpoints_of gs) = []) \<and>
    (k < 3 \<longrightarrow> tier_records f q k (endpoints_of gs) \<noteq> [])"
proof -
  let ?r = "name_request (ServiceName s n)"
  have parse: "parseRequest (splitDomainName L) (qQName q) = Inr ?r"
    using parseRequest_labels [of "splitDomainName L" "qQName q", OF assms(3)] by simp
  have fields: "\<not> rrIsAdHoc ?r" "rrCluster ?r = []" "rrHostname ?r = []" "rrService ?r = s"
    "rrNamespace ?r = n" by (simp_all add: zero_request_def)
  obtain k where k: "k \<le> 3" "chooseRecords f q ?r gs = Inr (tier_records f q k (endpoints_of gs))"
    "\<forall>j < k. tier_records f q j (endpoints_of gs) = []"
    "k < 3 \<longrightarrow> tier_records f q k (endpoints_of gs) \<noteq> []"
    using chooseRecords_service [OF fields(2)] by blast
  have "getGlobalRecords f q ?r w = (Inr (tier_records f q k (endpoints_of gs)), w1)"
    using assms(4-6) fields k(2) by (simp add: getGlobalRecords_def del: name_request.simps)
  then show ?thesis
    using coredns_laws.ServeDNS_accepted [OF assms(1,2), of w ms] parse fields k
      coredns_laws.reply_with_fields [OF assms(1)]
    by (intro exI [of _ k]) (simp del: name_request.simps)
qed

theorem serve_service_nearest_witness:
  "\<exists>k m. k \<le> 3 \<and> ServeDNS std_dns demo_dns (demo_query ''nginx.default.svc.global.'' TypeA) (demo_store ClusterIP, [])
       = Returned ((RcodeSuccess, None), demo_store ClusterIP, [m]) \<and>
     msgAnswer m = tier_records demo_dns (demo_query ''nginx.default.svc.global.'' TypeA) k demo_endpoints \<and>
     tier_records demo_dns (demo_query ''nginx.default.svc.global.'' TypeA) 2 demo_endpoints
       = [demo_A ''nginx.default.svc.global.'' [10, 233, 38, 92]]"
proof -
  let ?q = "demo_query ''nginx.default.svc.global.'' TypeA"
  have acc: "accepted std_dns demo_dns ?q" by code_simp
  have split: "splitDomainName std_dns (qQName ?q) = name_labels ''global'' (ServiceName ''nginx'' ''default'')"
    by code_simp
  have get: "kGetGS (Client demo_dns) (ObjectKey ''default'' ''nginx'') (demo_store ClusterIP)
      = (Inr (the (mem_objs (demo_store ClusterIP) nginx_key)), demo_store ClusterIP)"
    by code_simp
  have eps: "endpoints_of (the (mem_objs (demo_store ClusterIP) nginx_key)) = demo_endpoints" by code_simp
  have near: "tier_records demo_dns ?q 2 demo_endpoints = [demo_A ''nginx.default.svc.global.'' [10, 233, 38, 92]]"
    by (simp add: demo_eval ip_eval)
  show ?thesis
    using serve_service_nearest [OF std.coredns_laws_axioms acc split _ _ get, of "[]"] near
    unfolding eps by auto
qed

text \<open>
  C22 (serve_headless_endpoint): a query for one endpoint of a headless service is answered with
  the records of exactly the endpoints of that cluster with that hostname; when there is no
  such endpoint, or the service is not headless, the query fails with a name error (or goes to
  the next plugin).
\<close>

theorem serve_headless_endpoint:
  assumes "coredns_laws L" and "accepted L f q"
    and "splitDomainName L (qQName q) = name_labels z (HostName h c s n)"
    and "c \<noteq> []" and "s \<noteq> []" and "n \<noteq> []"
    and "kGetGS (Client f) (ObjectKey n s) w = (Inr gs, w1)"
  shows "ServeDNS L f q (w, ms) = Returned
    (if gsType (gsSpec gs) \<noteq> Headless then nextOrFailure L f q RcodeNameError errInvalidRequest (w1, ms)
     else if \<exists>e \<in> set (endpoints_of gs). epCluster e = c \<and> epHostname e = Some h
     then ((RcodeSuccess, None), w1, ms @ [reply_with L q
       (records_of f q (\<lambda>e. epCluster e = c \<and> epHostname e = Some h) (endpoints_of gs))])
     else nextOrFailure L f q RcodeNameError errNoItems (w1, ms))"
proof -
  let ?r = "name_request (HostName h c s n)"
  have parse: "parseRequest (splitDomainName L) (qQName q) = Inr ?r"
    using parseRequest_labels [of "splitDomainName L" "qQName q", OF assms(3)] by simp
  have fields: "\<not> rrIsAdHoc ?r" "rrCluster ?r = c" "rrHostname ?r = h" "rrService ?r = s"
    "rrNamespace ?r = n" by (simp_all add: zero_request_def)
  have found: "getGlobalRecords f q ?r w = (chooseRecords f q ?r gs, w1)"
    using assms(4-7) fields by (simp add: getGlobalRecords_def del: name_request.simps)
  have chosen: "chooseRecords f q ?r gs =
    (if gsType (gsSpec gs) \<noteq> Headless then Inl errInvalidRequest
     else if \<exists>e \<in> set (endpoints_of gs). epCluster e = c \<and> epHostname e = Some h
     then Inr (records_of f q (\<lambda>e. epCluster e = c \<and> epHostname e = Some h) (endpoints_of gs))
     else Inl errNoItems)"
    by (rule chooseRecords_headless [OF fields(2) assms(4), unfolded fields(3)])
  show ?thesis
    using coredns_laws.ServeDNS_accepted [OF assms(1,2), of w ms]
    unfolding parse sum.case if_not_P [OF fields(1)] found chosen by auto
qed

theorem serve_headless_endpoint_witness:
  "ServeDNS std_dns demo_dns (demo_query ''mysql-0.chaoyang.nginx.default.svc.global.'' TypeA)
       (demo_store Headless, [])
     = Returned ((RcodeSuccess, None), demo_store Headless,
         [reply_with (std_dns :: memory coredns) (demo_query ''mysql-0.chaoyang.nginx.default.svc.global.'' TypeA)
            [demo_A ''mysql-0.chaoyang.nginx.default.svc.global.'' [10, 233, 38, 92]]])"
proof -
  let ?q = "demo_query ''mysql-0.chaoyang.nginx.default.svc.global.'' TypeA"
  have acc: "accepted std_dns demo_dns ?q" by code_simp
  have split: "splitDomainName std_dns (qQName ?q) =
      name_labels ''global'' (HostName ''mysql-0'' ''chaoyang'' ''nginx'' ''default'')" by code_simp
  have get: "kGetGS (Client demo_dns) (ObjectKey ''default'' ''nginx'') (demo_store Headless)
      = (Inr (the (mem_objs (demo_store Headless) nginx_key)), demo_store Headless)" by code_simp
  have obj: "endpoints_of (the (mem_objs (demo_store Headless) nginx_key)) = demo_endpoints"
    "gsType (gsSpec (the (mem_objs (demo_store Headless) nginx_key))) = Headless" by code_simp+
  have here: "\<exists>e \<in> set demo_endpoints. epCluster e = ''chaoyang'' \<and> epHostname e = Some ''mysql-0''"
    by code_simp
  have rec: "records_of demo_dns ?q (\<lambda>e. epCluster e = ''chaoyang'' \<and> epHostname e = Some ''mysql-0'') demo_endpoints
      = [demo_A ''mysql-0.chaoyang.nginx.default.svc.global.'' [10, 233, 38, 92]]"
    by (simp add: demo_eval ip_eval)
  show ?thesis
    using serve_headless_endpoint [OF std.coredns_laws_axioms acc split _ _ _ get, of "[]"] here rec
    unfolding obj by simp
qed

text \<open>
  A query for the service of one cluster, in the documented or the
  deprecated format, is answered with the records of exactly that cluster's endpoints; when it
  has none the answer is empty and still a success.
\<close>

theorem serve_cluster_service:
  assumes "coredns_laws L" and "accepted L f q"
    and "splitDomainName L (qQName q) = name_labels z (ClusterName c s n) \<or>
         splitDomainName L (qQName q) = name_labels z (LegacyName s n c) \<and> c \<noteq> LabelSVC"
    and "kGetGS (Client f) (ObjectKey n s) w = (Inr gs, w1)"
  shows "ServeDNS L f q (w, ms) = Returned ((RcodeSuccess, None), w1, ms @ [reply_with L q
    (records_of f q (\<lambda>e. epCluster e = c) (endpoints_of gs))])"
  by (simp add: coredns_laws.ServeDNS_cluster_service [OF assms])

theorem serve_cluster_service_witness:
  "ServeDNS std_dns demo_dns (demo_query ''pudong.nginx.default.svc.global.'' TypeAAAA)
       (demo_store ClusterIP, [])
     = Returned ((RcodeSuccess, None), demo_store ClusterIP,
         [reply_with (std_dns :: memory coredns)
            (demo_query ''pudong.nginx.default.svc.global.'' TypeAAAA) []])"
proof -
  let ?q = "demo_query ''pudong.nginx.default.svc.global.'' TypeAAAA"
  have acc: "accepted std_dns demo_dns ?q" by code_simp
  have split: "splitDomainName std_dns (qQName ?q)
        = name_labels ''global'' (ClusterName ''pudong'' ''nginx'' ''default'') \<or>
      splitDomainName std_dns (qQName ?q)
        = name_labels ''global'' (LegacyName ''nginx'' ''default'' ''pudong'') \<and> ''pudong'' \<noteq> LabelSVC"
    by code_simp
  have get: "kGetGS (Client demo_dns) (ObjectKey ''default'' ''nginx'') (demo_store ClusterIP)
      = (Inr (the (mem_objs (demo_store ClusterIP) nginx_key)), demo_store ClusterIP)" by code_simp
  have obj: "endpoints_of (the (mem_objs (demo_store ClusterIP) nginx_key)) = demo_endpoints"
    by code_simp
  have rec: "records_of demo_dns ?q (\<lambda>e. epCluster e = ''pudong'') demo_endpoints = []"
    by (simp add: demo_eval ip_eval)
  show ?thesis
    using serve_cluster_service [OF std.coredns_laws_axioms acc split get, of "[]"] rec
    unfolding obj by simp
qed

text \<open>
  The answer for an existing global service is empty only when
  none of its endpoints has an address of the queried family.
\<close>

theorem serve_service_available:
  assumes "rrCluster r = []" and "chooseRecords f q r gs = Inr rs"
  shows "rs = [] \<longleftrightarrow> (\<forall>e \<in> set (endpoints_of gs). generateRecords f q e = [])"
proof -
  obtain k where k: "k \<le> 3" "rs = tier_records f q k (endpoints_of gs)"
    "\<forall>j < k. tier_records f q j (endpoints_of gs) = []"
    "k < 3 \<longrightarrow> tier_records f q k (endpoints_of gs) \<noteq> []"
    using chooseRecords_service [OF assms(1), of f q gs] assms(2) by auto
  have "generateRecords f q e = []" if empty: "rs = []" and e: "e \<in> set (endpoints_of gs)" for e
  proof -
    have "k = 3" using k(1,2,4) empty by (cases "k = 3") auto
    then have "tier_records f q (tier (Cluster f) e) (endpoints_of gs) = []"
      using k(2,3) empty tier_le [of "Cluster f" e] by (cases "tier (Cluster f) e = 3") auto
    then show ?thesis using e by (simp add: tier_records_def records_of_empty)
  qed
  then show ?thesis using k(2) by (auto simp: tier_records_def records_of_empty)
qed

theorem serve_service_available_witness:
  "chooseRecords demo_dns (demo_query ''nginx.default.svc.global.'' TypeA)
     (zero_request\<lparr>rrService := ''nginx'', rrNamespace := ''default''\<rparr>) beijing \<noteq> Inr []"
proof -
  let ?q = "demo_query ''nginx.default.svc.global.'' TypeA"
  let ?r = "zero_request\<lparr>rrService := ''nginx'', rrNamespace := ''default''\<rparr>"
  have some: "\<not> (\<forall>e \<in> set (endpoints_of beijing). generateRecords demo_dns ?q e = [])"
    by (simp add: demo_eval ip_eval beijing_def sample_service_def)
  show ?thesis
    using serve_service_available [of ?r demo_dns ?q beijing "[]"] some by (auto simp: zero_request_def)
qed

text \<open>
  C26 (serve_reply_discipline): without fallthrough the handler writes at most one message, an
  authoritative reply with the code it returns, whose records all belong to the query: its
  name and class, the configured TTL, an address of the queried family; error replies hold
  no record.  When it writes none it returns an error.
\<close>

theorem serve_reply_discipline:
  assumes "coredns_laws L" and "ServeDNS L f q (w, ms) = Returned ((rcode, err), w', ms')"
    and "\<not> fallThrough L (Fall f) (qName q)"
  shows "(ms' = ms \<and> err \<noteq> None \<and> rcode \<in> {RcodeNameError, RcodeServerFailure}) \<or>
    (\<exists>m. ms' = ms @ [m] \<and> msgRcode m = rcode \<and> msgAuthoritative m \<and>
      (\<forall>rr \<in> set (msgAnswer m). rr_ok f q rr) \<and> (rcode \<noteq> RcodeSuccess \<longrightarrow> msgAnswer m = []))"
  by (rule coredns_laws.ServeDNS_replies [OF assms])

theorem serve_reply_discipline_witness:
  "\<exists>m. snd (snd (ServeDNS_result (demo_query ''nginx.default.svc.global.'' 33))) = [m] \<and>
     msgRcode m = RcodeNotImplemented \<and> msgAnswer m = []"
proof -
  let ?q = "demo_query ''nginx.default.svc.global.'' 33"
  have run: "ServeDNS std_dns demo_dns ?q (demo_store ClusterIP, []) =
      Returned ((RcodeNotImplemented, snd (fst (ServeDNS_result ?q))),
        fst (snd (ServeDNS_result ?q)), snd (snd (ServeDNS_result ?q)))"
    by code_simp
  have "\<not> fallThrough std_dns (Fall demo_dns) (qName ?q)" by code_simp
  from serve_reply_discipline [OF std.coredns_laws_axioms run this] show ?thesis
    by (auto simp: rcodes)
qed

text \<open>
  When the name does not parse, the handler returns a name error
  without writing a reply, and without asking the next plugin even where fallthrough is
  configured for the name, unlike every other name error.
\<close>

theorem serve_unparsed_unanswered:
  assumes "coredns_laws L" and "accepted L f q" and "length (splitDomainName L (qQName q)) \<notin> {4, 5, 6}"
  shows "ServeDNS L f q st = Returned ((RcodeNameError, Some errInvalidRequest), st)"
proof -
  have "parseRequest (splitDomainName L) (qQName q) = Inl errInvalidRequest"
    using assms(3) by (simp add: parseRequest_error_iff)
  then show ?thesis
    using coredns_laws.ServeDNS_accepted [OF assms(1,2), of "fst st" "snd st"] by simp
qed

theorem serve_unparsed_unanswered_witness:
  "ServeDNS std_dns (demo_dns\<lparr>Fall := [''.'']\<rparr>) (demo_query ''nginx.global.'' TypeA) (demo_store ClusterIP, [])
     = Returned ((RcodeNameError, Some errInvalidRequest), demo_store ClusterIP, [])"
proof -
  let ?q = "demo_query ''nginx.global.'' TypeA"
  have "accepted std_dns (demo_dns\<lparr>Fall := [''.'']\<rparr>) ?q"
    and "length (splitDomainName std_dns (qQName ?q)) \<notin> {4, 5, 6}" by code_simp+
  from serve_unparsed_unanswered [OF std.coredns_laws_axioms this] show ?thesis .
qed

text \<open>
  A service that does not exist is a name error, any other failure of the
  API is a server failure reported to CoreDNS with no reply written, and no query panics.
\<close>

theorem serve_api_failure:
  assumes "coredns_laws L" and "accepted L f q"
    and "splitDomainName L (qQName q) = name_labels z (ServiceName s n)" and "s \<noteq> []" and "n \<noteq> []"
    and "kGetGS (Client f) (ObjectKey n s) w = (Inl e, w1)" and "e \<noteq> errNoItems" and "e \<noteq> errInvalidRequest"
  shows "ServeDNS L f q (w, ms) = Returned
    (if IsNotFound e then nextOrFailure L f q RcodeNameError errNoItems (w1, ms)
     else ((RcodeServerFailure, pluginError L PluginName (Some e)), w1, ms)) \<and>
    (\<forall>q st. ServeDNS L f q st \<noteq> Panicked)"
proof
  let ?r = "name_request (ServiceName s n)"
  have parse: "parseRequest (splitDomainName L) (qQName q) = Inr ?r"
    using parseRequest_labels [of "splitDomainName L" "qQName q", OF assms(3)] by simp
  have "getGlobalRecords f q ?r w = (Inl (if IsNotFound e then errNoItems else e), w1)"
    and "\<not> rrIsAdHoc ?r"
    using assms(4-6) by (simp_all add: getGlobalRecords_def zero_request_def)
  then show "ServeDNS L f q (w, ms) = Returned
    (if IsNotFound e then nextOrFailure L f q RcodeNameError errNoItems (w1, ms)
     else ((RcodeServerFailure, pluginError L PluginName (Some e)), w1, ms))"
    using coredns_laws.ServeDNS_accepted [OF assms(1,2), of w ms] assms(7,8)
    by (simp add: parse del: name_request.simps)
  show "\<forall>q st. ServeDNS L f q st \<noteq> Panicked"
    using coredns_laws.ServeDNS_no_panic [OF assms(1)] by blast
qed

theorem serve_api_failure_witness:
  "ServeDNS std_dns demo_dns (demo_query ''nginx.default.svc.global.'' TypeA)
       ((demo_store ClusterIP)\<lparr>memFaults := [Some ''timeout'']\<rparr>, [])
     = Returned ((RcodeServerFailure, Some (TextError ''plugin/fabdns: timeout'')), demo_store ClusterIP, [])"
proof -
  let ?q = "demo_query ''nginx.default.svc.global.'' TypeA"
  let ?w = "(demo_store ClusterIP)\<lparr>memFaults := [Some ''timeout'']\<rparr>"
  have acc: "accepted std_dns demo_dns ?q" by code_simp
  have split: "splitDomainName std_dns (qQName ?q) = name_labels ''global'' (ServiceName ''nginx'' ''default'')"
    by code_simp
  have get: "kGetGS (Client demo_dns) (ObjectKey ''default'' ''nginx'') ?w
      = (Inl (StatusError ReasonUnknown ''timeout''), demo_store ClusterIP)" by code_simp
  have wrap: "pluginError std_dns PluginName (Some (StatusError ReasonUnknown ''timeout''))
      = Some (TextError ''plugin/fabdns: timeout'')" by (simp add: std_dns_def PluginName_def)
  show ?thesis
    using serve_api_failure [OF std.coredns_laws_axioms acc split _ _ get, of "[]"] wrap by simp
qed

end
