(* ===== verification/FabDnsSetup.thy ===== *)
theory FabDnsSetup
  imports FabDns
begin

text \<open>
  \<open>pkg/fabdns/setup.go\<close>: how the plugin comes out of its block in the Corefile.  The caddy
  controller hands the block over token by token; every branch of the loop reads its line to the
  end, so the block is the list of its lines here, each with its first token and the rest.  What
  the code calls of caddy, CoreDNS and client-go is the record \<open>setup_lib\<close>.
\<close>

section \<open>Numbers\<close>

text \<open>\<open>strconv.Atoi\<close> for the 64-bit \<open>int\<close>: an optional sign and decimal digits.\<close>

fun dec_value :: "nat \<Rightarrow> string \<Rightarrow> nat option" where
  "dec_value n [] = Some n"
| "dec_value n (c # cs) = (case dec_digit c of None \<Rightarrow> None | Some d \<Rightarrow> dec_value (10 * n + d) cs)"

definition syntax_error :: "string \<Rightarrow> go_error" where
  "syntax_error s = TextError (''strconv.Atoi: parsing '' @ s @ '': invalid syntax'')"

definition range_error :: "string \<Rightarrow> go_error" where
  "range_error s = TextError (''strconv.Atoi: parsing '' @ s @ '': value out of range'')"

definition Atoi :: "string \<Rightarrow> go_error + int" where
  "Atoi s =
     (let (neg, digits) = (case s of
            [] \<Rightarrow> (False, [])
          | c # cs \<Rightarrow> if c = CHR ''-'' then (True, cs) else if c = CHR ''+'' then (False, cs) else (False, s))
      in if digits = [] then Inl (syntax_error s)
         else case dec_value 0 digits of
           None \<Rightarrow> Inl (syntax_error s)
         | Some n \<Rightarrow>
             (let i = (if neg then - int n else int n)
              in if - (2 ^ 63) \<le> i \<and> i < 2 ^ 63 then Inr i else Inl (range_error s)))"

definition show_int :: "int \<Rightarrow> string" where
  "show_int i = (if i < 0 then CHR ''-'' # show_nat (nat (- i)) else show_nat (nat i))"

section \<open>The block\<close>

type_synonym corefile_line = "string \<times> string list"

record corefile =
  cfArgs :: "string list"
  cfServerBlockKeys :: "string list"
  cfLines :: "corefile_line list"

text \<open>
  \<open>ArgErr\<close> and \<open>Errf\<close> of the controller, \<open>plugin.OriginsFromArgsOrServerBlock\<close>,
  \<open>fall.F.SetZonesFromArgs\<close>, \<open>clientcmd.BuildConfigFromFlags\<close> and \<open>client.New\<close>.
\<close>

record 'w setup_lib =
  slArgErr :: "corefile_line \<Rightarrow> go_error"
  slErrf :: "corefile_line \<Rightarrow> string \<Rightarrow> go_error"
  slOrigins :: "string list \<Rightarrow> string list \<Rightarrow> string list"
  slSetZones :: "string list \<Rightarrow> string list"
  slBuildConfig :: "string \<Rightarrow> string \<Rightarrow> go_error + string"
  slNewClient :: "string \<Rightarrow> go_error + 'w kube"

text \<open>The variables of \<open>fabdnsParse\<close>.\<close>

record settings =
  stTTL :: int
  stFall :: "string list"
  stMasterurl :: string
  stKubeconfig :: string
  stCluster :: string
  stZone :: string
  stRegion :: string

definition initial_settings :: settings where
  "initial_settings = \<lparr>stTTL = -1, stFall = [], stMasterurl = '''', stKubeconfig = '''',
     stCluster = '''', stZone = '''', stRegion = ''''\<rparr>"

definition one_arg :: "'w setup_lib \<Rightarrow> corefile_line \<Rightarrow> (string \<Rightarrow> go_error + settings) \<Rightarrow> go_error + settings" where
  "one_arg L line f = (case snd line of [arg] \<Rightarrow> f arg | _ \<Rightarrow> Inl (slArgErr L line))"

definition parse_ttl :: "'w setup_lib \<Rightarrow> corefile_line \<Rightarrow> settings \<Rightarrow> string \<Rightarrow> go_error + settings" where
  "parse_ttl L line st arg =
     (case Atoi arg of
        Inl e \<Rightarrow> Inl (slErrf L line (''ttl '' @ error_text e))
      | Inr ttl \<Rightarrow>
          if ttl < 0 \<or> ttl > 3600
          then Inl (slErrf L line (''ttl '' @ show_int ttl @
            '' is out of range [0, 3600], default ttl is '' @ show_int defaultTTL @ '' if not configured''))
          else Inr (st\<lparr>stTTL := ttl\<rparr>))"

definition parse_line :: "'w setup_lib \<Rightarrow> corefile_line \<Rightarrow> settings \<Rightarrow> go_error + settings" where
  "parse_line L line st =
     (let val = fst line
      in if val = ''fallthrough'' then Inr (st\<lparr>stFall := slSetZones L (snd line)\<rparr>)
         else if val = ''kubeconfig'' then one_arg L line (\<lambda>a. Inr (st\<lparr>stKubeconfig := a\<rparr>))
         else if val = ''masterurl'' then one_arg L line (\<lambda>a. Inr (st\<lparr>stMasterurl := a\<rparr>))
         else if val = ''cluster'' then one_arg L line (\<lambda>a. Inr (st\<lparr>stCluster := a\<rparr>))
         else if val = ''zone'' then one_arg L line (\<lambda>a. Inr (st\<lparr>stZone := a\<rparr>))
         else if val = ''region'' then one_arg L line (\<lambda>a. Inr (st\<lparr>stRegion := a\<rparr>))
         else if val = ''ttl'' then one_arg L line (parse_ttl L line st)
         else Inl (slErrf L line (''unknown property '' @ val)))"

fun parse_lines :: "'w setup_lib \<Rightarrow> corefile_line list \<Rightarrow> settings \<Rightarrow> go_error + settings" where
  "parse_lines L [] st = Inr st"
| "parse_lines L (line # ls) st =
     (case parse_line L line st of Inl e \<Rightarrow> Inl e | Inr st1 \<Rightarrow> parse_lines L ls st1)"

definition fabdnsParse :: "'w setup_lib \<Rightarrow> corefile \<Rightarrow> go_error + 'w FabDNS" where
  "fabdnsParse L c =
     (let zones = slOrigins L (cfArgs c) (cfServerBlockKeys c)
      in case parse_lines L (cfLines c) initial_settings of
           Inl e \<Rightarrow> Inl e
         | Inr st \<Rightarrow>
             (let ttl = (if stTTL st < 0 then defaultTTL else stTTL st)
              in case slBuildConfig L (stMasterurl st) (stKubeconfig st) of
                   Inl e \<Rightarrow> Inl e
                 | Inr cfg \<Rightarrow>
                     (case slNewClient L cfg of
                        Inl e \<Rightarrow> Inl e
                      | Inr cli \<Rightarrow> Inr
                          \<lparr>Zones = zones, Fall = stFall st, TTL = word_of_int ttl, Client = cli,
                           Cluster = \<lparr>ciName = stCluster st, ciZone = stZone st, ciRegion = stRegion st\<rparr>\<rparr>)))"

text \<open>\<open>setup\<close> adds the plugin to those of the server; \<open>pluginError\<close> is \<open>plugin.Error\<close>.\<close>

definition fabdns_setup ::
  "'w coredns \<Rightarrow> 'w setup_lib \<Rightarrow> corefile \<Rightarrow> 'w FabDNS list \<Rightarrow> go_error option \<times> 'w FabDNS list" where
  "fabdns_setup D L c plugins =
     (case fabdnsParse L c of
        Inl e \<Rightarrow> (pluginError D PluginName (Some e), plugins)
      | Inr f \<Rightarrow> (None, plugins @ [f]))"

section \<open>What a block means\<close>

text \<open>A line the plugin accepts, and the value of a key: that of its last line, or a default.\<close>

definition ttl_ok :: "string \<Rightarrow> bool" where
  "ttl_ok a \<longleftrightarrow> (case Atoi a of Inl _ \<Rightarrow> False | Inr i \<Rightarrow> 0 \<le> i \<and> i \<le> 3600)"

definition line_ok :: "corefile_line \<Rightarrow> bool" where
  "line_ok line \<longleftrightarrow> fst line = ''fallthrough'' \<or>
     length (snd line) = 1 \<and>
       (fst line \<in> {''kubeconfig'', ''masterurl'', ''cluster'', ''zone'', ''region''} \<or>
        fst line = ''ttl'' \<and> ttl_ok (hd (snd line)))"

definition setting :: "string \<Rightarrow> (string list \<Rightarrow> 'a) \<Rightarrow> 'a \<Rightarrow> corefile_line list \<Rightarrow> 'a" where
  "setting key g d ls = fold (\<lambda>line v. if fst line = key then g (snd line) else v) ls d"

lemma setting_simps [simp]:
  "setting key g d [] = d"
  "setting key g d ((v, args) # ls) = setting key g (if v = key then g args else d) ls"
  by (simp_all add: setting_def)

definition line_update :: "'w setup_lib \<Rightarrow> corefile_line \<Rightarrow> settings \<Rightarrow> settings" where
  "line_update L line st =
     \<lparr>stTTL = if fst line = ''ttl'' then projr (Atoi (hd (snd line))) else stTTL st,
      stFall = if fst line = ''fallthrough'' then slSetZones L (snd line) else stFall st,
      stMasterurl = if fst line = ''masterurl'' then hd (snd line) else stMasterurl st,
      stKubeconfig = if fst line = ''kubeconfig'' then hd (snd line) else stKubeconfig st,
      stCluster = if fst line = ''cluster'' then hd (snd line) else stCluster st,
      stZone = if fst line = ''zone'' then hd (snd line) else stZone st,
      stRegion = if fst line = ''region'' then hd (snd line) else stRegion st\<rparr>"

lemma one_arg_iff:
  "one_arg L line f = Inr st \<longleftrightarrow> length (snd line) = 1 \<and> f (hd (snd line)) = Inr st"
  by (auto simp: one_arg_def length_Suc_conv split: list.split)

lemma parse_ttl_iff: "parse_ttl L line st a = Inr st' \<longleftrightarrow> ttl_ok a \<and> st' = st\<lparr>stTTL := projr (Atoi a)\<rparr>"
  by (auto simp: parse_ttl_def ttl_ok_def split: sum.split)

lemmas line_defs = parse_line_def line_ok_def line_update_def one_arg_iff parse_ttl_iff Let_def

lemma parse_line_iff: "parse_line L line st = Inr st' \<longleftrightarrow> line_ok line \<and> st' = line_update L line st"
proof -
  let ?goal = "parse_line L line st = Inr st' \<longleftrightarrow> line_ok line \<and> st' = line_update L line st"
  let ?keys = "[''fallthrough'', ''kubeconfig'', ''masterurl'', ''cluster'', ''zone'', ''region'', ''ttl'']"
  have known: "list_all (\<lambda>key. fst line = key \<longrightarrow> ?goal) ?keys"
    by (cases st) (simp add: line_defs, intro conjI impI; blast)
  show ?goal
  proof (cases "fst line \<in> set ?keys")
    case True
    then show ?thesis using known [unfolded list_all_iff, THEN bspec] by simp
  next
    case False
    then show ?thesis by (simp add: parse_line_def line_ok_def)
  qed
qed

lemma parse_lines_iff:
  "parse_lines L ls st = Inr st' \<longleftrightarrow> list_all line_ok ls \<and> st' = fold (line_update L) ls st"
proof (induction ls arbitrary: st)
  case (Cons line ls)
  show ?case
  proof (cases "parse_line L line st")
    case (Inl e)
    then have "\<not> line_ok line" using parse_line_iff [of L line st "line_update L line st"] by auto
    then show ?thesis using Inl by simp
  next
    case (Inr st1)
    then have "line_ok line" "st1 = line_update L line st" by (simp_all add: parse_line_iff)
    then show ?thesis using Inr Cons.IH by simp
  qed
qed auto

lemma fold_line_update:
  "fold (line_update L) ls st =
     \<lparr>stTTL = setting ''ttl'' (\<lambda>as. projr (Atoi (hd as))) (stTTL st) ls,
      stFall = setting ''fallthrough'' (slSetZones L) (stFall st) ls,
      stMasterurl = setting ''masterurl'' hd (stMasterurl st) ls,
      stKubeconfig = setting ''kubeconfig'' hd (stKubeconfig st) ls,
      stCluster = setting ''cluster'' hd (stCluster st) ls,
      stZone = setting ''zone'' hd (stZone st) ls,
      stRegion = setting ''region'' hd (stRegion st) ls\<rparr>"
  by (induction ls arbitrary: st) (auto simp: line_update_def)


definition plugin_of :: "'w setup_lib \<Rightarrow> corefile \<Rightarrow> 'w kube \<Rightarrow> 'w FabDNS" where
  "plugin_of L c cli =
     \<lparr>Zones = slOrigins L (cfArgs c) (cfServerBlockKeys c),
      Fall = setting ''fallthrough'' (slSetZones L) [] (cfLines c),
      TTL = word_of_int (setting ''ttl'' (\<lambda>as. projr (Atoi (hd as))) 5 (cfLines c)),
      Client = cli,
      Cluster = \<lparr>ciName = setting ''cluster'' hd [] (cfLines c), ciZone = setting ''zone'' hd [] (cfLines c),
        ciRegion = setting ''region'' hd [] (cfLines c)\<rparr>\<rparr>"

lemma ttl_setting:
  assumes "list_all line_ok ls" and "0 \<le> d" and "d \<le> 3600"
  shows "setting ''ttl'' (\<lambda>as. projr (Atoi (hd as))) d ls \<in> {0..3600}"
  using assms
proof (induction ls arbitrary: d)
  case (Cons line ls)
  obtain v args where line: "line = (v, args)" by force
  let ?d = "if v = ''ttl'' then projr (Atoi (hd args)) else d"
  have "ttl_ok (hd args)" if "v = ''ttl''" using Cons.prems(1) that by (simp add: line line_ok_def)
  then have "v = ''ttl'' \<longrightarrow> 0 \<le> projr (Atoi (hd args)) \<and> projr (Atoi (hd args)) \<le> 3600"
    by (auto simp: ttl_ok_def split: sum.splits)
  then have "0 \<le> ?d" "?d \<le> 3600" using Cons.prems(2,3) by presburger+
  moreover have "list_all line_ok ls" using Cons.prems(1) by simp
  ultimately have "setting ''ttl'' (\<lambda>as. projr (Atoi (hd as))) ?d ls \<in> {0..3600}"
    using Cons.IH by blast
  then show ?case by (simp only: line setting_simps)
qed simp

text \<open>The default is -1 until the end of the loop, and a line cannot set a negative value.\<close>

lemma setting_default:
  "setting key g d ls = d \<and> setting key g d' ls = d' \<or> setting key g d ls = setting key g d' ls"
proof (induction ls arbitrary: d d')
  case (Cons line ls)
  then show ?case by (cases line) simp
qed simp

lemma ttl_default:
  assumes "list_all line_ok ls"
  shows "(if setting ''ttl'' (\<lambda>as. projr (Atoi (hd as))) (-1) ls < 0 then defaultTTL
      else setting ''ttl'' (\<lambda>as. projr (Atoi (hd as))) (-1) ls) = setting ''ttl'' (\<lambda>as. projr (Atoi (hd as))) 5 ls"
  using setting_default [of "''ttl''" "\<lambda>as. projr (Atoi (hd as))" "-1" ls 5] ttl_setting [OF assms, of 5]
  by (auto simp: defaultTTL_def)

lemma fabdnsParse_cases:
  "fabdnsParse L c =
     (case parse_lines L (cfLines c) initial_settings of
        Inl e \<Rightarrow> Inl e
      | Inr _ \<Rightarrow>
          (case slBuildConfig L (setting ''masterurl'' hd [] (cfLines c)) (setting ''kubeconfig'' hd [] (cfLines c)) of
             Inl e \<Rightarrow> Inl e
           | Inr cfg \<Rightarrow> (case slNewClient L cfg of Inl e \<Rightarrow> Inl e | Inr cli \<Rightarrow> Inr (plugin_of L c cli))))"
proof (cases "parse_lines L (cfLines c) initial_settings")
  case (Inr st)
  then have ok: "list_all line_ok (cfLines c)" and "st = fold (line_update L) (cfLines c) initial_settings"
    by (simp_all add: parse_lines_iff)
  then show ?thesis
    using Inr ttl_default [OF ok]
    by (simp add: fabdnsParse_def fold_line_update initial_settings_def plugin_of_def Let_def
        cong: if_cong split: sum.split)
qed (simp add: fabdnsParse_def)

text \<open>
  C24 (setup_functional): which blocks are accepted and what becomes of them.  Every line must be one
  the plugin knows, with its single argument; of several lines with one key the last one counts;
  the client is made from the API server and kubeconfig of the block.
\<close>

theorem setup_functional:
  "fabdnsParse L c = Inr f \<longleftrightarrow>
     list_all line_ok (cfLines c) \<and>
     (\<exists>cfg cli. slBuildConfig L (setting ''masterurl'' hd [] (cfLines c)) (setting ''kubeconfig'' hd [] (cfLines c))
           = Inr cfg \<and> slNewClient L cfg = Inr cli \<and> f = plugin_of L c cli)"
proof (cases "parse_lines L (cfLines c) initial_settings")
  case (Inl e)
  then have "\<not> list_all line_ok (cfLines c)"
    using parse_lines_iff [of L "cfLines c" initial_settings "fold (line_update L) (cfLines c) initial_settings"] by auto
  then show ?thesis using Inl by (simp add: fabdnsParse_cases)
next
  case (Inr st)
  then have "list_all line_ok (cfLines c)" by (simp add: parse_lines_iff)
  then show ?thesis using Inr by (auto simp: fabdnsParse_cases split: sum.splits)
qed

text \<open>
  C39 (setup_ttl_bounds): the TTL of the answers is a number of seconds of at most an hour: the
  conversion to 32 bits does not wrap, and without a line for it the TTL is five seconds.
\<close>

theorem setup_ttl_bounds:
  assumes "fabdnsParse L c = Inr f"
  shows "uint (TTL f) \<le> 3600 \<and>
    uint (TTL f) = setting ''ttl'' (\<lambda>as. projr (Atoi (hd as))) 5 (cfLines c)"
proof -
  let ?ttl = "setting ''ttl'' (\<lambda>as. projr (Atoi (hd as))) 5 (cfLines c)"
  have "TTL f = word_of_int ?ttl"
    using assms by (auto simp: fabdnsParse_cases plugin_of_def split: sum.splits)
  moreover obtain st where "parse_lines L (cfLines c) initial_settings = Inr st"
    using assms by (auto simp: fabdnsParse_cases split: sum.splits)
  then have "?ttl \<in> {0..3600}" by (intro ttl_setting) (simp_all add: parse_lines_iff)
  ultimately show ?thesis by (simp add: uint_word_of_int)
qed

text \<open>The plugin block of the user guide.\<close>

definition demo_setup :: "memory setup_lib" where
  "demo_setup =
     \<lparr>slArgErr = (\<lambda>line. TextError (''wrong argument count after '' @ fst line)), slErrf = (\<lambda>_. TextError),
      slOrigins = (\<lambda>args keys. if args = [] then keys else args),
      slSetZones = (\<lambda>args. if args = [] then [''.''] else args),
      slBuildConfig = (\<lambda>url path. Inr url), slNewClient = (\<lambda>_. Inr mem_kube)\<rparr>"

definition guide_block :: corefile where
  "guide_block = \<lparr>cfArgs = [''global''], cfServerBlockKeys = [''.:53''],
     cfLines = [(''masterurl'', [''https://10.20.8.24:6443'']), (''kubeconfig'', [''/root/.kube/config'']),
       (''cluster'', [''fabedge'']), (''zone'', [''beijing'']), (''region'', [''north'']),
       (''ttl'', [''30''])]\<rparr>"

lemma guide_settings:
  "setting ''ttl'' (\<lambda>as. projr (Atoi (hd as))) (5 :: int) (cfLines guide_block) = 30"
  by code_simp

theorem setup_ttl_bounds_witness:
  "\<exists>f. fabdnsParse demo_setup guide_block = Inr f \<and> uint (TTL f) = 30"
proof -
  have "list_all line_ok (cfLines guide_block)" by code_simp
  then have "parse_lines demo_setup (cfLines guide_block) initial_settings =
      Inr (fold (line_update demo_setup) (cfLines guide_block) initial_settings)"
    by (simp add: parse_lines_iff)
  then have "fabdnsParse demo_setup guide_block = Inr (plugin_of demo_setup guide_block mem_kube)"
    by (simp add: fabdnsParse_cases demo_setup_def)
  from this setup_ttl_bounds [OF this] guide_settings show ?thesis by simp
qed

end
