(* ===== verification/About.thy ===== *)
theory About
  imports Prelude
begin

text \<open>
  \<open>pkg/about/about.go\<close>: the flag \<open>version\<close> and what it makes the process print.  The three
  variables are set when the program is linked; the text goes to the standard output.
\<close>

record build_info =
  biVersion :: string
  biGitCommit :: string
  biBuildTime :: string

definition default_build :: build_info where
  "default_build = \<lparr>biVersion = ''0.0.0'', biGitCommit = ''00000000'', biBuildTime = ''1970-01-01T00:00:00Z''\<rparr>"

text \<open>\<open>AddFlags\<close> makes the pointer \<open>showVersion\<close> point to the default, until the flags are parsed.\<close>

definition about_AddFlags :: "bool option" where
  "about_AddFlags = Some False"

definition newline :: string where
  "newline = [char_of (10 :: nat)]"

definition DisplayVersion :: "build_info \<Rightarrow> string" where
  "DisplayVersion b =
     ''Version: '' @ biVersion b @ newline @ ''BuildTime: '' @ biBuildTime b @ newline @
     ''GitCommit: '' @ biGitCommit b @ newline"

text \<open>What is printed before the process exits with status 0, or nothing when the call returns.\<close>

definition DisplayAndExitIfRequested :: "build_info \<Rightarrow> bool option \<Rightarrow> string option outcome" where
  "DisplayAndExitIfRequested b showVersion =
     (case showVersion of
        None \<Rightarrow> Panicked
      | Some v \<Rightarrow> Returned (if v then Some (DisplayVersion b) else None))"

end
