(* ===== verification/GoRegexp.thy ===== *)
theory GoRegexp
  imports Prelude
begin

text \<open>
  What \<open>regexp.MatchString\<close> decides for the two patterns of \<open>options.go\<close>: regular expressions
  over characters, the language each stands for, and a matcher by derivatives that is proved to
  decide it.  An expression anchored at both ends has to match the whole text, any other a part
  of it.
\<close>

datatype regexp =
    Empty
  | Chars "char \<Rightarrow> bool"
  | Seq regexp regexp
  | Alt regexp regexp
  | Star regexp
  | Never

abbreviation Opt :: "regexp \<Rightarrow> regexp" where "Opt r \<equiv> Alt r Empty"
abbreviation Plus :: "regexp \<Rightarrow> regexp" where "Plus r \<equiv> Seq r (Star r)"

inductive_set star_lang :: "string set \<Rightarrow> string set" for L where
  none: "[] \<in> star_lang L"
| more: "x \<in> L \<Longrightarrow> y \<in> star_lang L \<Longrightarrow> x @ y \<in> star_lang L"

fun lang :: "regexp \<Rightarrow> string set" where
  "lang Empty = {[]}"
| "lang (Chars p) = {[c] | c. p c}"
| "lang (Seq r s) = {x @ y | x y. x \<in> lang r \<and> y \<in> lang s}"
| "lang (Alt r s) = lang r \<union> lang s"
| "lang (Star r) = star_lang (lang r)"
| "lang Never = {}"

fun nullable :: "regexp \<Rightarrow> bool" where
  "nullable Empty = True"
| "nullable (Chars p) = False"
| "nullable (Seq r s) = (nullable r \<and> nullable s)"
| "nullable (Alt r s) = (nullable r \<or> nullable s)"
| "nullable (Star r) = True"
| "nullable Never = False"

fun deriv :: "char \<Rightarrow> regexp \<Rightarrow> regexp" where
  "deriv c Empty = Never"
| "deriv c (Chars p) = (if p c then Empty else Never)"
| "deriv c (Seq r s) = (if nullable r then Alt (Seq (deriv c r) s) (deriv c s) else Seq (deriv c r) s)"
| "deriv c (Alt r s) = Alt (deriv c r) (deriv c s)"
| "deriv c (Star r) = Seq (deriv c r) (Star r)"
| "deriv c Never = Never"

definition matches :: "regexp \<Rightarrow> string \<Rightarrow> bool" where
  "matches r s \<longleftrightarrow> nullable (fold deriv s r)"

datatype pattern = Anchored regexp | Unanchored regexp

fun MatchString :: "pattern \<Rightarrow> string \<Rightarrow> bool" where
  "MatchString (Anchored r) s = matches r s"
| "MatchString (Unanchored r) s = matches (Seq (Star (Chars (\<lambda>_. True))) (Seq r (Star (Chars (\<lambda>_. True))))) s"

section \<open>The matcher decides the language\<close>

lemma nullable_lang: "nullable r \<longleftrightarrow> [] \<in> lang r"
  by (induction r) (auto intro: star_lang.none)

lemma star_lang_Cons:
  "c # s \<in> star_lang L \<longleftrightarrow> (\<exists>x y. s = x @ y \<and> c # x \<in> L \<and> y \<in> star_lang L)"
proof
  show "c # s \<in> star_lang L \<Longrightarrow> \<exists>x y. s = x @ y \<and> c # x \<in> L \<and> y \<in> star_lang L"
  proof (induction "c # s" arbitrary: s rule: star_lang.induct)
    case (more x y)
    then show ?case by (cases x) auto
  qed
next
  assume "\<exists>x y. s = x @ y \<and> c # x \<in> L \<and> y \<in> star_lang L"
  then obtain x y where "s = x @ y" "c # x \<in> L" "y \<in> star_lang L" by blast
  then show "c # s \<in> star_lang L" using star_lang.more [of "c # x" L y] by simp
qed

lemma deriv_lang: "s \<in> lang (deriv c r) \<longleftrightarrow> c # s \<in> lang r"
proof (induction r arbitrary: s)
  case (Seq r t)
  have "c # s \<in> lang (Seq r t) \<longleftrightarrow>
      (\<exists>x y. s = x @ y \<and> c # x \<in> lang r \<and> y \<in> lang t) \<or> ([] \<in> lang r \<and> c # s \<in> lang t)"
    by (auto simp: Cons_eq_append_conv)
  with Seq show ?case by (auto simp: nullable_lang)
next
  case (Star r)
  then show ?case by (auto simp: star_lang_Cons)
qed auto

theorem matches_lang: "matches r s \<longleftrightarrow> s \<in> lang r"
  unfolding matches_def
  by (induction s arbitrary: r) (simp_all add: nullable_lang deriv_lang)

lemma star_any: "s \<in> star_lang {[c] | c. True}"
proof (induction s)
  case (Cons c s)
  then show ?case using star_lang.more [of "[c]" _ s] by simp
qed (rule star_lang.none)

lemma MatchString_Unanchored:
  "MatchString (Unanchored r) s \<longleftrightarrow> (\<exists>x y z. s = x @ y @ z \<and> y \<in> lang r)"
proof -
  have "lang (Star (Chars (\<lambda>_. True))) = UNIV" using star_any by auto
  then show ?thesis by (auto simp: matches_lang)
qed

lemma star_chars: "s \<in> star_lang {[c] | c. p c} \<longleftrightarrow> list_all p s"
proof
  show "s \<in> star_lang {[c] | c. p c} \<Longrightarrow> list_all p s"
    by (induction rule: star_lang.induct) auto
  show "list_all p s \<Longrightarrow> s \<in> star_lang {[c] | c. p c}"
  proof (induction s)
    case (Cons c s)
    then show ?case using star_lang.more [of "[c]" "{[c] | c. p c}" s] by auto
  qed (rule star_lang.none)
qed

text \<open>Membership for the shapes the patterns have.\<close>

lemma lang_Star_Chars: "s \<in> lang (Star (Chars p)) \<longleftrightarrow> list_all p s"
  by (simp add: star_chars)

lemma lang_Chars_Seq: "s \<in> lang (Seq (Chars p) r) \<longleftrightarrow> (\<exists>c y. s = c # y \<and> p c \<and> y \<in> lang r)"
proof
  assume "s \<in> lang (Seq (Chars p) r)"
  then show "\<exists>c y. s = c # y \<and> p c \<and> y \<in> lang r" by auto
next
  assume "\<exists>c y. s = c # y \<and> p c \<and> y \<in> lang r"
  then obtain c y where "s = [c] @ y" "p c" "y \<in> lang r" by auto
  then show "s \<in> lang (Seq (Chars p) r)"
    unfolding lang.simps by blast
qed

lemma lang_Seq_Chars: "s \<in> lang (Seq r (Chars p)) \<longleftrightarrow> (\<exists>x c. s = x @ [c] \<and> x \<in> lang r \<and> p c)"
  by auto

lemma lang_Opt: "s \<in> lang (Opt r) \<longleftrightarrow> s = [] \<or> s \<in> lang r"
  by auto

lemmas lang_shapes = lang_Star_Chars lang_Chars_Seq lang_Seq_Chars lang_Opt

end
