(* ===== verification/ObjectKeySet.thy ===== *)
theory ObjectKeySet
  imports Apis
begin

text \<open>
  \<open>pkg/service-hub/types/objectkeyset.go\<close>: a set of object keys as a Go map to the empty struct.
  The interface is the locale \<open>key_set\<close>; its users (the cluster store, the exporter, the
  importer) reason with its laws.
\<close>

section \<open>Operations\<close>

type_synonym ObjectKeySet = "(ObjectKey, unit) gomap"

definition NewObjectKeySet :: ObjectKeySet where
  "NewObjectKeySet = []"

definition Add :: "ObjectKeySet \<Rightarrow> ObjectKey \<Rightarrow> ObjectKeySet" where
  "Add ks key = AList.update key () ks"

definition Delete :: "ObjectKeySet \<Rightarrow> ObjectKey \<Rightarrow> ObjectKeySet" where
  "Delete ks key = AList.delete key ks"

definition Has :: "ObjectKeySet \<Rightarrow> ObjectKey \<Rightarrow> bool" where
  "Has ks key = (case map_of ks key of None \<Rightarrow> False | Some _ \<Rightarrow> True)"

text \<open>The keys a \<open>range\<close> over the set visits, in an order of the runtime's choice.\<close>

definition range_keys :: "((ObjectKey \<times> unit) list \<Rightarrow> (ObjectKey \<times> unit) list) \<Rightarrow> ObjectKeySet \<Rightarrow> ObjectKey list" where
  "range_keys ord ks = map fst (ord ks)"

section \<open>The interface\<close>

locale key_set =
  fixes new :: 's
    and add :: "'s \<Rightarrow> 'k \<Rightarrow> 's"
    and del :: "'s \<Rightarrow> 'k \<Rightarrow> 's"
    and has :: "'s \<Rightarrow> 'k \<Rightarrow> bool"
    and valid :: "'s \<Rightarrow> bool"
  assumes valid_new: "valid new"
    and valid_add: "valid s \<Longrightarrow> valid (add s k)"
    and valid_del: "valid s \<Longrightarrow> valid (del s k)"
    and has_new: "\<not> has new k"
    and has_add: "has (add s k) k' \<longleftrightarrow> k' = k \<or> has s k'"
    and has_del: "has (del s k) k' \<longleftrightarrow> k' \<noteq> k \<and> has s k'"
begin

lemma has_add_all: "has (fold (\<lambda>x s. add s (f x)) xs s) k \<longleftrightarrow> k \<in> f ` set xs \<or> has s k"
  by (induction xs arbitrary: s) (auto simp: has_add)

lemma valid_add_all: "valid s \<Longrightarrow> valid (fold (\<lambda>x s. add s (f x)) xs s)"
  by (induction xs arbitrary: s) (auto simp: valid_add)

lemma has_collected: "has (fold (\<lambda>x s. add s (f x)) xs new) k \<longleftrightarrow> k \<in> f ` set xs"
  by (simp add: has_add_all has_new)

lemma Collect_add: "Collect (has (add s k)) = insert k (Collect (has s))"
  by (auto simp: has_add)

lemma Collect_del: "Collect (has (del s k)) = Collect (has s) - {k}"
  by (auto simp: has_del)

lemma add_del: "has s k \<Longrightarrow> has (add (del s k) k) = has s"
  by (auto simp: fun_eq_iff has_add has_del)

end

interpretation keys: key_set NewObjectKeySet Add Delete Has gm_wf
  by unfold_locales
    (auto simp: NewObjectKeySet_def Add_def Delete_def Has_def gomap split: option.splits)

lemma Has_iff: "Has ks k \<longleftrightarrow> k \<in> fst ` set ks"
  using map_of_eq_None_iff [of ks k] by (auto simp: Has_def split: option.splits)

lemma Collect_Has: "Collect (Has ks) = fst ` set ks"
  by (rule set_eqI) (simp add: Has_iff)

lemma set_range_keys: "range_order ord \<Longrightarrow> set (range_keys ord ks) = Collect (Has ks)"
  by (simp add: range_keys_def range_order_set Collect_Has)

lemma distinct_range_keys:
  assumes "range_order ord" and "gm_wf ks"
  shows "distinct (range_keys ord ks)"
proof -
  have "mset (range_keys ord ks) = mset (map fst ks)"
    using range_order_mset [OF assms(1)] by (simp add: range_keys_def)
  then show ?thesis using assms(2) unfolding gm_wf_def by (metis mset_eq_imp_distinct_iff)
qed

end
