(* ===== verification/ClusterStore.thy ===== *)
theory ClusterStore
  imports ObjectKeySet
begin

text \<open>
  \<open>pkg/service-hub/types/cluster.go\<close>: the clusters that report to the hub, each with the keys of
  its services and the time it expires.  The store hands out pointers, and a pointer outlives
  the entry it came from, so clusters live in a heap: a pointer is a \<open>nat\<close>, the store maps names
  to pointers, and the methods of \<open>Cluster\<close> work through a pointer.  Both kinds of locks make
  each method one step.  The contract of the store is the locale \<open>cluster_store\<close>, stated on the
  map from names to key sets and expiry times that it stands for.
\<close>

section \<open>Operations\<close>

text \<open>\<open>time.Time\<close>, in nanoseconds; 0 is the zero time, which no reading of a clock gives.\<close>

type_synonym time = int
type_synonym ptr = nat

record Cluster =
  clName :: string
  clServiceKeySet :: ObjectKeySet
  clExpireTime :: time

record ClusterStore =
  csClusters :: "(string, ptr) gomap"
  csHeap :: "ptr \<Rightarrow> Cluster option"
  csNext :: ptr

definition NewClusterStore :: ClusterStore where
  "NewClusterStore = \<lparr>csClusters = [], csHeap = (\<lambda>_. None), csNext = 0\<rparr>"

definition modify :: "ptr \<Rightarrow> (Cluster \<Rightarrow> Cluster) \<Rightarrow> ClusterStore \<Rightarrow> ClusterStore" where
  "modify p f s = s\<lparr>csHeap := (csHeap s)(p := map_option f (csHeap s p))\<rparr>"

text \<open>The methods of \<open>Cluster\<close>; no pointer that is handed out is outside the heap.\<close>

definition Name :: "ClusterStore \<Rightarrow> ptr \<Rightarrow> string" where
  "Name s p = (case csHeap s p of None \<Rightarrow> [] | Some c \<Rightarrow> clName c)"

definition ExpireTime :: "ClusterStore \<Rightarrow> ptr \<Rightarrow> time" where
  "ExpireTime s p = (case csHeap s p of None \<Rightarrow> 0 | Some c \<Rightarrow> clExpireTime c)"

definition SetExpireTime :: "ptr \<Rightarrow> time \<Rightarrow> ClusterStore \<Rightarrow> ClusterStore" where
  "SetExpireTime p t s = modify p (\<lambda>c. c\<lparr>clExpireTime := t\<rparr>) s"

definition IsExpired :: "time \<Rightarrow> ClusterStore \<Rightarrow> ptr \<Rightarrow> bool" where
  "IsExpired now s p \<longleftrightarrow> ExpireTime s p \<noteq> 0 \<and> ExpireTime s p < now"

definition GetAllServiceKeys ::
  "((ObjectKey \<times> unit) list \<Rightarrow> (ObjectKey \<times> unit) list) \<Rightarrow> ClusterStore \<Rightarrow> ptr \<Rightarrow> ObjectKey list" where
  "GetAllServiceKeys ord s p =
     (case csHeap s p of None \<Rightarrow> [] | Some c \<Rightarrow> range_keys ord (clServiceKeySet c))"

definition AddServiceKey :: "ptr \<Rightarrow> ObjectKey \<Rightarrow> ClusterStore \<Rightarrow> ClusterStore" where
  "AddServiceKey p key s = modify p (\<lambda>c. c\<lparr>clServiceKeySet := Add (clServiceKeySet c) key\<rparr>) s"

definition RemoveServiceKey :: "ptr \<Rightarrow> ObjectKey \<Rightarrow> ClusterStore \<Rightarrow> ClusterStore" where
  "RemoveServiceKey p key s = modify p (\<lambda>c. c\<lparr>clServiceKeySet := Delete (clServiceKeySet c) key\<rparr>) s"

text \<open>The methods of \<open>ClusterStore\<close>; \<open>Get\<close> gives the nil pointer, \<open>None\<close>, for an unknown name.\<close>

definition New :: "string \<Rightarrow> ClusterStore \<Rightarrow> ptr \<times> ClusterStore" where
  "New name s =
     (case map_of (csClusters s) name of
        Some p \<Rightarrow> (p, s)
      | None \<Rightarrow>
          (csNext s,
           s\<lparr>csClusters := AList.update name (csNext s) (csClusters s),
             csHeap := (csHeap s)(csNext s \<mapsto>
               \<lparr>clName = name, clServiceKeySet = NewObjectKeySet, clExpireTime = 0\<rparr>),
             csNext := Suc (csNext s)\<rparr>))"

definition Get :: "string \<Rightarrow> ClusterStore \<Rightarrow> ptr option" where
  "Get name s = map_of (csClusters s) name"

definition Remove :: "string \<Rightarrow> ClusterStore \<Rightarrow> ClusterStore" where
  "Remove name s = s\<lparr>csClusters := AList.delete name (csClusters s)\<rparr>"

definition RemoveClusters :: "string list \<Rightarrow> ClusterStore \<Rightarrow> ClusterStore" where
  "RemoveClusters names s =
     s\<lparr>csClusters := fold (\<lambda>name m. AList.delete name m) names (csClusters s)\<rparr>"

text \<open>
  \<open>GetExpiredClusters\<close> ranges over the map; \<open>now p\<close> is what \<open>time.Now()\<close> reads when it comes to
  the cluster at \<open>p\<close>.
\<close>

definition GetExpiredClusters ::
  "((string \<times> ptr) list \<Rightarrow> (string \<times> ptr) list) \<Rightarrow> (ptr \<Rightarrow> time) \<Rightarrow> ClusterStore \<Rightarrow> ptr list" where
  "GetExpiredClusters ord now s =
     filter (\<lambda>p. IsExpired (now p) s p) (map snd (ord (csClusters s)))"

section \<open>Invariant and abstraction\<close>

definition store_inv :: "ClusterStore \<Rightarrow> bool" where
  "store_inv s \<longleftrightarrow> gm_wf (csClusters s) \<and>
     (\<forall>n p. map_of (csClusters s) n = Some p \<longrightarrow> (\<exists>c. csHeap s p = Some c \<and> clName c = n)) \<and>
     (\<forall>p c. csHeap s p = Some c \<longrightarrow> p < csNext s \<and> gm_wf (clServiceKeySet c))"

text \<open>The pointer \<open>p\<close> is the store's cluster \<open>n\<close>.\<close>

definition points_to :: "ClusterStore \<Rightarrow> ptr \<Rightarrow> string \<Rightarrow> bool" where
  "points_to s p n \<longleftrightarrow> map_of (csClusters s) n = Some p"

definition registry :: "ClusterStore \<Rightarrow> string \<Rightarrow> (ObjectKey set \<times> time) option" where
  "registry s n =
     (case map_of (csClusters s) n of
        None \<Rightarrow> None
      | Some p \<Rightarrow> map_option (\<lambda>c. (Collect (Has (clServiceKeySet c)), clExpireTime c)) (csHeap s p))"

lemma store_inv_New_empty [simp]: "store_inv NewClusterStore"
  by (simp add: store_inv_def NewClusterStore_def)

lemma registry_empty [simp]: "registry NewClusterStore = (\<lambda>_. None)"
  by (simp add: registry_def NewClusterStore_def fun_eq_iff)

lemma store_inv_heap:
  assumes "store_inv s" and "map_of (csClusters s) n = Some p"
  obtains c where "csHeap s p = Some c" "clName c = n" "p < csNext s"
  using assms by (metis store_inv_def)

lemma points_to_unique:
  "store_inv s \<Longrightarrow> points_to s p n \<Longrightarrow> points_to s p n' \<Longrightarrow> n = n'"
  unfolding points_to_def by (metis store_inv_heap option.inject)

lemma registry_defined: "store_inv s \<Longrightarrow> registry s n = None \<longleftrightarrow> map_of (csClusters s) n = None"
  by (auto simp: registry_def split: option.splits elim: store_inv_heap)

lemma points_to_heap:
  assumes "store_inv s" and "points_to s p n"
  obtains c where "csHeap s p = Some c" "clName c = n"
    "registry s n = Some (Collect (Has (clServiceKeySet c)), clExpireTime c)"
  using assms by (auto simp: store_inv_def points_to_def registry_def)

lemma modify_fields [simp]:
  "csClusters (modify p f s) = csClusters s" "csNext (modify p f s) = csNext s"
  by (simp_all add: modify_def)

lemma points_to_modify [simp]: "points_to (modify p f s) q n = points_to s q n"
  by (simp add: points_to_def)

lemma store_inv_modify:
  assumes "store_inv s" and "\<And>c. clName (f c) = clName c"
    and "\<And>c. gm_wf (clServiceKeySet c) \<Longrightarrow> gm_wf (clServiceKeySet (f c))"
  shows "store_inv (modify p f s)"
  unfolding store_inv_def
proof (intro conjI allI impI)
  show "gm_wf (csClusters (modify p f s))"
    using assms(1) by (simp add: store_inv_def)
next
  fix n q
  assume "map_of (csClusters (modify p f s)) n = Some q"
  then have "map_of (csClusters s) n = Some q" by simp
  with assms(1) obtain c where "csHeap s q = Some c" "clName c = n" by (rule store_inv_heap)
  then show "\<exists>c. csHeap (modify p f s) q = Some c \<and> clName c = n"
    using assms(2) by (auto simp: modify_def)
next
  fix q c
  assume "csHeap (modify p f s) q = Some c"
  then show "q < csNext (modify p f s)" and "gm_wf (clServiceKeySet c)"
    using assms(1,3) by (auto simp: store_inv_def modify_def split: if_splits)
qed

text \<open>
  An update through a pointer is seen under the name that points there and under no other; a
  pointer the store no longer holds updates a cluster nobody finds.
\<close>

lemma registry_modify:
  assumes inv: "store_inv s" and p: "points_to s p n"
    and f: "\<And>c. (Collect (Has (clServiceKeySet (f c))), clExpireTime (f c)) =
      g (Collect (Has (clServiceKeySet c)), clExpireTime c)"
  shows "registry (modify p f s) = (registry s)(n := map_option g (registry s n))"
proof
  fix n'
  show "registry (modify p f s) n' = ((registry s)(n := map_option g (registry s n))) n'"
  proof (cases "n' = n")
    case True
    then show ?thesis using p f inv
      by (auto simp: registry_def modify_def points_to_def option.map_comp comp_def intro: option.map_cong)
  next
    case False
    then have "map_of (csClusters s) n' \<noteq> Some p"
      using points_to_unique [OF inv p, of n'] by (auto simp: points_to_def)
    then show ?thesis using False
      by (auto simp: registry_def modify_def split: option.splits)
  qed
qed

lemma registry_modify_dangling:
  "(\<And>n. \<not> points_to s p n) \<Longrightarrow> registry (modify p f s) = registry s"
  by (auto simp: registry_def modify_def points_to_def fun_eq_iff split: option.splits)

lemma store_inv_New: "store_inv s \<Longrightarrow> New n s = (p, s') \<Longrightarrow> store_inv s'"
  by (auto simp: New_def store_inv_def gomap NewObjectKeySet_def split: option.splits if_splits)
    fastforce+

lemma registry_New:
  assumes "store_inv s" and "New n s = (p, s')"
  shows "registry s' = (registry s)(n := Some (case registry s n of None \<Rightarrow> ({}, 0) | Some x \<Rightarrow> x))"
proof
  fix n'
  show "registry s' n' = ((registry s)(n := Some (case registry s n of None \<Rightarrow> ({}, 0) | Some x \<Rightarrow> x))) n'"
    using assms
    by (fastforce simp: New_def registry_def store_inv_def gomap NewObjectKeySet_def Has_def
        split: option.splits)
qed

lemma points_to_New: "New n s = (p, s') \<Longrightarrow> points_to s' p n"
  by (auto simp: New_def points_to_def gomap split: option.splits)

lemma points_to_New_mono: "New n s = (p, s') \<Longrightarrow> points_to s q m \<Longrightarrow> points_to s' q m"
  by (auto simp: New_def points_to_def gomap split: option.splits if_splits)

section \<open>The contract\<close>

text \<open>
  What the users of the store rely on: a name is registered at most once, a pointer got for a name
  stays the name's, and an update through it changes the entry of that name only.
\<close>

locale cluster_store =
  fixes new :: "string \<Rightarrow> 's \<Rightarrow> 'p \<times> 's"
    and get :: "string \<Rightarrow> 's \<Rightarrow> 'p option"
    and setExpire :: "'p \<Rightarrow> time \<Rightarrow> 's \<Rightarrow> 's"
    and addKey :: "'p \<Rightarrow> ObjectKey \<Rightarrow> 's \<Rightarrow> 's"
    and removeKey :: "'p \<Rightarrow> ObjectKey \<Rightarrow> 's \<Rightarrow> 's"
    and valid :: "'s \<Rightarrow> bool"
    and at :: "'s \<Rightarrow> 'p \<Rightarrow> string \<Rightarrow> bool"
    and entries :: "'s \<Rightarrow> string \<Rightarrow> (ObjectKey set \<times> time) option"
  assumes new_valid: "valid s \<Longrightarrow> new n s = (p, s') \<Longrightarrow> valid s'"
    and new_at: "new n s = (p, s') \<Longrightarrow> at s' p n"
    and new_entries: "valid s \<Longrightarrow> new n s = (p, s') \<Longrightarrow>
      entries s' = (entries s)(n := Some (case entries s n of None \<Rightarrow> ({}, 0) | Some x \<Rightarrow> x))"
    and get_None: "valid s \<Longrightarrow> get n s = None \<longleftrightarrow> entries s n = None"
    and get_at: "get n s = Some p \<Longrightarrow> at s p n"
    and update_valid: "valid s \<Longrightarrow> valid (setExpire p t s) \<and> valid (addKey p k s) \<and> valid (removeKey p k s)"
    and update_at: "at (setExpire p t s) q n = at s q n" "at (addKey p k s) q n = at s q n"
      "at (removeKey p k s) q n = at s q n"
    and setExpire_entries: "valid s \<Longrightarrow> at s p n \<Longrightarrow> entries (setExpire p t s) =
      (entries s)(n := map_option (\<lambda>(ks, _). (ks, t)) (entries s n))"
    and addKey_entries: "valid s \<Longrightarrow> at s p n \<Longrightarrow> entries (addKey p k s) =
      (entries s)(n := map_option (\<lambda>(ks, t). (insert k ks, t)) (entries s n))"
    and removeKey_entries: "valid s \<Longrightarrow> at s p n \<Longrightarrow> entries (removeKey p k s) =
      (entries s)(n := map_option (\<lambda>(ks, t). (ks - {k}, t)) (entries s n))"
begin

text \<open>The two compositions of the API server: refreshing a cluster and recording a service.\<close>

lemma refresh_entries:
  assumes "valid s" and "new n s = (p, s1)"
  shows "valid (setExpire p t s1)"
    and "entries (setExpire p t s1) = (entries s)(n \<mapsto>
      (case entries s n of None \<Rightarrow> {} | Some (ks, _) \<Rightarrow> ks, t))"
  using assms setExpire_entries [OF new_valid [OF assms] new_at [OF assms(2)]]
    new_entries [OF assms] update_valid [OF new_valid [OF assms]]
  by (auto split: option.splits)

lemma record_entries:
  assumes "valid s" and "new n s = (p, s1)"
  shows "valid (addKey p k s1)"
    and "entries (addKey p k s1) = (entries s)(n \<mapsto>
      (case entries s n of None \<Rightarrow> ({k}, 0) | Some (ks, t) \<Rightarrow> (insert k ks, t)))"
  using assms addKey_entries [OF new_valid [OF assms] new_at [OF assms(2)]]
    new_entries [OF assms] update_valid [OF new_valid [OF assms]]
  by (auto split: option.splits)

lemma forget_entries:
  assumes "valid s" and "get n s = Some p"
  shows "valid (removeKey p k s)"
    and "entries (removeKey p k s) =
      (entries s)(n := map_option (\<lambda>(ks, t). (ks - {k}, t)) (entries s n))"
  using assms removeKey_entries [OF assms(1) get_at [OF assms(2)]] update_valid by auto

end

lemmas cluster_updates = SetExpireTime_def AddServiceKey_def RemoveServiceKey_def

lemma store_inv_updates:
  assumes "store_inv s"
  shows "store_inv (SetExpireTime p t s) \<and> store_inv (AddServiceKey p k s) \<and>
    store_inv (RemoveServiceKey p k s)"
  unfolding cluster_updates
  by (intro conjI store_inv_modify [OF assms]) (auto intro: keys.valid_add keys.valid_del)

interpretation store: cluster_store
  New Get SetExpireTime AddServiceKey RemoveServiceKey store_inv points_to registry
proof unfold_locales
  fix s :: ClusterStore and p n t k
  assume inv: "store_inv s"
  show "(Get n s = None) = (registry s n = None)"
    using registry_defined [OF inv] by (simp add: Get_def)
  assume "points_to s p n"
  note upd = registry_modify [OF inv this]
  show "registry (SetExpireTime p t s) =
      (registry s)(n := map_option (\<lambda>(ks, _). (ks, t)) (registry s n))"
    unfolding SetExpireTime_def by (rule upd) simp
  show "registry (AddServiceKey p k s) =
      (registry s)(n := map_option (\<lambda>(ks, t). (insert k ks, t)) (registry s n))"
    unfolding AddServiceKey_def by (rule upd) (simp add: keys.Collect_add)
  show "registry (RemoveServiceKey p k s) =
      (registry s)(n := map_option (\<lambda>(ks, t). (ks - {k}, t)) (registry s n))"
    unfolding RemoveServiceKey_def by (rule upd) (simp add: keys.Collect_del)
next
  show "store_inv s'" if "store_inv s" "New n s = (p, s')" for s s' n p
    using that by (rule store_inv_New)
  show "points_to s' p n" if "New n s = (p, s')" for s s' n p
    using that by (rule points_to_New)
  show "registry s' = (registry s)(n := Some (case registry s n of None \<Rightarrow> ({}, 0) | Some x \<Rightarrow> x))"
    if "store_inv s" "New n s = (p, s')" for s s' n p
    using that by (rule registry_New)
qed (simp_all add: store_inv_updates, simp_all add: cluster_updates Get_def points_to_def)

section \<open>Removal and expiry\<close>

lemma map_of_fold_delete:
  "map_of (fold (\<lambda>n m. AList.delete n m) ns m) k = (if k \<in> set ns then None else map_of m k)"
  by (induction ns arbitrary: m) (auto simp: gomap)

lemma gm_wf_fold_delete: "gm_wf m \<Longrightarrow> gm_wf (fold (\<lambda>n m. AList.delete n m) ns m)"
  by (induction ns arbitrary: m) auto

lemma registry_Remove: "registry (Remove n s) = (registry s)(n := None)"
  by (auto simp: registry_def Remove_def gomap fun_eq_iff split: option.split)

lemma registry_RemoveClusters: "registry (RemoveClusters ns s) = (registry s) |` (- set ns)"
  by (auto simp: registry_def RemoveClusters_def map_of_fold_delete fun_eq_iff restrict_map_def
      split: option.split)

lemma store_inv_removals: "store_inv s \<Longrightarrow> store_inv (Remove n s) \<and> store_inv (RemoveClusters ns s)"
  by (auto simp: store_inv_def Remove_def RemoveClusters_def gomap map_of_fold_delete
      gm_wf_fold_delete split: if_splits)

lemma IsExpired_registry:
  assumes "store_inv s" and "points_to s p n"
  shows "IsExpired now s p \<longleftrightarrow> (\<exists>ks t. registry s n = Some (ks, t) \<and> t \<noteq> 0 \<and> t < now)"
  using assms by (elim points_to_heap) (auto simp: IsExpired_def ExpireTime_def)

lemma Name_points_to: "store_inv s \<Longrightarrow> points_to s p n \<Longrightarrow> Name s p = n"
  by (erule points_to_heap) (auto simp: Name_def)

lemma GetExpiredClusters_mem:
  assumes "store_inv s" and "range_order ord"
  shows "p \<in> set (GetExpiredClusters ord now s) \<longleftrightarrow>
    (\<exists>n ks t. points_to s p n \<and> registry s n = Some (ks, t) \<and> t \<noteq> 0 \<and> t < now p)"
proof -
  have wf: "gm_wf (csClusters s)" using assms(1) by (simp add: store_inv_def)
  have "p \<in> snd ` set (csClusters s) \<longleftrightarrow> (\<exists>n. (n, p) \<in> set (csClusters s))" by force
  also have "\<dots> \<longleftrightarrow> (\<exists>n. points_to s p n)" by (simp add: gm_wf_mem_iff [OF wf] points_to_def)
  finally have "p \<in> set (GetExpiredClusters ord now s) \<longleftrightarrow>
      (\<exists>n. points_to s p n) \<and> IsExpired (now p) s p"
    using range_order_set [OF assms(2)] by (auto simp: GetExpiredClusters_def)
  then show ?thesis using IsExpired_registry [OF assms(1)] by blast
qed

section \<open>Properties\<close>

text \<open>
  C18 (cluster_store_refines_registry): seen as a map from names to key sets and expiry times, the
  store does what it promises: a heartbeat from a cluster (\<open>New\<close>, \<open>SetExpireTime\<close>) registers it or
  keeps its keys and sets its time, recording a service (\<open>New\<close>, \<open>AddServiceKey\<close>) adds one key and
  keeps the time, a service is forgotten by removing its key, and removing clusters removes
  their entries; no operation changes the entry of another cluster, and all keep the invariant.
\<close>

theorem cluster_store_refines_registry:
  assumes "store_inv s"
  shows "(case New n s of (p, s1) \<Rightarrow>
      registry (SetExpireTime p t s1) = (registry s)(n \<mapsto>
        (case registry s n of None \<Rightarrow> {} | Some (ks, _) \<Rightarrow> ks, t)) \<and>
      registry (AddServiceKey p k s1) = (registry s)(n \<mapsto>
        (case registry s n of None \<Rightarrow> ({k}, 0) | Some (ks, t') \<Rightarrow> (insert k ks, t'))) \<and>
      store_inv (SetExpireTime p t s1) \<and> store_inv (AddServiceKey p k s1)) \<and>
    (case Get n s of None \<Rightarrow> registry s n = None
     | Some p \<Rightarrow> registry (RemoveServiceKey p k s) =
         (registry s)(n := map_option (\<lambda>(ks, t'). (ks - {k}, t')) (registry s n)) \<and>
         store_inv (RemoveServiceKey p k s)) \<and>
    registry (RemoveClusters ns s) = (registry s) |` (- set ns) \<and> store_inv (RemoveClusters ns s)"
  using store.refresh_entries [OF assms, of n] store.record_entries [OF assms, of n]
    store.forget_entries [OF assms, of n] store.get_None [OF assms, of n]
    registry_RemoveClusters [of ns s] store_inv_removals [OF assms]
  by (auto split: option.split prod.split)

definition demo_clusters :: ClusterStore where
  "demo_clusters =
     (case New ''beijing'' NewClusterStore of (p, s1) \<Rightarrow>
      case New ''shanghai'' (AddServiceKey p (ObjectKey ''default'' ''nginx'') (SetExpireTime p 50 s1)) of
        (q, s2) \<Rightarrow> SetExpireTime q 90 s2)"

lemma store_inv_demo: "store_inv demo_clusters"
proof -
  obtain p s1 where 1: "New ''beijing'' NewClusterStore = (p, s1)" by fastforce
  let ?s = "AddServiceKey p (ObjectKey ''default'' ''nginx'') (SetExpireTime p 50 s1)"
  have "store_inv ?s"
    using store_inv_New [OF store_inv_New_empty 1] by (simp add: store_inv_updates)
  moreover obtain q s2 where 2: "New ''shanghai'' ?s = (q, s2)" by fastforce
  ultimately have "store_inv s2" using store_inv_New by blast
  then show ?thesis by (simp add: demo_clusters_def 1 2 store_inv_updates)
qed

theorem cluster_store_refines_registry_witness:
  "registry (RemoveClusters [''shanghai''] demo_clusters) ''beijing'' =
     Some ({ObjectKey ''default'' ''nginx''}, 50) \<and>
   registry (RemoveClusters [''shanghai''] demo_clusters) ''shanghai'' = None"
proof -
  have "registry demo_clusters ''beijing'' = Some ({ObjectKey ''default'' ''nginx''}, 50)"
    by (auto simp: registry_def demo_clusters_def cluster_updates New_def modify_def NewClusterStore_def
        NewObjectKeySet_def Add_def Has_def gomap split: option.splits if_splits)
  then show ?thesis
    using cluster_store_refines_registry [OF store_inv_demo, where ns = "[''shanghai'']"] by auto
qed

text \<open>
  Whatever order the map is visited in and however the clock moves
  meanwhile, \<open>GetExpiredClusters\<close> returns each cluster whose time is set and has passed, once, and
  no other; a cluster whose time was never set does not expire.
\<close>

theorem GetExpiredClusters_exact:
  assumes "store_inv s" and "range_order ord"
  shows "distinct (GetExpiredClusters ord now s) \<and>
    (p \<in> set (GetExpiredClusters ord now s) \<longleftrightarrow>
      (\<exists>n ks t. points_to s p n \<and> Name s p = n \<and> registry s n = Some (ks, t) \<and> t \<noteq> 0 \<and> t < now p))"
proof -
  have "inj_on snd (set (csClusters s))"
  proof (rule inj_onI)
    fix x y
    assume "x \<in> set (csClusters s)" "y \<in> set (csClusters s)" "snd x = snd y"
    then have "map_of (csClusters s) (fst x) = Some (snd y)" "map_of (csClusters s) (fst y) = Some (snd y)"
      using assms(1) by (metis gm_wf_mem_iff prod.collapse store_inv_def)+
    then have "fst x = fst y"
      using points_to_unique [OF assms(1)] by (metis points_to_def)
    then show "x = y" using \<open>snd x = snd y\<close> by (rule prod_eqI)
  qed
  moreover have "distinct (csClusters s)"
    using assms(1) by (simp add: store_inv_def gm_wf_def distinct_map)
  ultimately have "distinct (map snd (ord (csClusters s)))"
    by (simp add: distinct_map range_order_set [OF assms(2)] range_order_distinct [OF assms(2)])
  then have "distinct (GetExpiredClusters ord now s)"
    by (simp add: GetExpiredClusters_def)
  then show ?thesis
    using GetExpiredClusters_mem [OF assms] Name_points_to [OF assms(1)] by metis
qed

theorem GetExpiredClusters_exact_witness:
  "GetExpiredClusters rev (\<lambda>_. 60) demo_clusters = [0] \<and> 1 \<notin> set (GetExpiredClusters rev (\<lambda>_. 95) NewClusterStore)"
proof -
  have "GetExpiredClusters rev (\<lambda>_. 60) demo_clusters = [0]" by code_simp
  moreover have "registry NewClusterStore n = None" for n by simp
  ultimately show ?thesis
    using GetExpiredClusters_exact [OF store_inv_New_empty range_order_rev, of "\<lambda>_. 95" 1] by simp
qed

text \<open>
  Once a cluster is removed, writes through a pointer got before
  are lost: the registry does not see them, also when the cluster has been registered anew.
\<close>

theorem dangling_cluster_invisible:
  assumes "store_inv s" and "Get n s = Some p"
  shows "registry (AddServiceKey p k (Remove n s)) = (registry s)(n := None) \<and>
    (case New n (Remove n s) of (q, s1) \<Rightarrow>
       q \<noteq> p \<and> registry (AddServiceKey p k s1) n = Some ({}, 0) \<and>
       registry (SetExpireTime p t s1) n = Some ({}, 0))"
proof -
  have at: "points_to s p n" using assms(2) by (simp add: Get_def points_to_def)
  have gone: "\<not> points_to (Remove n s) p m" for m
    using points_to_unique [OF assms(1) at, of m] by (auto simp: points_to_def Remove_def gomap)
  obtain q s1 where new: "New n (Remove n s) = (q, s1)" by fastforce
  have inv: "store_inv (Remove n s)" using store_inv_removals [OF assms(1)] by simp
  have bound: "p < csNext s" using assms by (auto simp: Get_def elim: store_inv_heap)
  have fresh: "q \<noteq> p" using new bound by (auto simp: New_def Remove_def gomap)
  have "m \<noteq> n \<Longrightarrow> map_of (csClusters s) m \<noteq> Some p" for m
    using gone [of m] by (simp add: Remove_def points_to_def gomap)
  then have still: "\<not> points_to s1 p m" for m
    using new fresh by (auto simp: New_def Remove_def points_to_def gomap split: if_splits)
  have "registry s1 n = Some ({}, 0)"
    using registry_New [OF inv new] by (simp add: registry_Remove)
  then show ?thesis
    using registry_modify_dangling [OF gone] registry_modify_dangling [OF still] fresh
    by (simp add: new cluster_updates registry_Remove)
qed

theorem dangling_cluster_invisible_witness:
  "registry (AddServiceKey 0 (ObjectKey ''default'' ''redis'') (Remove ''beijing'' demo_clusters)) ''beijing'' = None"
proof -
  have "Get ''beijing'' demo_clusters = Some 0" by code_simp
  from dangling_cluster_invisible [OF store_inv_demo this] show ?thesis by simp
qed

end
