(* ===== verification/Namespace.thy ===== *)
theory Namespace
  imports KubeApi
begin

text \<open>
  \<open>pkg/util/namespace/namespace.go\<close>: \<open>Exists\<close> and \<open>Ensure\<close>, with which the hub creates the
  namespace a global service lives in.  An \<open>AlreadyExists\<close> from the race with another creator
  counts as success.
\<close>

definition Exists :: "'w kube \<Rightarrow> string \<Rightarrow> 'w \<Rightarrow> (go_error + bool) \<times> 'w" where
  "Exists cli name w =
     (case kGetNS cli name w of
        (None, w1) \<Rightarrow> (Inr True, w1)
      | (Some e, w1) \<Rightarrow> if IsNotFound e then (Inr False, w1) else (Inl e, w1))"

definition Ensure :: "'w kube \<Rightarrow> string \<Rightarrow> 'w \<Rightarrow> go_error option \<times> 'w" where
  "Ensure cli name w =
     (case Exists cli name w of
        (Inl e, w1) \<Rightarrow> (Some e, w1)
      | (Inr True, w1) \<Rightarrow> (None, w1)
      | (Inr False, w1) \<Rightarrow>
          (case kCreateNS cli
                  (zero_meta\<lparr>omName := name, omLabels := Some [(KeyCreatedBy, AppServiceHub)]\<rparr>) w1 of
             (None, w2) \<Rightarrow> (None, w2)
           | (Some e, w2) \<Rightarrow> (if IsAlreadyExists e then None else Some e, w2)))"

context kube_api begin

lemma Exists_frame:
  "Exists K n w = (r, w') \<Longrightarrow> objs w' = objs w \<and> nss w \<subseteq> nss w'"
  by (auto simp: Exists_def split: prod.splits option.splits if_splits dest: get_ns_frame)

lemma Exists_true: "Exists K n w = (Inr True, w') \<Longrightarrow> n \<in> nss w'"
  by (auto simp: Exists_def split: prod.splits option.splits if_splits dest: get_ns_ok)

lemma Ensure_frame:
  "Ensure K n w = (r, w') \<Longrightarrow> objs w' = objs w \<and> nss w \<subseteq> nss w'"
  by (auto simp: Ensure_def split: prod.splits option.splits sum.splits bool.splits if_splits
      dest!: Exists_frame create_ns_frame)

lemma Ensure_ok: "Ensure K n w = (None, w') \<Longrightarrow> n \<in> nss w'"
  by (auto simp: Ensure_def zero_meta_def
      split: prod.splits option.splits sum.splits bool.splits if_splits
      dest: Exists_true dest!: create_ns_ok)

end

text \<open>
  When \<open>Ensure\<close> reports success the namespace exists, however the read and the creation went;
  and whatever it reports, it removes no namespace and touches no global service.
\<close>

theorem Ensure_establishes_namespace:
  assumes "kube_api K objs nss" and "Ensure K n w = (r, w')"
  shows "(r = None \<longrightarrow> n \<in> nss w') \<and> nss w \<subseteq> nss w' \<and> objs w' = objs w"
  using assms kube_api.Ensure_ok kube_api.Ensure_frame by metis

theorem Ensure_establishes_namespace_witness:
  "''demo'' \<in> mem_nss (snd (Ensure mem_kube ''demo'' empty_memory)) \<and>
   fst (Ensure mem_kube ''demo'' empty_memory) = None"
proof -
  let ?w = "empty_memory\<lparr>memNS := [''demo'', ''default'']\<rparr>"
  have "Ensure mem_kube ''demo'' empty_memory = (None, ?w)"
    by (simp add: Ensure_def Exists_def mem_calls empty_memory_def zero_meta_def)
  then show ?thesis
    using Ensure_establishes_namespace [OF mem.kube_api_axioms, of "''demo''" empty_memory None ?w]
    by simp
qed

end
