(* ===== verification/GlobalServiceManager.thy ===== *)
theory GlobalServiceManager
  imports Namespace Samples
begin

text \<open>
  \<open>pkg/service-hub/types/global_service_manager.go\<close>: the object that merges the endpoints a
  cluster exports into a global service and takes them out again.  First the operations as
  the code has them, over any Kubernetes API; then the contract of the interface
  \<open>GlobalServiceManager\<close> as a locale, in terms of the endpoints each cluster has in each
  service, with what follows for every sequence of operations; then the proof that the code
  meets the contract over every API that keeps the laws of \<open>kube_api\<close>.  The manager's lock
  makes each operation one step, which is how they are modelled.
\<close>

section \<open>Operations\<close>

text \<open>
  \<open>removeEndpoints\<close> deletes in place: index \<open>i\<close> advances only past elements that stay, and
  \<open>append(endpoints[:i], endpoints[i+1:]...)\<close> drops element \<open>i\<close>.
\<close>

function removeEndpoints_loop :: "nat \<Rightarrow> Endpoint list \<Rightarrow> string \<Rightarrow> Endpoint list" where
  "removeEndpoints_loop i eps c =
     (if i < length eps then
        if epCluster (eps ! i) = c
        then removeEndpoints_loop i (take i eps @ drop (i + 1) eps) c
        else removeEndpoints_loop (i + 1) eps c
      else eps)"
  by pat_completeness auto
termination
  by (relation "measure (\<lambda>(i, eps, c). length eps - i)") auto

declare removeEndpoints_loop.simps [simp del]

definition removeEndpoints :: "Endpoint list \<Rightarrow> string \<Rightarrow> Endpoint list" where
  "removeEndpoints eps c = removeEndpoints_loop 0 eps c"

record 'w globalServiceManager =
  allowCreateNamespace :: bool
  client :: "'w kube"

definition NewGlobalServiceManager :: "'w kube \<Rightarrow> bool \<Rightarrow> 'w globalServiceManager" where
  "NewGlobalServiceManager cli allow = \<lparr>allowCreateNamespace = allow, client = cli\<rparr>"

text \<open>The object passed to \<open>CreateOrUpdate\<close> and the mutate function.\<close>

definition localService :: "GlobalService \<Rightarrow> GlobalService" where
  "localService ext =
     \<lparr>gsMeta = zero_meta\<lparr>omName := omName (gsMeta ext), omNamespace := omNamespace (gsMeta ext),
        omLabels := Some [(''fabedge.io/created-by'', ''service-hub'')]\<rparr>,
      gsSpec = zero_spec\<rparr>"

definition mergeService :: "GlobalService \<Rightarrow> GlobalService \<Rightarrow> go_error + GlobalService" where
  "mergeService ext svc =
     (let allEndpoints = removeEndpoints (endpoints_of svc) (omClusterName (gsMeta ext))
      in Inr (svc\<lparr>gsSpec :=
           \<lparr>gsType = gsType (gsSpec ext), gsPorts = gsPorts (gsSpec ext),
            gsEndpoints = allEndpoints @ endpoints_of ext\<rparr>\<rparr>))"

definition CreateOrMergeGlobalService ::
  "'w globalServiceManager \<Rightarrow> GlobalService \<Rightarrow> 'w \<Rightarrow> go_error option \<times> 'w" where
  "CreateOrMergeGlobalService m ext w =
     (case (if allowCreateNamespace m then Ensure (client m) (omNamespace (gsMeta ext)) w
            else (None, w)) of
        (Some e, w1) \<Rightarrow> (Some e, w1)
      | (None, w1) \<Rightarrow>
          kCreateOrUpdateGS (client m) (localService ext) (mergeService ext) w1)"

text \<open>
  \<open>err := client.Get(ctx, key, &svc)\<close>: only \<open>NotFound\<close> is looked at; after any other error the
  code goes on with \<open>svc\<close>, which is then the zero value.
\<close>

definition RevokeGlobalService ::
  "'w globalServiceManager \<Rightarrow> string \<Rightarrow> string \<Rightarrow> string \<Rightarrow> 'w \<Rightarrow> go_error option \<times> 'w" where
  "RevokeGlobalService m clusterName ns serviceName w =
     (case kGetGS (client m) (ObjectKey ns serviceName) w of
        (res, w1) \<Rightarrow>
          if (case res of Inl e \<Rightarrow> IsNotFound e | Inr _ \<Rightarrow> False) then (None, w1)
          else
            let got = (case res of Inl _ \<Rightarrow> zero_gs | Inr g \<Rightarrow> g);
                svc = got\<lparr>gsSpec := (gsSpec got)\<lparr>gsEndpoints :=
                        removeEndpoints (endpoints_of got) clusterName\<rparr>\<rparr>
            in if length (endpoints_of svc) = 0 then kDeleteGS (client m) svc w1
               else kUpdateGS (client m) svc w1)"

section \<open>The in-place loop is a filter\<close>

lemma removeEndpoints_loop_filter:
  "removeEndpoints_loop i eps c =
     take i eps @ filter (\<lambda>e. epCluster e \<noteq> c) (drop i eps)"
proof (induction i eps c rule: removeEndpoints_loop.induct)
  case (1 i eps c)
  show ?case
  proof (cases "i < length eps")
    case True
    then have split: "drop i eps = eps ! i # drop (Suc i) eps"
      by (simp add: Cons_nth_drop_Suc)
    show ?thesis
      using "1.IH" True split
      by (subst removeEndpoints_loop.simps) (simp add: take_Suc_conv_app_nth)
  next
    case False
    then show ?thesis by (subst removeEndpoints_loop.simps) simp
  qed
qed

lemma removeEndpoints_filter:
  "removeEndpoints eps c = filter (\<lambda>e. epCluster e \<noteq> c) eps"
  by (simp add: removeEndpoints_def removeEndpoints_loop_filter)

section \<open>What each cluster has in each service\<close>

text \<open>
  The abstract state of the hub: for a service and a cluster, the endpoints the cluster
  provides, in order; none when the service does not exist.
\<close>

definition cluster_view ::
  "('w \<Rightarrow> ObjectKey \<Rightarrow> GlobalService option) \<Rightarrow> 'w \<Rightarrow> ObjectKey \<Rightarrow> string \<Rightarrow> Endpoint list" where
  "cluster_view objs w k c =
     (case objs w k of None \<Rightarrow> [] | Some g \<Rightarrow> filter (\<lambda>e. epCluster e = c) (endpoints_of g))"

text \<open>An export is well formed when its endpoints carry the name of the exporting cluster.\<close>

definition own_endpoints :: "GlobalService \<Rightarrow> bool" where
  "own_endpoints ext \<longleftrightarrow> (\<forall>e \<in> set (endpoints_of ext). epCluster e = omClusterName (gsMeta ext))"

definition set_view ::
  "ObjectKey \<Rightarrow> string \<Rightarrow> Endpoint list \<Rightarrow> (ObjectKey \<Rightarrow> string \<Rightarrow> Endpoint list)
     \<Rightarrow> ObjectKey \<Rightarrow> string \<Rightarrow> Endpoint list" where
  "set_view k c eps v = v(k := (v k)(c := eps))"

lemma set_view_apply [endpoints]:
  "set_view k c eps v k' c' = (if k' = k \<and> c' = c then eps else v k' c')"
  by (simp add: set_view_def)

lemma own_endpoints_filter [endpoints]:
  "own_endpoints ext \<Longrightarrow> filter (\<lambda>e. epCluster e = c) (endpoints_of ext) =
     (if c = omClusterName (gsMeta ext) then endpoints_of ext else [])"
  by (auto simp: own_endpoints_def filter_id_conv filter_empty_conv)

lemma filter_removed [endpoints]:
  "filter (\<lambda>e. epCluster e = c) (removeEndpoints eps c') =
     (if c = c' then [] else filter (\<lambda>e. epCluster e = c) eps)"
  by (auto simp: removeEndpoints_filter filter_empty_conv intro!: filter_cong)


section \<open>The contract\<close>

text \<open>
  An operation that succeeds replaces the endpoints of one cluster in one service and nothing
  else; one that fails does that or nothing.
\<close>

locale global_service_manager =
  fixes merge :: "GlobalService \<Rightarrow> 'w \<Rightarrow> go_error option \<times> 'w"
    and revoke :: "string \<Rightarrow> string \<Rightarrow> string \<Rightarrow> 'w \<Rightarrow> go_error option \<times> 'w"
    and view :: "'w \<Rightarrow> ObjectKey \<Rightarrow> string \<Rightarrow> Endpoint list"
  assumes merge_ok: "merge g w = (None, w') \<Longrightarrow> own_endpoints g \<Longrightarrow>
      view w' = set_view (keyFromObject g) (omClusterName (gsMeta g)) (endpoints_of g) (view w)"
    and merge_atomic: "merge g w = (r, w') \<Longrightarrow> own_endpoints g \<Longrightarrow> view w' = view w \<or>
      view w' = set_view (keyFromObject g) (omClusterName (gsMeta g)) (endpoints_of g) (view w)"
    and revoke_ok: "revoke c ns n w = (None, w') \<Longrightarrow>
      view w' = set_view (ObjectKey ns n) c [] (view w)"
    and revoke_atomic: "revoke c ns n w = (r, w') \<Longrightarrow>
      view w' = view w \<or> view w' = set_view (ObjectKey ns n) c [] (view w)"

text \<open>
  A history of the hub: the operations in the order in which the lock let them through, each
  with its result.
\<close>

datatype hub_op = Export GlobalService | Revoke string ObjectKey

fun op_target :: "hub_op \<Rightarrow> ObjectKey \<times> string" where
  "op_target (Export g) = (keyFromObject g, omClusterName (gsMeta g))"
| "op_target (Revoke c k) = (k, c)"

fun op_endpoints :: "hub_op \<Rightarrow> Endpoint list" where
  "op_endpoints (Export g) = endpoints_of g"
| "op_endpoints (Revoke c k) = []"

fun op_own :: "hub_op \<Rightarrow> bool" where
  "op_own (Export g) = own_endpoints g"
| "op_own (Revoke c k) = True"

fun run_op ::
  "(GlobalService \<Rightarrow> 'w \<Rightarrow> go_error option \<times> 'w) \<Rightarrow> (string \<Rightarrow> string \<Rightarrow> string \<Rightarrow> 'w \<Rightarrow> go_error option \<times> 'w)
     \<Rightarrow> hub_op \<Rightarrow> 'w \<Rightarrow> go_error option \<times> 'w" where
  "run_op merge revoke (Export g) w = merge g w"
| "run_op merge revoke (Revoke c k) w = revoke c (okNamespace k) (okName k) w"

fun run_ops ::
  "(GlobalService \<Rightarrow> 'w \<Rightarrow> go_error option \<times> 'w) \<Rightarrow> (string \<Rightarrow> string \<Rightarrow> string \<Rightarrow> 'w \<Rightarrow> go_error option \<times> 'w)
     \<Rightarrow> hub_op list \<Rightarrow> 'w \<Rightarrow> go_error option list \<times> 'w" where
  "run_ops merge revoke [] w = ([], w)"
| "run_ops merge revoke (x # xs) w =
     (let (r, w1) = run_op merge revoke x w; (rs, w2) = run_ops merge revoke xs w1 in (r # rs, w2))"

text \<open>The endpoints the last operation on a service and a cluster leaves, if there is one.\<close>

fun last_write :: "hub_op list \<Rightarrow> ObjectKey \<times> string \<Rightarrow> Endpoint list option" where
  "last_write [] t = None"
| "last_write (x # xs) t =
     (case last_write xs t of
        Some eps \<Rightarrow> Some eps
      | None \<Rightarrow> if op_target x = t then Some (op_endpoints x) else None)"

definition ops_on :: "ObjectKey \<times> string \<Rightarrow> hub_op list \<Rightarrow> hub_op list" where
  "ops_on t = filter (\<lambda>x. op_target x = t)"

lemma last_write_ops_on: "last_write (ops_on t xs) t = last_write xs t"
  by (induction xs) (auto simp: ops_on_def split: option.splits)

lemma last_write_None: "last_write xs t = None \<longleftrightarrow> ops_on t xs = []"
  by (induction xs) (auto simp: ops_on_def split: option.splits)

context global_service_manager begin

lemma run_op_ok:
  "run_op merge revoke x w = (None, w') \<Longrightarrow> op_own x \<Longrightarrow>
     view w' k c = (if op_target x = (k, c) then op_endpoints x else view w k c)"
  by (cases x) (auto simp: set_view_apply dest!: merge_ok revoke_ok)

lemma run_op_frame:
  "run_op merge revoke x w = (r, w') \<Longrightarrow> op_own x \<Longrightarrow> op_target x \<noteq> (k, c) \<Longrightarrow>
     view w' k c = view w k c"
  by (cases x) (auto simp: set_view_apply dest!: merge_atomic revoke_atomic)

lemma run_ops_last_write:
  "run_ops merge revoke xs w = (rs, w') \<Longrightarrow> list_all op_own xs \<Longrightarrow> set rs \<subseteq> {None} \<Longrightarrow>
     view w' k c = (case last_write xs (k, c) of None \<Rightarrow> view w k c | Some eps \<Rightarrow> eps)"
proof (induction xs arbitrary: w rs)
  case Nil
  then show ?case by simp
next
  case (Cons x xs)
  obtain r w1 where step: "run_op merge revoke x w = (r, w1)" by force
  with Cons.prems obtain rs' where run: "run_ops merge revoke xs w1 = (rs', w')" and "rs = r # rs'"
    by (auto simp: Let_def split: prod.splits)
  with Cons.prems have "r = None" and "set rs' \<subseteq> {None}" by auto
  with step Cons.prems have "view w1 k c = (if op_target x = (k, c) then op_endpoints x else view w k c)"
    by (simp add: run_op_ok)
  with Cons.IH [OF run] \<open>set rs' \<subseteq> {None}\<close> Cons.prems show ?case
    by (auto split: option.splits)
qed

lemma run_ops_frame:
  "run_ops merge revoke xs w = (rs, w') \<Longrightarrow> list_all op_own xs \<Longrightarrow> ops_on (k, c) xs = [] \<Longrightarrow>
     view w' k c = view w k c"
proof (induction xs arbitrary: w rs)
  case Nil
  then show ?case by simp
next
  case (Cons x xs)
  obtain r w1 where step: "run_op merge revoke x w = (r, w1)" by force
  with Cons.prems obtain rs' where run: "run_ops merge revoke xs w1 = (rs', w')"
    by (auto simp: Let_def split: prod.splits)
  have other: "op_target x \<noteq> (k, c)" and rest: "ops_on (k, c) xs = []"
    using Cons.prems(3) by (auto simp: ops_on_def split: if_splits)
  have "view w1 k c = view w k c"
    using run_op_frame [OF step _ other] Cons.prems(2) by simp
  with Cons.IH [OF run _ rest] Cons.prems(2) show ?case by simp
qed

lemma run_ops_interleaving:
  assumes "run_ops merge revoke xs w = (rs, w1)" and "list_all op_own xs" and "set rs \<subseteq> {None}"
    and "run_ops merge revoke ys w = (rs', w2)" and "list_all op_own ys" and "set rs' \<subseteq> {None}"
    and same: "\<And>t. ops_on t xs = ops_on t ys"
  shows "view w1 = view w2"
proof (intro ext)
  fix k c
  have "last_write xs (k, c) = last_write ys (k, c)"
    using same [of "(k, c)"] by (metis last_write_ops_on)
  then show "view w1 k c = view w2 k c"
    using run_ops_last_write [OF assms(1-3)] run_ops_last_write [OF assms(4-6)] by simp
qed

end

section \<open>The code meets the contract\<close>

lemma mergeService_view [endpoints]:
  assumes "mergeService ext old = Inr g" and "own_endpoints ext"
  shows "filter (\<lambda>e. epCluster e = c) (endpoints_of g) =
    (if c = omClusterName (gsMeta ext) then endpoints_of ext
     else filter (\<lambda>e. epCluster e = c) (endpoints_of old))"
  using assms by (auto simp: mergeService_def endpoints)

lemma localService_key [simp]: "keyFromObject (localService ext) = keyFromObject ext"
  by (simp add: keyFromObject_def localService_def zero_meta_def)

lemma localService_endpoints [simp]: "endpoints_of (localService ext) = []"
  by (simp add: localService_def zero_spec_def)

lemma stored_as_endpoints [endpoints]: "stored_as g g' \<Longrightarrow> endpoints_of g' = endpoints_of g"
  by (simp add: stored_as_def)

lemma cluster_view_cong:
  "objs w k = objs w' k \<Longrightarrow> cluster_view objs w k c = cluster_view objs w' k c"
  by (simp add: cluster_view_def)

lemma cluster_view_objs: "objs w' = objs w \<Longrightarrow> cluster_view objs w' = cluster_view objs w"
  by (simp add: cluster_view_def fun_eq_iff)

lemma manager_fields [simp]:
  "allowCreateNamespace (NewGlobalServiceManager cli a) = a"
  "client (NewGlobalServiceManager cli a) = cli"
  by (simp_all add: NewGlobalServiceManager_def)

context kube_api begin

lemma CreateOrMerge_cases:
  assumes "CreateOrMergeGlobalService (NewGlobalServiceManager K a) ext w = (r, w')"
  obtains (namespace) e where "r = Some e" and "objs w' = objs w"
  | (applied) w1 where "objs w1 = objs w"
      and "kCreateOrUpdateGS K (localService ext) (mergeService ext) w1 = (r, w')"
      and "a \<Longrightarrow> omNamespace (gsMeta ext) \<in> nss w1"
proof (cases a)
  case True
  obtain r1 w1 where "Ensure K (omNamespace (gsMeta ext)) w = (r1, w1)" by force
  with True assms that show ?thesis
    by (cases r1) (auto simp: CreateOrMergeGlobalService_def dest: Ensure_frame Ensure_ok)
next
  case False
  with assms that show ?thesis by (auto simp: CreateOrMergeGlobalService_def)
qed

lemma CreateOrMerge_ok:
  assumes "CreateOrMergeGlobalService (NewGlobalServiceManager K a) ext w = (None, w')"
  shows "\<exists>g. objs w' (keyFromObject ext) = Some g \<and> gsType (gsSpec g) = gsType (gsSpec ext) \<and>
    gsPorts (gsSpec g) = gsPorts (gsSpec ext) \<and>
    endpoints_of g =
      removeEndpoints (case objs w (keyFromObject ext) of None \<Rightarrow> [] | Some old \<Rightarrow> endpoints_of old)
        (omClusterName (gsMeta ext)) @ endpoints_of ext"
  using assms
proof (cases rule: CreateOrMerge_cases)
  case (applied w1)
  from apply_ok [OF applied(2)] applied(1) show ?thesis
    by (auto simp: mergeService_def stored_as_def split: option.splits)
qed simp

lemma CreateOrMerge_frame:
  assumes "CreateOrMergeGlobalService (NewGlobalServiceManager K a) ext w = (r, w')"
    and "k \<noteq> keyFromObject ext"
  shows "objs w' k = objs w k"
  using assms(1)
proof (cases rule: CreateOrMerge_cases)
  case (applied w1)
  then show ?thesis using apply_frame [OF applied(2)] assms(2) by simp
qed simp

lemma CreateOrMerge_view:
  assumes "CreateOrMergeGlobalService (NewGlobalServiceManager K a) ext w = (r, w')"
    and own: "own_endpoints ext"
    and here: "objs w' (keyFromObject ext) = Some g"
      "mergeService ext (case objs w (keyFromObject ext) of None \<Rightarrow> localService ext | Some old \<Rightarrow> old)
        = Inr g0" "stored_as g0 g"
  shows "cluster_view objs w' =
    set_view (keyFromObject ext) (omClusterName (gsMeta ext)) (endpoints_of ext) (cluster_view objs w)"
proof (intro ext)
  fix k c
  show "cluster_view objs w' k c = set_view (keyFromObject ext) (omClusterName (gsMeta ext))
      (endpoints_of ext) (cluster_view objs w) k c"
  proof (cases "k = keyFromObject ext")
    case True
    then show ?thesis
      using here mergeService_view [OF here(2) own, of c] stored_as_endpoints [OF here(3)]
      by (auto simp: cluster_view_def set_view_apply split: option.splits)
  next
    case False
    then show ?thesis
      using CreateOrMerge_frame [OF assms(1) False] by (simp add: cluster_view_def set_view_apply)
  qed
qed

lemma Revoke_cases:
  assumes "RevokeGlobalService (NewGlobalServiceManager K a) c ns n w = (r, w')"
  obtains (missing) "r = None" and "objs w (ObjectKey ns n) = None" and "objs w' = objs w"
  | (failed_get) "r \<noteq> None" and "objs w' = objs w"
  | (last) g w1 where "objs w (ObjectKey ns n) = Some g" and "removeEndpoints (endpoints_of g) c = []"
      and "objs w1 = objs w"
      and "kDeleteGS K (g\<lparr>gsSpec := (gsSpec g)\<lparr>gsEndpoints := []\<rparr>\<rparr>) w1 = (r, w')"
  | (others) g w1 where "objs w (ObjectKey ns n) = Some g" and "removeEndpoints (endpoints_of g) c \<noteq> []"
      and "objs w1 = objs w"
      and "kUpdateGS K (g\<lparr>gsSpec := (gsSpec g)\<lparr>gsEndpoints := removeEndpoints (endpoints_of g) c\<rparr>\<rparr>) w1
             = (r, w')"
proof -
  obtain res w1 where get: "kGetGS K (ObjectKey ns n) w = (res, w1)" by force
  then have frame: "objs w1 = objs w" by (rule get_frame)
  show thesis
  proof (cases res)
    case (Inl e)
    show thesis
    proof (cases "IsNotFound e")
      case True
      with Inl get assms get_missing frame show thesis
        by (intro missing) (auto simp: RevokeGlobalService_def)
    next
      case False
      then have "kDeleteGS K zero_gs w1 = (r, w')"
        using assms Inl get
        by (simp add: RevokeGlobalService_def zero_gs_def zero_spec_def removeEndpoints_filter)
      from delete_unnamed [OF this] frame show thesis by (intro failed_get) auto
    qed
  next
    case (Inr g)
    with get have "objs w (ObjectKey ns n) = Some g" using get_ok by simp
    then show thesis
      using assms Inr get frame last [of g w1] others [of g w1]
      by (auto simp: RevokeGlobalService_def Let_def split: if_splits)
  qed
qed

lemma objs_unchanged:
  "objs w' k = objs w k \<Longrightarrow> (\<And>k'. k' \<noteq> k \<Longrightarrow> objs w' k' = objs w k') \<Longrightarrow> objs w' = objs w"
  by (rule ext) (case_tac "x = k"; simp)

lemma merge_contract_atomic:
  assumes run: "CreateOrMergeGlobalService (NewGlobalServiceManager K a) ext w = (r, w')"
    and own: "own_endpoints ext"
  shows "cluster_view objs w' = cluster_view objs w \<or>
    cluster_view objs w' =
      set_view (keyFromObject ext) (omClusterName (gsMeta ext)) (endpoints_of ext) (cluster_view objs w)"
  using run
proof (cases rule: CreateOrMerge_cases)
  case (namespace e)
  then show ?thesis using cluster_view_objs [OF namespace(2)] by simp
next
  case (applied w1)
  from apply_atomic [OF applied(2)] applied(1) consider
    "objs w' (keyFromObject ext) = objs w (keyFromObject ext)"
    | g0 g where "objs w' (keyFromObject ext) = Some g" "stored_as g0 g"
      "mergeService ext (case objs w (keyFromObject ext) of None \<Rightarrow> localService ext | Some old \<Rightarrow> old)
        = Inr g0"
    by auto
  then show ?thesis
  proof cases
    case 1
    then have "objs w' = objs w"
      using CreateOrMerge_frame [OF run] by (rule objs_unchanged)
    from cluster_view_objs [OF this] show ?thesis by simp
  next
    case 2
    then show ?thesis using CreateOrMerge_view [OF run own] by blast
  qed
qed

lemma merge_contract_ok:
  assumes run: "CreateOrMergeGlobalService (NewGlobalServiceManager K a) ext w = (None, w')"
    and own: "own_endpoints ext"
  shows "cluster_view objs w' =
    set_view (keyFromObject ext) (omClusterName (gsMeta ext)) (endpoints_of ext) (cluster_view objs w)"
  using run
proof (cases rule: CreateOrMerge_cases)
  case (applied w1)
  from apply_ok [OF applied(2)] applied(1) show ?thesis
    using CreateOrMerge_view [OF run own] by auto
qed simp

lemma view_removed:
  assumes "\<And>k'. k' \<noteq> k \<Longrightarrow> objs w' k' = objs w k'" and "objs w k = Some g"
    and "(case objs w' k of None \<Rightarrow> [] | Some g' \<Rightarrow> endpoints_of g') = removeEndpoints (endpoints_of g) c"
  shows "cluster_view objs w' = set_view k c [] (cluster_view objs w)"
proof (intro ext)
  fix k' c'
  have "filter (\<lambda>e. epCluster e = c') (case objs w' k of None \<Rightarrow> [] | Some g' \<Rightarrow> endpoints_of g') =
      (if c' = c then [] else filter (\<lambda>e. epCluster e = c') (endpoints_of g))"
    by (simp add: assms(3) filter_removed)
  then show "cluster_view objs w' k' c' = set_view k c [] (cluster_view objs w) k' c'"
    using assms(1) [of k'] assms(2)
    by (cases "k' = k") (auto simp: cluster_view_def set_view_apply split: option.splits)
qed

lemma revoke_key:
  assumes "objs w (ObjectKey ns n) = Some g"
  shows "keyFromObject (g\<lparr>gsSpec := s\<rparr>) = ObjectKey ns n"
  using keyed [OF assms] by simp

lemma revoke_contract_ok:
  assumes run: "RevokeGlobalService (NewGlobalServiceManager K a) c ns n w = (None, w')"
  shows "cluster_view objs w' = set_view (ObjectKey ns n) c [] (cluster_view objs w)"
  using run
proof (cases rule: Revoke_cases)
  case missing
  then have "cluster_view objs w (ObjectKey ns n) c = []" by (simp add: cluster_view_def)
  then show ?thesis
    using cluster_view_objs [OF missing(3)] by (simp add: set_view_def fun_upd_idem)
next
  case (last g w1)
  note key = revoke_key [OF last(1)]
  show ?thesis
  proof (rule view_removed [OF _ last(1)])
    show "objs w' k' = objs w k'" if "k' \<noteq> ObjectKey ns n" for k'
      using delete_frame [OF last(4)] that key last(3) by simp
    show "(case objs w' (ObjectKey ns n) of None \<Rightarrow> [] | Some g' \<Rightarrow> endpoints_of g')
        = removeEndpoints (endpoints_of g) c"
      using delete_ok [OF last(4)] key last(2) by simp
  qed
next
  case (others g w1)
  note key = revoke_key [OF others(1)]
  show ?thesis
  proof (rule view_removed [OF _ others(1)])
    show "objs w' k' = objs w k'" if "k' \<noteq> ObjectKey ns n" for k'
      using update_frame [OF others(4)] that key others(3) by simp
    show "(case objs w' (ObjectKey ns n) of None \<Rightarrow> [] | Some g' \<Rightarrow> endpoints_of g')
        = removeEndpoints (endpoints_of g) c"
      using update_ok [OF others(4)] key by (auto simp: stored_as_def)
  qed
qed simp

lemma revoke_contract_atomic:
  assumes run: "RevokeGlobalService (NewGlobalServiceManager K a) c ns n w = (r, w')"
  shows "cluster_view objs w' = cluster_view objs w \<or>
    cluster_view objs w' = set_view (ObjectKey ns n) c [] (cluster_view objs w)"
  using run
proof (cases rule: Revoke_cases)
  case missing
  from cluster_view_objs [OF missing(3)] show ?thesis by simp
next
  case failed_get
  from cluster_view_objs [OF failed_get(2)] show ?thesis by simp
next
  case (last g w1)
  note key = revoke_key [OF last(1)]
  have other: "objs w' k' = objs w k'" if "k' \<noteq> ObjectKey ns n" for k'
    using delete_frame [OF last(4)] that key last(3) by simp
  from delete_atomic [OF last(4)] key last(3) consider
    "objs w' (ObjectKey ns n) = objs w (ObjectKey ns n)" | "objs w' (ObjectKey ns n) = None"
    by auto
  then show ?thesis
  proof cases
    case 1
    from cluster_view_objs [OF objs_unchanged [OF 1 other]] show ?thesis by simp
  next
    case 2
    then show ?thesis using view_removed [OF other last(1)] last(2) by simp
  qed
next
  case (others g w1)
  note key = revoke_key [OF others(1)]
  have other: "objs w' k' = objs w k'" if "k' \<noteq> ObjectKey ns n" for k'
    using update_frame [OF others(4)] that key others(3) by simp
  from update_atomic [OF others(4)] key others(3) consider
    "objs w' (ObjectKey ns n) = objs w (ObjectKey ns n)"
    | g' where "objs w' (ObjectKey ns n) = Some g'"
        "endpoints_of g' = removeEndpoints (endpoints_of g) c"
    by (auto simp: stored_as_def)
  then show ?thesis
  proof cases
    case 1
    from cluster_view_objs [OF objs_unchanged [OF 1 other]] show ?thesis by simp
  next
    case 2
    then show ?thesis using view_removed [OF other others(1)] by simp
  qed
qed

end

text \<open>The manager over any API that keeps its laws is a provider of the contract.\<close>

sublocale kube_api \<subseteq> gsm: global_service_manager
  "CreateOrMergeGlobalService (NewGlobalServiceManager K a)"
  "RevokeGlobalService (NewGlobalServiceManager K a)"
  "cluster_view objs" for a
  by unfold_locales
    (rule merge_contract_ok merge_contract_atomic revoke_contract_ok revoke_contract_atomic; assumption)+


context kube_api begin

lemmas hub_last_write = gsm.run_ops_last_write
lemmas hub_isolation = gsm.run_ops_frame
lemmas hub_interleaving = gsm.run_ops_interleaving

lemma Revoke_frame:
  assumes "RevokeGlobalService (NewGlobalServiceManager K a) c ns n w = (r, w')"
    and "k \<noteq> ObjectKey ns n"
  shows "objs w' k = objs w k"
  using assms(1)
proof (cases rule: Revoke_cases)
  case (last g w1)
  then show ?thesis using delete_frame [OF last(4)] revoke_key [OF last(1)] assms(2) by simp
next
  case (others g w1)
  then show ?thesis using update_frame [OF others(4)] revoke_key [OF others(1)] assms(2) by simp
qed simp_all

lemma Revoke_ok_objs:
  assumes "RevokeGlobalService (NewGlobalServiceManager K a) c ns n w = (None, w')"
  shows "(case objs w' (ObjectKey ns n) of
      None \<Rightarrow> (case objs w (ObjectKey ns n) of None \<Rightarrow> True
                | Some g \<Rightarrow> \<forall>e \<in> set (endpoints_of g). epCluster e = c)
    | Some g' \<Rightarrow> endpoints_of g' \<noteq> [] \<and> (\<exists>g. objs w (ObjectKey ns n) = Some g \<and>
        gsSpec g' = (gsSpec g)\<lparr>gsEndpoints := filter (\<lambda>e. epCluster e \<noteq> c) (endpoints_of g)\<rparr>))"
  using assms
proof (cases rule: Revoke_cases)
  case missing
  then show ?thesis by simp
next
  case (last g w1)
  then show ?thesis
    using delete_ok [OF last(4)] revoke_key [OF last(1)]
    by (simp add: removeEndpoints_filter filter_empty_conv)
next
  case (others g w1)
  then show ?thesis
    using update_ok [OF others(4)] revoke_key [OF others(1)]
    by (auto simp: removeEndpoints_filter stored_as_def)
qed simp

end

section \<open>Properties\<close>

text \<open>The history of the witnesses: two exports, one of them repeated, and a revocation.\<close>

definition demo_history :: "hub_op list" where
  "demo_history = [Export beijing, Export shanghai, Export beijing, Revoke ''beijing'' nginx_key]"

definition demo_history' :: "hub_op list" where
  "demo_history' = [Export beijing, Export beijing, Revoke ''beijing'' nginx_key, Export shanghai]"

definition demo_manager :: "memory globalServiceManager" where
  "demo_manager = NewGlobalServiceManager mem_kube True"

definition demo_world1 :: memory where
  "demo_world1 = snd (CreateOrMergeGlobalService demo_manager beijing empty_memory)"

definition demo_world2 :: memory where
  "demo_world2 = snd (CreateOrMergeGlobalService demo_manager shanghai demo_world1)"

abbreviation hub_run ::
  "'w kube \<Rightarrow> bool \<Rightarrow> hub_op list \<Rightarrow> 'w \<Rightarrow> go_error option list \<times> 'w" where
  "hub_run K a \<equiv> run_ops (CreateOrMergeGlobalService (NewGlobalServiceManager K a))
                       (RevokeGlobalService (NewGlobalServiceManager K a))"

text \<open>
  C1 (hub_history_last_write): after any sequence of exports and revocations that succeeded,
  the endpoints of a cluster in a service are exactly those of its last operation there: an
  export replaces the cluster's earlier endpoints and keeps every other cluster's.
\<close>

theorem hub_history_last_write:
  assumes "kube_api K objs nss" and "hub_run K a xs w = (rs, w')"
    and "list_all op_own xs" and "set rs \<subseteq> {None}"
  shows "cluster_view objs w' k c =
    (case last_write xs (k, c) of None \<Rightarrow> cluster_view objs w k c | Some eps \<Rightarrow> eps)"
  using kube_api.hub_last_write [OF assms] .

theorem hub_history_last_write_witness:
  "fst (hub_run mem_kube True demo_history empty_memory) = [None, None, None, None] \<and>
   cluster_view mem_objs (snd (hub_run mem_kube True demo_history empty_memory)) nginx_key ''shanghai''
     = endpoints_of shanghai"
proof -
  let ?run = "hub_run mem_kube True demo_history empty_memory"
  have ok: "fst ?run = [None, None, None, None]" by code_simp
  have own: "list_all op_own demo_history" by code_simp
  have last: "last_write demo_history (nginx_key, ''shanghai'') = Some (endpoints_of shanghai)"
    by code_simp
  have run: "?run = (fst ?run, snd ?run)" by simp
  show ?thesis
    using hub_history_last_write [OF mem.kube_api_axioms run own] ok last by simp
qed

text \<open>
  C14 (hub_isolation_under_failures): whatever fails, no sequence of operations by other clusters
  or on other services changes the endpoints of a cluster in a service.
\<close>

theorem hub_isolation_under_failures:
  assumes "kube_api K objs nss" and "hub_run K a xs w = (rs, w')"
    and "list_all op_own xs" and "\<forall>x \<in> set xs. op_target x \<noteq> (k, c)"
  shows "cluster_view objs w' k c = cluster_view objs w k c"
proof -
  have "ops_on (k, c) xs = []" using assms(4) by (simp add: ops_on_def filter_empty_conv)
  then show ?thesis using kube_api.hub_isolation [OF assms(1-3)] by simp
qed

theorem hub_isolation_under_failures_witness:
  "let w = snd (hub_run mem_kube True [Export shanghai] empty_memory)\<lparr>memFaults := [None, Some ''timeout'']\<rparr>
   in fst (hub_run mem_kube True [Export beijing, Export beijing] w)
        = [Some (StatusError ReasonUnknown ''timeout''), None] \<and>
      cluster_view mem_objs (snd (hub_run mem_kube True [Export beijing, Export beijing] w))
        nginx_key ''shanghai'' = endpoints_of shanghai"
proof -
  let ?w = "snd (hub_run mem_kube True [Export shanghai] empty_memory)\<lparr>memFaults := [None, Some ''timeout'']\<rparr>"
  let ?run = "hub_run mem_kube True [Export beijing, Export beijing] ?w"
  have res: "fst ?run = [Some (StatusError ReasonUnknown ''timeout''), None]" by code_simp
  have before: "cluster_view mem_objs ?w nginx_key ''shanghai'' = endpoints_of shanghai" by code_simp
  have own: "list_all op_own [Export beijing, Export beijing]" by code_simp
  have other: "\<forall>x \<in> set [Export beijing, Export beijing]. op_target x \<noteq> (nginx_key, ''shanghai'')"
    by code_simp
  have run: "?run = (fst ?run, snd ?run)" by simp
  show ?thesis
    using hub_isolation_under_failures [OF mem.kube_api_axioms run own other] res before
    unfolding Let_def by simp
qed

text \<open>
  Two histories in which each cluster does the same operations
  on each service in the same order leave the hub with the same endpoints, however the
  operations of different clusters and services interleave.
\<close>

theorem hub_interleaving_irrelevant:
  assumes "kube_api K objs nss"
    and "hub_run K a xs w = (rs, w1)" and "list_all op_own xs" and "set rs \<subseteq> {None}"
    and "hub_run K a ys w = (rs', w2)" and "list_all op_own ys" and "set rs' \<subseteq> {None}"
    and "\<And>t. ops_on t xs = ops_on t ys"
  shows "cluster_view objs w1 = cluster_view objs w2"
  using kube_api.hub_interleaving [OF assms] .

theorem hub_interleaving_irrelevant_witness:
  "cluster_view mem_objs (snd (hub_run mem_kube True demo_history empty_memory)) =
   cluster_view mem_objs (snd (hub_run mem_kube True demo_history' empty_memory))"
proof -
  let ?r1 = "hub_run mem_kube True demo_history empty_memory"
  let ?r2 = "hub_run mem_kube True demo_history' empty_memory"
  have ok: "set (fst ?r1) \<subseteq> {None}" "set (fst ?r2) \<subseteq> {None}" by code_simp+
  have own: "list_all op_own demo_history" "list_all op_own demo_history'" by code_simp+
  have diff: "op_target (Export beijing) \<noteq> op_target (Export shanghai)"
    "op_target (Revoke ''beijing'' nginx_key) \<noteq> op_target (Export shanghai)" by code_simp+
  have same: "ops_on t demo_history = ops_on t demo_history'" for t
    using diff by (auto simp: ops_on_def demo_history_def demo_history'_def simp del: op_target.simps)
  show ?thesis
    by (rule hub_interleaving_irrelevant [OF mem.kube_api_axioms prod.collapse [symmetric] own(1) ok(1)
          prod.collapse [symmetric] own(2) ok(2) same])
qed

text \<open>
  C25 (CreateOrMerge_functional): a successful \<open>CreateOrMergeGlobalService\<close> leaves the service with
  the type and the ports of the export and the endpoints it had, less those of the exporting
  cluster, followed by the exported ones, and leaves every other service as it was.  It does so too
  when type or ports of the export differ from those the service has: the exporting cluster becomes an
  endpoint all the same, and its type and ports replace those the other clusters exported.
  \<open>docs/multi-cluster-service-discovery-design.md\<close> (line 121) says that such a service is not taken as
  an endpoint; the code has a todo there.
\<close>

theorem CreateOrMerge_functional:
  assumes "kube_api K objs nss"
    and "CreateOrMergeGlobalService (NewGlobalServiceManager K a) ext w = (None, w')"
  shows "(\<exists>g. objs w' (keyFromObject ext) = Some g \<and> gsSpec g = (gsSpec ext)\<lparr>gsEndpoints :=
      filter (\<lambda>e. epCluster e \<noteq> omClusterName (gsMeta ext))
        (case objs w (keyFromObject ext) of None \<Rightarrow> [] | Some old \<Rightarrow> endpoints_of old)
      @ endpoints_of ext\<rparr>) \<and>
    (\<forall>k. k \<noteq> keyFromObject ext \<longrightarrow> objs w' k = objs w k)"
proof -
  obtain g where g: "objs w' (keyFromObject ext) = Some g" "gsType (gsSpec g) = gsType (gsSpec ext)"
    "gsPorts (gsSpec g) = gsPorts (gsSpec ext)"
    "endpoints_of g = filter (\<lambda>e. epCluster e \<noteq> omClusterName (gsMeta ext))
        (case objs w (keyFromObject ext) of None \<Rightarrow> [] | Some old \<Rightarrow> endpoints_of old) @ endpoints_of ext"
    using kube_api.CreateOrMerge_ok [OF assms] by (auto simp: removeEndpoints_filter)
  then show ?thesis
    using kube_api.CreateOrMerge_frame [OF assms] by (intro conjI exI [of _ g]) simp_all
qed

theorem CreateOrMerge_functional_witness:
  "fst (CreateOrMergeGlobalService demo_manager shanghai demo_world1) = None \<and>
   map_option endpoints_of (mem_objs (snd (CreateOrMergeGlobalService demo_manager shanghai demo_world1))
     nginx_key) = Some (endpoints_of beijing @ endpoints_of shanghai)"
proof -
  let ?run = "CreateOrMergeGlobalService demo_manager shanghai demo_world1"
  have ok: "fst ?run = None" by code_simp
  have key: "keyFromObject shanghai = nginx_key" by code_simp
  have old: "filter (\<lambda>e. epCluster e \<noteq> omClusterName (gsMeta shanghai))
      (case mem_objs demo_world1 nginx_key of None \<Rightarrow> [] | Some old \<Rightarrow> endpoints_of old) = endpoints_of beijing"
    by code_simp
  have run: "CreateOrMergeGlobalService (NewGlobalServiceManager mem_kube True) shanghai demo_world1
      = (None, snd ?run)"
    using ok by (metis prod.collapse demo_manager_def)
  show ?thesis
    using CreateOrMerge_functional [OF mem.kube_api_axioms run] old key ok by auto
qed

text \<open>
  C38 (Revoke_functional): after a successful \<open>RevokeGlobalService\<close> the service is gone exactly when
  no other cluster had endpoints in it, and otherwise is what it was without the endpoints of
  the revoked cluster; no service without endpoints is left, and no other service changes.
\<close>

theorem Revoke_functional:
  assumes "kube_api K objs nss"
    and "RevokeGlobalService (NewGlobalServiceManager K a) c ns n w = (None, w')"
  shows "(case objs w' (ObjectKey ns n) of
      None \<Rightarrow> (case objs w (ObjectKey ns n) of None \<Rightarrow> True
                | Some g \<Rightarrow> \<forall>e \<in> set (endpoints_of g). epCluster e = c)
    | Some g' \<Rightarrow> endpoints_of g' \<noteq> [] \<and> (\<exists>g. objs w (ObjectKey ns n) = Some g \<and>
        gsSpec g' = (gsSpec g)\<lparr>gsEndpoints := filter (\<lambda>e. epCluster e \<noteq> c) (endpoints_of g)\<rparr>)) \<and>
    (\<forall>k. k \<noteq> ObjectKey ns n \<longrightarrow> objs w' k = objs w k)"
  using kube_api.Revoke_ok_objs [OF assms] kube_api.Revoke_frame [OF assms] by blast

theorem Revoke_functional_witness:
  "fst (RevokeGlobalService demo_manager ''beijing'' ''default'' ''nginx'' demo_world2) = None \<and>
   (\<exists>g'. mem_objs (snd (RevokeGlobalService demo_manager ''beijing'' ''default'' ''nginx'' demo_world2))
       (ObjectKey ''default'' ''nginx'') = Some g' \<and> endpoints_of g' = endpoints_of shanghai)"
proof -
  let ?run = "RevokeGlobalService demo_manager ''beijing'' ''default'' ''nginx'' demo_world2"
  have ok: "fst ?run = None" by code_simp
  obtain g where old: "mem_objs demo_world2 (ObjectKey ''default'' ''nginx'') = Some g"
    "endpoints_of g = endpoints_of beijing @ endpoints_of shanghai"
    by (rule that [of "the (mem_objs demo_world2 nginx_key)"]; code_simp)
  have new: "filter (\<lambda>e. epCluster e \<noteq> ''beijing'') (endpoints_of beijing @ endpoints_of shanghai)
      = endpoints_of shanghai" by code_simp
  have two: "\<not> (\<forall>e \<in> set (endpoints_of beijing @ endpoints_of shanghai). epCluster e = ''beijing'')"
    by code_simp
  have run: "RevokeGlobalService (NewGlobalServiceManager mem_kube True) ''beijing'' ''default'' ''nginx''
      demo_world2 = (None, snd ?run)"
    using ok by (metis prod.collapse demo_manager_def)
  show ?thesis
    using Revoke_functional [OF mem.kube_api_axioms run] old new two ok
    by (auto split: option.splits)
qed

text \<open>
  When the read in \<open>RevokeGlobalService\<close> fails with anything but
  \<open>NotFound\<close>, the error is dropped and the code asks the API to delete an object that has
  neither name nor namespace; what it reports is the outcome of that deletion.
\<close>

theorem Revoke_drops_read_error:
  assumes "kGetGS (client m) (ObjectKey ns n) w = (Inl e, w1)" and "\<not> IsNotFound e"
  shows "RevokeGlobalService m c ns n w = kDeleteGS (client m) zero_gs w1"
  using assms by (simp add: RevokeGlobalService_def zero_gs_def zero_spec_def removeEndpoints_filter)

theorem Revoke_drops_read_error_witness:
  "fst (RevokeGlobalService (NewGlobalServiceManager mem_kube True) ''beijing'' ''default'' ''nginx''
      (empty_memory\<lparr>memFaults := [Some ''timeout'']\<rparr>))
   = Some (TextError ''resource name may not be empty'')"
proof -
  have get: "kGetGS (client (NewGlobalServiceManager mem_kube True)) (ObjectKey ''default'' ''nginx'')
      (empty_memory\<lparr>memFaults := [Some ''timeout'']\<rparr>)
    = (Inl (StatusError ReasonUnknown ''timeout''), empty_memory)"
    by (simp add: mem_calls empty_memory_def)
  show ?thesis
    by (subst Revoke_drops_read_error [OF get]) (simp_all add: mem_calls empty_memory_def)
qed

end
