(* ===== verification/ApiServer.thy ===== *)
theory ApiServer
  imports ClusterStore GlobalServiceManager
begin

text \<open>
  \<open>pkg/service-hub/apiserver/apiserver.go\<close>: the HTTP API with which the other clusters report to
  the hub.  The handlers are functions of the request and of the state they share, the cluster
  store and the world behind the Kubernetes client; the clock is an argument.  The router
  (\<open>go-chi\<close>) and the JSON codec (\<open>k8s.io/apimachinery/pkg/util/json\<close>) are not code of this
  repository: \<open>chi\<close> matches a method and a path against the registered patterns, \<open>json\<close> turns
  values into text and back; each proof names what it needs of them.
\<close>

section \<open>Requests, responses, codec\<close>

record request =
  rqMethod :: string
  rqPath :: string
  rqCluster :: string
  rqBody :: "go_error + string"

record response =
  rsStatus :: nat
  rsContentType :: string
  rsBody :: string

record json =
  marshalServices :: "GlobalService list \<Rightarrow> go_error + string"
  unmarshalServices :: "string \<Rightarrow> go_error + GlobalService list"
  marshalService :: "GlobalService \<Rightarrow> go_error + string"
  unmarshalService :: "string \<Rightarrow> go_error + GlobalService"

definition StatusOK :: nat where "StatusOK = 200"
definition StatusNoContent :: nat where "StatusNoContent = 204"
definition StatusBadRequest :: nat where "StatusBadRequest = 400"
definition StatusNotFound :: nat where "StatusNotFound = 404"
definition StatusInternalServerError :: nat where "StatusInternalServerError = 500"

lemmas http_status =
  StatusOK_def StatusNoContent_def StatusBadRequest_def StatusNotFound_def StatusInternalServerError_def

definition HeaderClusterName :: string where "HeaderClusterName = ''X-FabEdge-Cluster''"
definition PathHeartbeat :: string where "PathHeartbeat = ''/api/heartbeat''"
definition PathGlobalServices :: string where "PathGlobalServices = ''/api/global-services''"

section \<open>Operations\<close>

text \<open>
  \<open>svMerge\<close> and \<open>svRevoke\<close> are the two methods of the interface \<open>types.GlobalServiceManager\<close>;
  \<open>svExpire\<close> is \<open>ClusterExpireDuration\<close>.
\<close>

record 'w Server =
  svClient :: "'w kube"
  svMerge :: "GlobalService \<Rightarrow> 'w \<Rightarrow> go_error option \<times> 'w"
  svRevoke :: "string \<Rightarrow> string \<Rightarrow> string \<Rightarrow> 'w \<Rightarrow> go_error option \<times> 'w"
  svExpire :: time
  svJson :: json

type_synonym 'w hub = "ClusterStore \<times> 'w"

definition getClusterName :: "request \<Rightarrow> string" where
  "getClusterName r = rqCluster r"

definition response_text :: "nat \<Rightarrow> string \<Rightarrow> response" where
  "response_text statusCode msg = \<lparr>rsStatus = statusCode, rsContentType = [], rsBody = msg\<rparr>"

definition Heartbeat :: "request \<Rightarrow> 'w hub \<Rightarrow> response \<times> 'w hub" where
  "Heartbeat r h = (response_text StatusNoContent [], h)"

definition clean_meta :: "GlobalService \<Rightarrow> GlobalService" where
  "clean_meta svc =
     svc\<lparr>gsMeta := zero_meta\<lparr>omName := omName (gsMeta svc), omNamespace := omNamespace (gsMeta svc),
       omResourceVersion := omResourceVersion (gsMeta svc)\<rparr>\<rparr>"

definition GetAllGlobalServices :: "'w Server \<Rightarrow> request \<Rightarrow> 'w hub \<Rightarrow> response \<times> 'w hub" where
  "GetAllGlobalServices sv r = (\<lambda>(s, w).
     case kListGS (svClient sv) w of
       (Inl e, w1) \<Rightarrow> (response_text StatusInternalServerError (error_text e), s, w1)
     | (Inr items, w1) \<Rightarrow>
         (case marshalServices (svJson sv) (map clean_meta items) of
            Inl e \<Rightarrow> (response_text StatusInternalServerError
                      (''unable to marshal global services: '' @ error_text e), s, w1)
          | Inr data \<Rightarrow>
              (\<lparr>rsStatus = StatusOK, rsContentType = ''application/json'', rsBody = data\<rparr>, s, w1)))"

definition upload_invalid :: "GlobalService \<Rightarrow> bool" where
  "upload_invalid gs \<longleftrightarrow> length (omName (gsMeta gs)) = 0 \<or> length (omNamespace (gsMeta gs)) = 0 \<or>
     length (gsPorts (gsSpec gs)) = 0 \<or> length (gsEndpoints (gsSpec gs)) = 0"

text \<open>The deferred function: it runs after the merge, however that went.\<close>

definition record_upload :: "request \<Rightarrow> GlobalService \<Rightarrow> ClusterStore \<Rightarrow> ClusterStore" where
  "record_upload r gs s =
     (case New (getClusterName r) s of
        (p, s1) \<Rightarrow> AddServiceKey p (ObjectKey (omNamespace (gsMeta gs)) (omName (gsMeta gs))) s1)"

definition UploadGlobalService :: "'w Server \<Rightarrow> request \<Rightarrow> 'w hub \<Rightarrow> response \<times> 'w hub" where
  "UploadGlobalService sv r = (\<lambda>(s, w).
     case rqBody r of
       Inl e \<Rightarrow> (response_text StatusInternalServerError
                  (''failed to read request body: '' @ error_text e), s, w)
     | Inr serviceJson \<Rightarrow>
         (case unmarshalService (svJson sv) serviceJson of
            Inl e \<Rightarrow> (response_text StatusBadRequest
                       (''unabled to unmarshal request body: '' @ error_text e), s, w)
          | Inr gs \<Rightarrow>
              if upload_invalid gs then (response_text StatusBadRequest ''data is not valid'', s, w)
              else
                (case svMerge sv gs w of
                   (Some e, w1) \<Rightarrow>
                     (response_text StatusInternalServerError (error_text e), record_upload r gs s, w1)
                 | (None, w1) \<Rightarrow> (response_text StatusNoContent [], record_upload r gs s, w1))))"

text \<open>\<open>params\<close> are the URL parameters chi took from the path.\<close>

definition URLParam :: "(string \<times> string) list \<Rightarrow> string \<Rightarrow> string" where
  "URLParam params key = (case map_of params key of None \<Rightarrow> [] | Some v \<Rightarrow> v)"

definition deleteEndpoints ::
  "'w Server \<Rightarrow> (string \<times> string) list \<Rightarrow> request \<Rightarrow> 'w hub \<Rightarrow> response \<times> 'w hub" where
  "deleteEndpoints sv params r = (\<lambda>(s, w).
     let serviceName = URLParam params ''name'';
         namespace = URLParam params ''namespaceDefault'';
         clusterName = getClusterName r
     in case svRevoke sv clusterName namespace serviceName w of
          (Some e, w1) \<Rightarrow> (response_text StatusInternalServerError
                            (''failed to find global service: '' @ error_text e), s, w1)
        | (None, w1) \<Rightarrow>
            (response_text StatusNoContent [],
             (case Get clusterName s of
                None \<Rightarrow> s
              | Some p \<Rightarrow> RemoveServiceKey p (ObjectKey namespace serviceName) s), w1))"

definition updateClusterExpireTime ::
  "'w Server \<Rightarrow> time \<Rightarrow> (request \<Rightarrow> 'w hub \<Rightarrow> response \<times> 'w hub) \<Rightarrow> request \<Rightarrow> 'w hub
     \<Rightarrow> response \<times> 'w hub" where
  "updateClusterExpireTime sv now nxt r = (\<lambda>(s, w).
     let clusterName = getClusterName r
     in if clusterName = '''' then nxt r (s, w)
        else case New clusterName s of
               (p, s1) \<Rightarrow> nxt r (SetExpireTime p (now + svExpire sv) s1, w))"

text \<open>
  \<open>New\<close> registers four routes behind the middleware; a request chi finds no route for is answered
  by chi.  \<open>chi routes method path\<close> is the pattern that matches, with its parameters.
\<close>

datatype route = HeartbeatRoute | GetAllRoute | UploadRoute | DeleteRoute

definition routes :: "(string \<times> string \<times> route) list" where
  "routes =
     [(''GET'', PathHeartbeat, HeartbeatRoute),
      (''GET'', PathGlobalServices, GetAllRoute),
      (''POST'', PathGlobalServices, UploadRoute),
      (''DELETE'', PathGlobalServices @ ''/{namespaceDefault}/{name}'', DeleteRoute)]"

type_synonym chi =
  "(string \<times> string \<times> route) list \<Rightarrow> string \<Rightarrow> string \<Rightarrow> response + route \<times> (string \<times> string) list"

fun handle ::
  "'w Server \<Rightarrow> response + route \<times> (string \<times> string) list \<Rightarrow> request \<Rightarrow> 'w hub \<Rightarrow> response \<times> 'w hub" where
  "handle sv (Inl answer) r h = (answer, h)"
| "handle sv (Inr (HeartbeatRoute, params)) r h = Heartbeat r h"
| "handle sv (Inr (GetAllRoute, params)) r h = GetAllGlobalServices sv r h"
| "handle sv (Inr (UploadRoute, params)) r h = UploadGlobalService sv r h"
| "handle sv (Inr (DeleteRoute, params)) r h = deleteEndpoints sv params r h"

definition ServeHTTP :: "chi \<Rightarrow> 'w Server \<Rightarrow> time \<Rightarrow> request \<Rightarrow> 'w hub \<Rightarrow> response \<times> 'w hub" where
  "ServeHTTP chi sv now r =
     updateClusterExpireTime sv now (\<lambda>r. handle sv (chi routes (rqMethod r) (rqPath r)) r) r"

section \<open>Routing\<close>

text \<open>
  What the properties use of chi: a static pattern is found by its path; the pattern of the
  deletion is found by a path with two segments after it, which become the parameters.  The
  segments are names of Kubernetes objects; a URL has them as they are (\<open>.\<close> and \<open>..\<close>, which the
  resolution of a reference removes, are no such names).
\<close>

definition url_segment :: "string \<Rightarrow> bool" where
  "url_segment x \<longleftrightarrow> x \<noteq> [] \<and> x \<noteq> ''.'' \<and> x \<noteq> ''..'' \<and> list_all (\<lambda>c. c \<in> set ''abcdefghijklmnopqrstuvwxyz0123456789-.'') x"

definition chi_ok :: "chi \<Rightarrow> bool" where
  "chi_ok chi \<longleftrightarrow>
     chi routes ''GET'' PathHeartbeat = Inr (HeartbeatRoute, []) \<and>
     chi routes ''GET'' PathGlobalServices = Inr (GetAllRoute, []) \<and>
     chi routes ''POST'' PathGlobalServices = Inr (UploadRoute, []) \<and>
     (\<forall>ns n. url_segment ns \<and> url_segment n \<longrightarrow>
        chi routes ''DELETE'' (PathGlobalServices @ ''/'' @ ns @ ''/'' @ n) =
          Inr (DeleteRoute, [(''namespaceDefault'', ns), (''name'', n)]))"

text \<open>A router that does this, for the witnesses: patterns and paths segment by segment.\<close>

fun segments :: "string \<Rightarrow> string list" where
  "segments [] = [[]]"
| "segments (c # cs) =
     (if c = CHR ''/'' then [] # segments cs
      else case segments cs of [] \<Rightarrow> [[c]] | x # xs \<Rightarrow> (c # x) # xs)"

fun match_segments :: "string list \<Rightarrow> string list \<Rightarrow> (string \<times> string) list option" where
  "match_segments [] [] = Some []"
| "match_segments (p # ps) (x # xs) =
     (if p \<noteq> [] \<and> hd p = CHR ''{'' then
        (if x = [] then None
         else map_option (\<lambda>m. (butlast (tl p), x) # m) (match_segments ps xs))
      else if p = x then match_segments ps xs else None)"
| "match_segments _ _ = None"

fun std_chi :: chi where
  "std_chi [] meth path = Inl (response_text StatusNotFound ''404 page not found'')"
| "std_chi ((m, p, rt) # rs) meth path =
     (if m = meth then
        (case match_segments (segments p) (segments path) of
           Some params \<Rightarrow> Inr (rt, params)
         | None \<Rightarrow> std_chi rs meth path)
      else std_chi rs meth path)"

lemma segments_not_Nil [simp]: "segments x \<noteq> []"
  by (induction x) (auto split: list.splits)

lemma segments_plain: "CHR ''/'' \<notin> set x \<Longrightarrow> segments x = [x]"
  by (induction x) auto

lemma segments_append: "CHR ''/'' \<notin> set x \<Longrightarrow> segments (x @ CHR ''/'' # y) = x # segments y"
  by (induction x) auto

lemma url_segment_plain: "url_segment x \<Longrightarrow> x \<noteq> [] \<and> CHR ''/'' \<notin> set x"
  unfolding url_segment_def list_all_iff by (intro conjI notI) (auto dest: bspec)

lemma segments_delete_path:
  assumes "url_segment ns" and "url_segment n"
  shows "segments (PathGlobalServices @ ''/'' @ ns @ ''/'' @ n) = [[], ''api'', ''global-services'', ns, n]"
  using url_segment_plain [OF assms(1)] url_segment_plain [OF assms(2)]
  by (simp add: PathGlobalServices_def segments_append segments_plain)

lemma chi_ok_std: "chi_ok std_chi"
  unfolding chi_ok_def
proof (intro conjI allI impI)
  fix ns n
  assume "url_segment ns \<and> url_segment n"
  then have seg: "segments (PathGlobalServices @ ''/'' @ ns @ ''/'' @ n) = [[], ''api'', ''global-services'', ns, n]"
    and ne: "ns \<noteq> []" "n \<noteq> []"
    using segments_delete_path url_segment_plain by blast+
  have pat: "segments (PathGlobalServices @ ''/{namespaceDefault}/{name}'') =
      [[], ''api'', ''global-services'', ''{namespaceDefault}'', ''{name}'']" by code_simp
  show "std_chi routes ''DELETE'' (PathGlobalServices @ ''/'' @ ns @ ''/'' @ n) =
      Inr (DeleteRoute, [(''namespaceDefault'', ns), (''name'', n)])"
    unfolding routes_def std_chi.simps seg pat by (simp add: ne)
qed (code_simp+)

section \<open>What a request does to the hub\<close>

locale api_server_env = global_service_manager merge revoke view
  for merge revoke and view :: "'w \<Rightarrow> ObjectKey \<Rightarrow> string \<Rightarrow> Endpoint list" +
  fixes cli :: "'w kube"
  assumes list_view: "kListGS cli w = (r', w') \<Longrightarrow> view w' = view w"

sublocale kube_api \<subseteq> api: api_server_env
  "CreateOrMergeGlobalService (NewGlobalServiceManager K a)"
  "RevokeGlobalService (NewGlobalServiceManager K a)" "cluster_view objs" K for a
  by unfold_locales (auto intro: cluster_view_objs list_frame)

text \<open>
  The kinds of effect a request can have on the registry and on the view of the hub: none, that
  of an upload, of a deletion, of a deletion that failed.
\<close>

datatype effect = NoEffect | Uploaded GlobalService | Deleted ObjectKey | DeleteFailed ObjectKey

definition upload_key :: "GlobalService \<Rightarrow> ObjectKey" where
  "upload_key gs = ObjectKey (omNamespace (gsMeta gs)) (omName (gsMeta gs))"

lemma upload_key_keyFromObject [simp]: "upload_key gs = keyFromObject gs"
  by (simp add: upload_key_def keyFromObject_def)

fun registry_effect ::
  "effect \<Rightarrow> string \<Rightarrow> (string \<Rightarrow> (ObjectKey set \<times> time) option) \<Rightarrow> string \<Rightarrow> (ObjectKey set \<times> time) option" where
  "registry_effect (Uploaded gs) c reg = reg(c \<mapsto>
     (case reg c of None \<Rightarrow> ({upload_key gs}, 0) | Some (ks, t) \<Rightarrow> (insert (upload_key gs) ks, t)))"
| "registry_effect (Deleted k) c reg = reg(c := map_option (\<lambda>(ks, t). (ks - {k}, t)) (reg c))"
| "registry_effect _ c reg = reg"

fun view_effect ::
  "effect \<Rightarrow> string \<Rightarrow> (ObjectKey \<Rightarrow> string \<Rightarrow> Endpoint list) \<Rightarrow> (ObjectKey \<Rightarrow> string \<Rightarrow> Endpoint list) \<Rightarrow> bool" where
  "view_effect NoEffect c v v' \<longleftrightarrow> v' = v"
| "view_effect (Uploaded gs) c v v' \<longleftrightarrow> own_endpoints gs \<longrightarrow>
     v' = v \<or> v' = set_view (upload_key gs) (omClusterName (gsMeta gs)) (endpoints_of gs) v"
| "view_effect (Deleted k) c v v' \<longleftrightarrow> v' = set_view k c [] v"
| "view_effect (DeleteFailed k) c v v' \<longleftrightarrow> v' = v \<or> v' = set_view k c [] v"

definition uploads :: "'w Server \<Rightarrow> request \<Rightarrow> GlobalService \<Rightarrow> bool" where
  "uploads sv r gs \<longleftrightarrow> (\<exists>b. rqBody r = Inr b \<and> unmarshalService (svJson sv) b = Inr gs \<and> \<not> upload_invalid gs)"

lemma store_inv_record_upload: "store_inv s \<Longrightarrow> store_inv (record_upload r gs s)"
  by (auto simp: record_upload_def store.record_entries split: prod.split)

lemma registry_record_upload:
  "store_inv s \<Longrightarrow> registry (record_upload r gs s) = registry_effect (Uploaded gs) (rqCluster r) (registry s)"
  using store.record_entries(2) [of s "rqCluster r" _ _ "upload_key gs"]
  by (auto simp: record_upload_def getClusterName_def upload_key_def [symmetric]
      simp del: upload_key_keyFromObject split: prod.split)

lemma deleteEndpoints_store:
  assumes "store_inv s"
  shows "store_inv (case Get c s of None \<Rightarrow> s | Some p \<Rightarrow> RemoveServiceKey p k s)"
    and "registry (case Get c s of None \<Rightarrow> s | Some p \<Rightarrow> RemoveServiceKey p k s) =
      registry_effect (Deleted k) c (registry s)"
  using store.forget_entries [OF assms, of c] store.get_None [OF assms, of c] assms
  by (auto split: option.split simp: fun_upd_idem)

text \<open>The whole request: the middleware refreshes the cluster first.\<close>

definition refreshed ::
  "string \<Rightarrow> time \<Rightarrow> (string \<Rightarrow> (ObjectKey set \<times> time) option) \<Rightarrow> string \<Rightarrow> (ObjectKey set \<times> time) option" where
  "refreshed c t reg = (if c = [] then reg
     else reg(c \<mapsto> (case reg c of None \<Rightarrow> {} | Some (ks, _) \<Rightarrow> ks, t)))"

text \<open>
  The invariant by which the cleaner can find what a lost cluster left behind: every service in
  which a cluster has endpoints is recorded for it, with a time at which it expires.  The hub's
  own cluster \<open>me\<close> exports without the API.  It takes requests that name their cluster and
  uploads that carry the endpoints of that cluster.
\<close>

definition recorded ::
  "('w \<Rightarrow> ObjectKey \<Rightarrow> string \<Rightarrow> Endpoint list) \<Rightarrow> string \<Rightarrow> ClusterStore \<Rightarrow> 'w \<Rightarrow> bool" where
  "recorded view me s w \<longleftrightarrow> (\<forall>k c. view w k c \<noteq> [] \<and> c \<noteq> me \<longrightarrow>
     (\<exists>ks t. registry s c = Some (ks, t) \<and> k \<in> ks \<and> t \<noteq> 0))"

lemma recordedD:
  "recorded view me s w \<Longrightarrow> view w k c \<noteq> [] \<Longrightarrow> c \<noteq> me \<Longrightarrow>
     \<exists>ks t. registry s c = Some (ks, t) \<and> k \<in> ks \<and> t \<noteq> 0"
  by (simp add: recorded_def)

definition honest :: "'w Server \<Rightarrow> request \<Rightarrow> bool" where
  "honest sv r \<longleftrightarrow> rqCluster r \<noteq> [] \<and>
     (\<forall>gs. uploads sv r gs \<longrightarrow> own_endpoints gs \<and> omClusterName (gsMeta gs) = rqCluster r)"

text \<open>A history of requests, each with the time it comes in.\<close>

fun serve_all ::
  "chi \<Rightarrow> 'w Server \<Rightarrow> (time \<times> request) list \<Rightarrow> 'w hub \<Rightarrow> response list \<times> 'w hub" where
  "serve_all chi sv [] h = ([], h)"
| "serve_all chi sv ((now, r) # rqs) h =
     (case ServeHTTP chi sv now r h of (resp, h1) \<Rightarrow>
       (case serve_all chi sv rqs h1 of (resps, h2) \<Rightarrow> (resp # resps, h2)))"

context api_server_env begin

lemma handle_effect:
  assumes sv: "svMerge sv = merge" "svRevoke sv = revoke" "svClient sv = cli"
    and inv: "store_inv s" and run: "handle sv rt r (s, w) = (resp, s', w')"
  obtains eff where "store_inv s'" and "registry s' = registry_effect eff (rqCluster r) (registry s)"
    and "view_effect eff (rqCluster r) (view w) (view w')"
    and "\<And>gs. eff = Uploaded gs \<Longrightarrow> uploads sv r gs"
proof (cases rt)
  case (Inl answer)
  then show thesis using run inv that [of NoEffect] by simp
next
  case (Inr x)
  obtain rte params where x: "x = (rte, params)" by force
  show thesis
  proof (cases rte)
    case HeartbeatRoute
    then show thesis using run inv that [of NoEffect] Inr x by (simp add: Heartbeat_def)
  next
    case GetAllRoute
    obtain items w1 where list: "kListGS cli w = (items, w1)" by force
    have "s' = s" "w' = w1"
      using run sv list Inr x GetAllRoute
      by (auto simp: GetAllGlobalServices_def split: sum.splits)
    then show thesis using that [of NoEffect] inv list_view [OF list] by simp
  next
    case UploadRoute
    show thesis
    proof (cases "\<exists>gs. uploads sv r gs")
      case False
      then show thesis using run inv that [of NoEffect] Inr x UploadRoute
        by (auto simp: UploadGlobalService_def uploads_def split: prod.splits sum.splits if_splits)
    next
      case True
      then obtain gs where up: "uploads sv r gs" by blast
      obtain e w1 where merged: "merge gs w = (e, w1)" by force
      have state: "s' = record_upload r gs s" "w' = w1"
        using run up merged sv Inr x UploadRoute
        by (auto simp: UploadGlobalService_def uploads_def split: prod.splits sum.splits if_splits option.splits)
      show thesis
      proof (rule that [of "Uploaded gs"])
        show "view_effect (Uploaded gs) (rqCluster r) (view w) (view w')"
          using merge_atomic [OF merged] state by simp
        show "uploads sv r gs'" if "Uploaded gs = Uploaded gs'" for gs'
          using up that by simp
      qed (simp_all only: state inv store_inv_record_upload registry_record_upload)
    qed
  next
    case DeleteRoute
    define k where "k = ObjectKey (URLParam params ''namespaceDefault'') (URLParam params ''name'')"
    obtain e w1 where call: "revoke (rqCluster r) (okNamespace k) (okName k) w = (e, w1)" by force
    have k: "ObjectKey (okNamespace k) (okName k) = k" by simp
    show thesis
    proof (cases e)
      case None
      have "s' = (case Get (rqCluster r) s of None \<Rightarrow> s | Some p \<Rightarrow> RemoveServiceKey p k s)" "w' = w1"
        using run call sv Inr x DeleteRoute None unfolding k_def
        by (auto simp: deleteEndpoints_def getClusterName_def)
      then show thesis
        using that [of "Deleted k"] deleteEndpoints_store [OF inv] revoke_ok [OF call [unfolded None]] k
        by simp
    next
      case (Some e')
      then show thesis
        using that [of "DeleteFailed k"] revoke_atomic [OF call] run call sv Inr x DeleteRoute inv k
        by (auto simp: deleteEndpoints_def getClusterName_def k_def)
    qed
  qed
qed

lemma ServeHTTP_effect:
  assumes sv: "svMerge sv = merge" "svRevoke sv = revoke" "svClient sv = cli"
    and inv: "store_inv s" and run: "ServeHTTP chi sv now r (s, w) = (resp, s', w')"
  obtains eff where "store_inv s'"
    and "registry s' = registry_effect eff (rqCluster r) (refreshed (rqCluster r) (now + svExpire sv) (registry s))"
    and "view_effect eff (rqCluster r) (view w) (view w')"
    and "\<And>gs. eff = Uploaded gs \<Longrightarrow> uploads sv r gs"
proof (cases "rqCluster r = []")
  case True
  then have "handle sv (chi routes (rqMethod r) (rqPath r)) r (s, w) = (resp, s', w')"
    using run by (simp add: ServeHTTP_def updateClusterExpireTime_def getClusterName_def)
  from handle_effect [OF sv inv this] that True show thesis by (metis refreshed_def)
next
  case False
  obtain p s1 where new: "New (rqCluster r) s = (p, s1)" by force
  let ?s = "SetExpireTime p (now + svExpire sv) s1"
  have "handle sv (chi routes (rqMethod r) (rqPath r)) r (?s, w) = (resp, s', w')"
    using run False new by (simp add: ServeHTTP_def updateClusterExpireTime_def getClusterName_def)
  moreover have "registry ?s = refreshed (rqCluster r) (now + svExpire sv) (registry s)"
    using store.refresh_entries(2) [OF inv new] False by (simp add: refreshed_def)
  ultimately show thesis
    using handle_effect [OF sv store.refresh_entries(1) [OF inv new]] that by metis
qed

lemma ServeHTTP_recorded:
  assumes sv: "svMerge sv = merge" "svRevoke sv = revoke" "svClient sv = cli"
    and inv: "store_inv s" and rec: "recorded view me s w" and honest: "honest sv r"
    and time: "now + svExpire sv \<noteq> 0" and run: "ServeHTTP chi sv now r (s, w) = (resp, s', w')"
  shows "store_inv s' \<and> recorded view me s' w'"
proof -
  from ServeHTTP_effect [OF sv inv run] obtain eff where inv': "store_inv s'"
    and reg: "registry s' = registry_effect eff (rqCluster r)
      (refreshed (rqCluster r) (now + svExpire sv) (registry s))"
    and view: "view_effect eff (rqCluster r) (view w) (view w')"
    and up: "\<And>gs. eff = Uploaded gs \<Longrightarrow> uploads sv r gs" by metis
  have old: "\<exists>ks t. refreshed (rqCluster r) (now + svExpire sv) (registry s) c = Some (ks, t) \<and> k \<in> ks \<and> t \<noteq> 0"
    if "view w k c \<noteq> []" "c \<noteq> me" for k c
    using rec that time unfolding recorded_def refreshed_def by force
  have "recorded view me s' w'"
    unfolding recorded_def reg
  proof (intro allI impI, elim conjE)
    fix k c
    assume now: "view w' k c \<noteq> []" and other: "c \<noteq> me"
    show "\<exists>ks t. registry_effect eff (rqCluster r)
        (refreshed (rqCluster r) (now + svExpire sv) (registry s)) c = Some (ks, t) \<and> k \<in> ks \<and> t \<noteq> 0"
    proof (cases eff)
      case NoEffect
      then show ?thesis using old view now other by simp
    next
      case (Uploaded gs)
      then have "own_endpoints gs" "omClusterName (gsMeta gs) = rqCluster r"
        using up honest by (auto simp: honest_def)
      then show ?thesis
        using Uploaded view now other old [of k c] time honest
        by (auto simp: set_view_apply refreshed_def honest_def split: if_splits option.splits)
    next
      case (Deleted k0)
      then show ?thesis
        using view now other old [of k c] by (auto simp: set_view_apply split: if_splits)
    next
      case (DeleteFailed k0)
      then show ?thesis
        using view now other old [of k c] by (auto simp: set_view_apply split: if_splits)
    qed
  qed
  then show ?thesis using inv' by simp
qed

lemma serve_all_recorded:
  assumes sv: "svMerge sv = merge" "svRevoke sv = revoke" "svClient sv = cli"
  shows "store_inv s \<Longrightarrow> recorded view me s w \<Longrightarrow>
    \<forall>(now, r) \<in> set rqs. honest sv r \<and> now + svExpire sv \<noteq> 0 \<Longrightarrow>
    serve_all chi sv rqs (s, w) = (resps, s', w') \<Longrightarrow> store_inv s' \<and> recorded view me s' w'"
proof (induction rqs arbitrary: s w resps)
  case Nil
  then show ?case by simp
next
  case (Cons x rqs)
  obtain now r where x: "x = (now, r)" by force
  obtain resp s1 w1 where step: "ServeHTTP chi sv now r (s, w) = (resp, s1, w1)" by (metis prod_cases3)
  then obtain resps' where rest: "serve_all chi sv rqs (s1, w1) = (resps', s', w')"
    using Cons.prems(4) x by (auto split: prod.splits)
  have "store_inv s1 \<and> recorded view me s1 w1"
    using ServeHTTP_recorded [OF sv Cons.prems(1,2) _ _ step] Cons.prems(3) x by simp
  then show ?case using Cons.IH [OF _ _ _ rest] Cons.prems(3) by simp
qed

end

section \<open>Properties\<close>

context kube_api begin

lemmas api_recorded = api.serve_all_recorded
lemmas api_effect = api.ServeHTTP_effect

end

text \<open>The server of \<open>initAPIServer\<close> in \<open>options.go\<close>, and the requests of the witnesses.\<close>

definition hub_server :: "'w kube \<Rightarrow> bool \<Rightarrow> time \<Rightarrow> json \<Rightarrow> 'w Server" where
  "hub_server cli allow expire js =
     \<lparr>svClient = cli, svMerge = CreateOrMergeGlobalService (NewGlobalServiceManager cli allow),
      svRevoke = RevokeGlobalService (NewGlobalServiceManager cli allow), svExpire = expire, svJson = js\<rparr>"

lemma hub_server_fields [simp]:
  "svMerge (hub_server K a d js) = CreateOrMergeGlobalService (NewGlobalServiceManager K a)"
  "svRevoke (hub_server K a d js) = RevokeGlobalService (NewGlobalServiceManager K a)"
  "svClient (hub_server K a d js) = K" "svExpire (hub_server K a d js) = d"
  "svJson (hub_server K a d js) = js"
  by (simp_all add: hub_server_def)

definition listed :: "string \<Rightarrow> Endpoint list \<Rightarrow> GlobalService" where
  "listed version eps =
     \<lparr>gsMeta = zero_meta\<lparr>omName := ''nginx'', omNamespace := ''default'', omResourceVersion := version\<rparr>,
      gsSpec = (gsSpec beijing)\<lparr>gsEndpoints := eps\<rparr>\<rparr>"

definition demo_json :: json where
  "demo_json =
     \<lparr>marshalServices = (\<lambda>gs. if gs = [listed ''1'' (endpoints_of beijing)] then Inr ''L1''
        else if gs = [listed ''2'' (endpoints_of beijing @ endpoints_of shanghai)] then Inr ''L2''
        else Inl (TextError ''unsupported'')),
      unmarshalServices = (\<lambda>t. if t = ''L1'' then Inr [listed ''1'' (endpoints_of beijing)]
        else if t = ''L2'' then Inr [listed ''2'' (endpoints_of beijing @ endpoints_of shanghai)]
        else Inl (TextError ''unexpected end of JSON input'')),
      marshalService = (\<lambda>g. if g = beijing then Inr ''B'' else if g = shanghai then Inr ''S''
        else Inl (TextError ''unsupported'')),
      unmarshalService = (\<lambda>t. if t = ''B'' then Inr beijing else if t = ''S'' then Inr shanghai
        else Inl (TextError ''unexpected''))\<rparr>"

definition upload_request :: "string \<Rightarrow> string \<Rightarrow> request" where
  "upload_request c body =
     \<lparr>rqMethod = ''POST'', rqPath = PathGlobalServices, rqCluster = c, rqBody = Inr body\<rparr>"

definition delete_request :: "string \<Rightarrow> string \<Rightarrow> string \<Rightarrow> request" where
  "delete_request c ns n =
     \<lparr>rqMethod = ''DELETE'', rqPath = PathGlobalServices @ ''/'' @ ns @ ''/'' @ n, rqCluster = c,
      rqBody = Inr []\<rparr>"

definition demo_server :: "memory Server" where
  "demo_server = hub_server mem_kube True 300 demo_json"

definition demo_requests :: "(time \<times> request) list" where
  "demo_requests = [(10, upload_request ''beijing'' ''B''), (20, upload_request ''shanghai'' ''S''),
     (30, delete_request ''beijing'' ''default'' ''nginx'')]"

text \<open>
  Started on an empty hub, the API keeps the invariant of the cleaner
  through every history of requests, also when calls to Kubernetes fail on the way: whatever
  endpoints another cluster has in the hub are recorded for it, with a time of expiry.
\<close>

theorem api_records_endpoints:
  assumes "kube_api K objs nss" and "store_inv s" and "recorded (cluster_view objs) me s w"
    and "\<forall>(now, r) \<in> set rqs. honest (hub_server K a d js) r \<and> now + d \<noteq> 0"
    and "serve_all chi (hub_server K a d js) rqs (s, w) = (resps, s', w')"
  shows "store_inv s' \<and> recorded (cluster_view objs) me s' w'"
  by (rule kube_api.api_recorded [OF assms(1) hub_server_fields(1-3) assms(2,3) _ assms(5)])
    (simp add: assms(4))

lemma demo_requests_honest: "\<forall>(now, r) \<in> set demo_requests. honest demo_server r \<and> now + 300 \<noteq> 0"
proof -
  have "own_endpoints beijing" "own_endpoints shanghai"
    "omClusterName (gsMeta beijing) = ''beijing''" "omClusterName (gsMeta shanghai) = ''shanghai''"
    by (simp_all add: own_endpoints_def samples)
  then show ?thesis
    by (auto simp: demo_requests_def honest_def uploads_def demo_server_def demo_json_def
        upload_request_def delete_request_def split: if_splits)
qed

definition demo_served :: "response list \<times> memory hub" where
  "demo_served = serve_all std_chi demo_server demo_requests (NewClusterStore, empty_memory)"

theorem api_records_endpoints_witness:
  "map rsStatus (fst demo_served) = [204, 204, 204] \<and>
   cluster_view mem_objs (snd (snd demo_served)) nginx_key ''shanghai'' = endpoints_of shanghai \<and>
   (\<exists>ks t. registry (fst (snd demo_served)) ''shanghai'' = Some (ks, t) \<and> nginx_key \<in> ks)"
proof (intro conjI)
  have run: "serve_all std_chi (hub_server mem_kube True 300 demo_json) demo_requests
      (NewClusterStore, empty_memory) = (fst demo_served, fst (snd demo_served), snd (snd demo_served))"
    by (simp add: demo_server_def demo_served_def)
  have start: "recorded (cluster_view mem_objs) ''cloud'' NewClusterStore empty_memory"
    by (simp add: recorded_def cluster_view_def mem_objs_def mem_lookup_def empty_memory_def)
  show "map rsStatus (fst demo_served) = [204, 204, 204]" by code_simp
  show view: "cluster_view mem_objs (snd (snd demo_served)) nginx_key ''shanghai'' = endpoints_of shanghai"
    by code_simp
  have rec: "recorded (cluster_view mem_objs) ''cloud'' (fst (snd demo_served)) (snd (snd demo_served))"
    using api_records_endpoints [OF mem.kube_api_axioms store_inv_New_empty start _ run]
      demo_requests_honest by (simp add: demo_server_def)
  have some: "cluster_view mem_objs (snd (snd demo_served)) nginx_key ''shanghai'' \<noteq> []"
    unfolding view by (simp add: samples)
  show "\<exists>ks t. registry (fst (snd demo_served)) ''shanghai'' = Some (ks, t) \<and> nginx_key \<in> ks"
    using recordedD [OF rec, OF some] by auto
qed

text \<open>An upload on every branch of the handler.\<close>

lemma upload_outcome:
  assumes "store_inv s" and "chi_ok chi" and "rqMethod r = ''POST''" and "rqPath r = PathGlobalServices"
    and "rqCluster r \<noteq> []" and "ServeHTTP chi sv now r (s, w) = (resp, s', w')"
  shows "let seen = (registry s)(rqCluster r \<mapsto>
        (case registry s (rqCluster r) of None \<Rightarrow> {} | Some (ks, _) \<Rightarrow> ks, now + svExpire sv))
    in (case rqBody r of Inl _ \<Rightarrow> rsStatus resp = 500 \<and> w' = w \<and> registry s' = seen
     | Inr b \<Rightarrow> (case unmarshalService (svJson sv) b of
         Inl _ \<Rightarrow> rsStatus resp = 400 \<and> w' = w \<and> registry s' = seen
       | Inr gs \<Rightarrow>
           if upload_invalid gs then rsStatus resp = 400 \<and> w' = w \<and> registry s' = seen
           else (\<exists>e. svMerge sv gs w = (e, w') \<and> rsStatus resp = (if e = None then 204 else 500) \<and>
             registry s' = seen(rqCluster r \<mapsto> (insert (keyFromObject gs)
               (fst (the (seen (rqCluster r)))), now + svExpire sv)))))"
proof -
  obtain p s1 where new: "New (rqCluster r) s = (p, s1)" by force
  let ?s = "SetExpireTime p (now + svExpire sv) s1"
  note inv = store.refresh_entries(1) [OF assms(1) new, of "now + svExpire sv"]
  note reg = store.refresh_entries(2) [OF assms(1) new, of "now + svExpire sv"]
  have run: "UploadGlobalService sv r (?s, w) = (resp, s', w')"
    using assms(2-6) new
    by (simp add: ServeHTTP_def updateClusterExpireTime_def getClusterName_def chi_ok_def)
  have add: "registry (record_upload r gs ?s) = (registry ?s)(rqCluster r \<mapsto>
      (insert (keyFromObject gs) (fst (the (registry ?s (rqCluster r)))), now + svExpire sv))" for gs
    unfolding registry_record_upload [OF inv] using reg by simp
  show ?thesis
  proof (cases "rqBody r")
    case (Inl e)
    then show ?thesis
      using run unfolding Let_def reg [symmetric]
      by (auto simp: UploadGlobalService_def response_text_def http_status)
  next
    case body: (Inr b)
    show ?thesis
    proof (cases "unmarshalService (svJson sv) b")
      case (Inl e)
      then show ?thesis
        using run body unfolding Let_def reg [symmetric]
        by (auto simp: UploadGlobalService_def response_text_def http_status)
    next
      case gs: (Inr gs)
      show ?thesis
      proof (cases "upload_invalid gs")
        case True
        then show ?thesis
          using run body gs unfolding Let_def reg [symmetric]
          by (auto simp: UploadGlobalService_def response_text_def http_status)
      next
        case False
        obtain e w1 where merged: "svMerge sv gs w = (e, w1)" by force
        have "s' = record_upload r gs ?s" "w' = w1" "rsStatus resp = (if e = None then 204 else 500)"
          using run body gs False merged
          by (auto simp: UploadGlobalService_def response_text_def http_status split: option.splits)
        then show ?thesis
          using body gs False merged unfolding Let_def reg [symmetric] by (simp add: add)
      qed
    qed
  qed
qed

text \<open>
  C31 (upload_functional): an upload is answered by what went wrong first - 500 for an unreadable
  body, 400 for a body that is not a service or lacks a name, a namespace, ports or endpoints,
  500 for a failed merge - and 204 otherwise; the sender is refreshed in every case, and its
  service is recorded exactly when the merge was tried.
\<close>

theorem upload_functional:
  assumes "store_inv s" and "chi_ok chi" and "rqMethod r = ''POST''" and "rqPath r = PathGlobalServices"
    and "rqCluster r \<noteq> []" and "ServeHTTP chi sv now r (s, w) = (resp, s', w')"
  shows "let seen = (registry s)(rqCluster r \<mapsto>
        (case registry s (rqCluster r) of None \<Rightarrow> {} | Some (ks, _) \<Rightarrow> ks, now + svExpire sv))
    in (case rqBody r of Inl _ \<Rightarrow> rsStatus resp = 500 \<and> w' = w \<and> registry s' = seen
     | Inr b \<Rightarrow> (case unmarshalService (svJson sv) b of
         Inl _ \<Rightarrow> rsStatus resp = 400 \<and> w' = w \<and> registry s' = seen
       | Inr gs \<Rightarrow>
           if upload_invalid gs then rsStatus resp = 400 \<and> w' = w \<and> registry s' = seen
           else (\<exists>e. svMerge sv gs w = (e, w') \<and> rsStatus resp = (if e = None then 204 else 500) \<and>
             registry s' = seen(rqCluster r \<mapsto> (insert (keyFromObject gs)
               (fst (the (seen (rqCluster r)))), now + svExpire sv)))))"
  by (rule upload_outcome [OF assms])

definition failed_upload :: "response \<times> memory hub" where
  "failed_upload = ServeHTTP std_chi demo_server 10 (upload_request ''beijing'' ''B'')
     (NewClusterStore, empty_memory\<lparr>memFaults := [None, Some ''timeout'']\<rparr>)"

theorem upload_functional_witness:
  "rsStatus (fst failed_upload) = 500 \<and>
   registry (fst (snd failed_upload)) ''beijing'' = Some ({nginx_key}, 310)"
proof -
  let ?r = "upload_request ''beijing'' ''B''"
  have run: "ServeHTTP std_chi demo_server 10 ?r
      (NewClusterStore, empty_memory\<lparr>memFaults := [None, Some ''timeout'']\<rparr>) =
      (fst failed_upload, fst (snd failed_upload), snd (snd failed_upload))"
    by (simp add: failed_upload_def)
  have post: "rqMethod ?r = ''POST''" "rqPath ?r = PathGlobalServices" "rqCluster ?r \<noteq> []"
    "rqBody ?r = Inr ''B''" "rqCluster ?r = ''beijing''"
    by (simp_all add: upload_request_def)
  have body: "unmarshalService (svJson demo_server) ''B'' = Inr beijing" "svExpire demo_server = 300"
    by (simp_all add: demo_server_def demo_json_def)
  have valid: "\<not> upload_invalid beijing" "keyFromObject beijing = nginx_key" by code_simp+
  have status: "rsStatus (fst failed_upload) = 500" by code_simp
  show ?thesis
    using upload_functional [OF store_inv_New_empty chi_ok_std post(1-3) run] post(4,5) body valid status
    by (auto simp: Let_def)
qed

text \<open>
  The merge goes by the cluster name in the body, the bookkeeping by the
  header.  A cluster can replace the endpoints of another one, whose registration is not
  touched: endpoints put in the name of a cluster that never reports have nobody to expire
  them.
\<close>

theorem upload_trusts_body:
  assumes "kube_api K objs nss" and "store_inv s" and "chi_ok chi"
    and "rqMethod r = ''POST''" and "rqPath r = PathGlobalServices" and "rqCluster r \<noteq> []"
    and "rqBody r = Inr b" and "unmarshalService js b = Inr gs" and "own_endpoints gs"
    and "omClusterName (gsMeta gs) \<noteq> rqCluster r"
    and "ServeHTTP chi (hub_server K a d js) now r (s, w) = (resp, s', w')" and "rsStatus resp = 204"
  shows "cluster_view objs w' (keyFromObject gs) (omClusterName (gsMeta gs)) = endpoints_of gs \<and>
    registry s' (omClusterName (gsMeta gs)) = registry s (omClusterName (gsMeta gs))"
proof -
  note all = upload_outcome [OF assms(2-6,11), unfolded Let_def hub_server_fields]
  then have valid: "\<not> upload_invalid gs" using assms(7,8,12) by auto
  from all assms(7,8) valid obtain e where
    call: "CreateOrMergeGlobalService (NewGlobalServiceManager K a) gs w = (e, w')"
    and e: "rsStatus resp = (if e = None then 204 else 500)"
    and reg: "registry s' (omClusterName (gsMeta gs)) = registry s (omClusterName (gsMeta gs))"
    using assms(10) by (simp del: fun_upd_apply) (metis fun_upd_other)
  from e assms(12) have "e = None" by (auto split: if_splits)
  then show ?thesis
    using kube_api.merge_contract_ok [OF assms(1)] call assms(9) reg by (simp add: set_view_apply)
qed

theorem upload_trusts_body_witness:
  "let (resp, s, w) = ServeHTTP std_chi demo_server 10 (upload_request ''beijing'' ''S'') (NewClusterStore, empty_memory)
   in cluster_view mem_objs w nginx_key ''shanghai'' = endpoints_of shanghai \<and> registry s ''shanghai'' = None"
proof -
  let ?r = "upload_request ''beijing'' ''S''"
  obtain resp s w where run: "ServeHTTP std_chi demo_server 10 ?r (NewClusterStore, empty_memory) = (resp, s, w)"
    by (metis prod_cases3)
  have "rsStatus (fst (ServeHTTP std_chi demo_server 10 ?r (NewClusterStore, empty_memory))) = 204" by code_simp
  then have status: "rsStatus resp = 204" by (simp add: run)
  have post: "rqMethod ?r = ''POST''" "rqPath ?r = PathGlobalServices" "rqCluster ?r \<noteq> []" "rqBody ?r = Inr ''S''"
    by (simp_all add: upload_request_def)
  have "beijing \<noteq> shanghai" by (simp add: samples)
  then have body: "unmarshalService demo_json ''S'' = Inr shanghai" by (simp add: demo_json_def)
  have own: "own_endpoints shanghai" "omClusterName (gsMeta shanghai) \<noteq> rqCluster ?r"
    "omClusterName (gsMeta shanghai) = ''shanghai''" "keyFromObject shanghai = nginx_key"
    by (simp_all add: own_endpoints_def samples upload_request_def)
  show ?thesis
    using upload_trusts_body [OF mem.kube_api_axioms store_inv_New_empty chi_ok_std post body own(1,2)
        run [unfolded demo_server_def] status] own(3,4)
    by (simp add: run)
qed

text \<open>
  A valid upload without the header is merged and recorded for
  a cluster with the empty name, whose time of expiry nothing ever sets: while it is 0 the
  cleaner does not see the cluster, at no time.
\<close>

theorem unnamed_cluster_never_expires:
  assumes "store_inv s" and "chi_ok chi" and "rqMethod r = ''POST''" and "rqPath r = PathGlobalServices"
    and "rqCluster r = []" and "uploads sv r gs" and "registry s [] = None"
    and "ServeHTTP chi sv now r (s, w) = (resp, s', w')" and "range_order ord"
  shows "registry s' [] = Some ({keyFromObject gs}, 0) \<and>
    (\<forall>clock. \<forall>p \<in> set (GetExpiredClusters ord clock s'). Name s' p \<noteq> [])"
proof -
  have "s' = record_upload r gs s"
    using assms(2-6,8) by (auto simp: ServeHTTP_def updateClusterExpireTime_def getClusterName_def
        chi_ok_def UploadGlobalService_def uploads_def split: prod.splits option.splits)
  then have inv: "store_inv s'" and reg: "registry s' [] = Some ({keyFromObject gs}, 0)"
    using store_inv_record_upload [OF assms(1)] registry_record_upload [OF assms(1)] assms(5,7)
    by simp_all
  have "Name s' p \<noteq> []" if expired: "p \<in> set (GetExpiredClusters ord clock s')" for p clock
  proof
    assume none: "Name s' p = []"
    obtain n ks t where "points_to s' p n" "Name s' p = n" "registry s' n = Some (ks, t)" "t \<noteq> 0"
      using iffD1 [OF GetExpiredClusters_mem [OF inv assms(9)] expired] Name_points_to [OF inv] by blast
    then show False using reg none by simp
  qed
  then show ?thesis using reg by simp
qed

theorem unnamed_cluster_never_expires_witness:
  "let (resp, s, w) = ServeHTTP std_chi demo_server 10 (upload_request [] ''B'') (NewClusterStore, empty_memory)
   in GetExpiredClusters rev (\<lambda>_. 1000000) s = [] \<and> registry s [] = Some ({nginx_key}, 0)"
proof -
  let ?r = "upload_request [] ''B''"
  obtain resp s w where run: "ServeHTTP std_chi demo_server 10 ?r (NewClusterStore, empty_memory) = (resp, s, w)"
    by (metis prod_cases3)
  have post: "rqMethod ?r = ''POST''" "rqPath ?r = PathGlobalServices" "rqCluster ?r = []"
    by (simp_all add: upload_request_def)
  have valid: "\<not> upload_invalid beijing" and key: "keyFromObject beijing = nginx_key" by code_simp+
  have up: "uploads demo_server ?r beijing"
    using valid by (simp add: uploads_def upload_request_def demo_server_def demo_json_def)
  have "GetExpiredClusters rev (\<lambda>_. 1000000)
      (fst (snd (ServeHTTP std_chi demo_server 10 ?r (NewClusterStore, empty_memory)))) = []" by code_simp
  then show ?thesis
    using unnamed_cluster_never_expires [OF store_inv_New_empty chi_ok_std post up _ run range_order_rev] key
    by (simp add: run)
qed

text \<open>
  C32 (GetAll_functional): the download answers with the text of every global service in the hub,
  once each, with its specification, its name, its namespace and its resource version and with
  nothing else of its metadata; it changes no service.
\<close>

theorem GetAll_functional:
  assumes "kube_api K objs nss" and "kListGS K w = (Inr items, w1)" and "marshalServices js (map clean_meta items) = Inr data"
  shows "GetAllGlobalServices (hub_server K a d js) r (s, w) =
      (\<lparr>rsStatus = 200, rsContentType = ''application/json'', rsBody = data\<rparr>, s, w1) \<and>
    distinct (map keyFromObject (map clean_meta items)) \<and>
    (\<forall>k. map_of (map (\<lambda>g. (keyFromObject g, (gsSpec g, omResourceVersion (gsMeta g), omLabels (gsMeta g))))
            (map clean_meta items)) k =
         map_option (\<lambda>g. (gsSpec g, omResourceVersion (gsMeta g), None)) (objs w k)) \<and> objs w1 = objs w"
proof (intro conjI allI)
  note lst = kube_api.list_ok [OF assms(1,2)]
  have clean: "keyFromObject (clean_meta g) = keyFromObject g" "gsSpec (clean_meta g) = gsSpec g"
    "omResourceVersion (gsMeta (clean_meta g)) = omResourceVersion (gsMeta g)"
    "omLabels (gsMeta (clean_meta g)) = None" for g
    by (simp_all add: clean_meta_def keyFromObject_def zero_meta_def)
  show "GetAllGlobalServices (hub_server K a d js) r (s, w) =
      (\<lparr>rsStatus = 200, rsContentType = ''application/json'', rsBody = data\<rparr>, s, w1)"
    using assms(2,3) by (simp add: GetAllGlobalServices_def http_status)
  show dist: "distinct (map keyFromObject (map clean_meta items))"
    using lst by (simp add: comp_def clean)
  show "objs w1 = objs w" by (rule kube_api.list_frame [OF assms(1,2)])
  fix k
  let ?entry = "\<lambda>g. (keyFromObject g, (gsSpec g, omResourceVersion (gsMeta g), omLabels (gsMeta g)))"
  have keys: "map fst (map ?entry (map clean_meta items)) = map keyFromObject (map clean_meta items)"
    by simp
  show "map_of (map ?entry (map clean_meta items)) k =
      map_option (\<lambda>g. (gsSpec g, omResourceVersion (gsMeta g), None)) (objs w k)"
  proof (cases "objs w k")
    case None
    then have "k \<notin> keyFromObject ` set items" using lst by auto
    then show ?thesis using None by (simp add: map_of_eq_None_iff image_image clean)
  next
    case (Some g)
    then have "keyFromObject g = k" by (rule kube_api.keyed [OF assms(1)])
    with Some lst have "g \<in> set items" by simp
    then have "(k, (gsSpec g, omResourceVersion (gsMeta g), None)) \<in> set (map ?entry (map clean_meta items))"
      using \<open>keyFromObject g = k\<close> by (auto simp: clean intro!: rev_image_eqI)
    from map_of_is_SomeI [OF dist [folded keys] this] show ?thesis using Some by simp
  qed
qed

theorem GetAll_functional_witness:
  "GetAllGlobalServices demo_server (upload_request [] []) (NewClusterStore, demo_world2) =
     (\<lparr>rsStatus = 200, rsContentType = ''application/json'', rsBody = ''L2''\<rparr>, NewClusterStore, demo_world2)"
proof -
  have lst: "kListGS mem_kube demo_world2 = (Inr [the (mem_objs demo_world2 nginx_key)], demo_world2)" by code_simp
  have data: "marshalServices demo_json (map clean_meta [the (mem_objs demo_world2 nginx_key)]) = Inr ''L2''"
    by code_simp
  show ?thesis
    using GetAll_functional [OF mem.kube_api_axioms lst data] by (simp add: demo_server_def)
qed

end
