(* ===== verification/Cleaner.thy ===== *)
theory Cleaner
  imports ApiServer
begin

text \<open>
  \<open>pkg/service-hub/cleaner/cluster_cleaner.go\<close>: the runnable that, once per interval, revokes the
  endpoints of the clusters that stopped reporting.  A sweep holds no lock from one step to the
  next, so requests are served and time passes between any two of them: a sweep takes a schedule
  that says, for each point at which others can run, what they do to the hub and what the
  clock then reads.
\<close>

section \<open>Operations\<close>

type_synonym 'w schedule = "nat \<Rightarrow> 'w hub \<Rightarrow> time \<times> 'w hub"
type_synonym call_log = "(string \<times> ObjectKey \<times> go_error option) list"

text \<open>\<open>revokeGlobalService\<close>: the call for a key; its error is logged.\<close>

definition revokeServiceOf ::
  "(string \<Rightarrow> string \<Rightarrow> string \<Rightarrow> 'w \<Rightarrow> go_error option \<times> 'w) \<Rightarrow> string \<Rightarrow> ObjectKey \<Rightarrow> 'w \<Rightarrow> go_error option \<times> 'w" where
  "revokeServiceOf rv clusterName key w = rv clusterName (okNamespace key) (okName key) w"

declare revokeServiceOf_def [simp]

text \<open>
  The inner loop over the keys of one cluster.  An error of the revocation is logged, not
  returned; the log of the calls is what the model adds.
\<close>

fun clean_keys ::
  "'w schedule \<Rightarrow> (string \<Rightarrow> string \<Rightarrow> string \<Rightarrow> 'w \<Rightarrow> go_error option \<times> 'w) \<Rightarrow> nat \<Rightarrow> ptr
     \<Rightarrow> ObjectKey list \<Rightarrow> 'w hub \<Rightarrow> call_log \<times> nat \<times> 'w hub" where
  "clean_keys f rv i p [] h = ([], i, h)"
| "clean_keys f rv i p (key # keys) h =
     (case f i h of (now, s1, w1) \<Rightarrow>
        if \<not> IsExpired now s1 p then ([], Suc i, s1, w1)
        else
          (case f (Suc i) (s1, w1) of (_, s2, w2) \<Rightarrow>
             case revokeServiceOf rv (Name s2 p) key w2 of (r, w3) \<Rightarrow>
               case clean_keys f rv (i + 2) p keys (s2, w3) of (log, j, h') \<Rightarrow>
                 ((Name s2 p, key, r) # log, j, h')))"

type_synonym key_order = "(ObjectKey \<times> unit) list \<Rightarrow> (ObjectKey \<times> unit) list"

fun clean_clusters ::
  "key_order \<Rightarrow> 'w schedule \<Rightarrow> (string \<Rightarrow> string \<Rightarrow> string \<Rightarrow> 'w \<Rightarrow> go_error option \<times> 'w) \<Rightarrow> nat
     \<Rightarrow> ptr list \<Rightarrow> 'w hub \<Rightarrow> call_log \<times> nat \<times> 'w hub" where
  "clean_clusters ord f rv i [] h = ([], i, h)"
| "clean_clusters ord f rv i (p # ps) h =
     (case f i h of (_, s1, w1) \<Rightarrow>
        case clean_keys f rv (Suc i) p (GetAllServiceKeys ord s1 p) (s1, w1) of (log, j, h1) \<Rightarrow>
          case clean_clusters ord f rv j ps h1 of (log', m, h2) \<Rightarrow> (log @ log', m, h2))"

definition cleanExpiredClusterEndpoints ::
  "((string \<times> ptr) list \<Rightarrow> (string \<times> ptr) list) \<Rightarrow> (ptr \<Rightarrow> time) \<Rightarrow> key_order \<Rightarrow> 'w schedule
     \<Rightarrow> (string \<Rightarrow> string \<Rightarrow> string \<Rightarrow> 'w \<Rightarrow> go_error option \<times> 'w) \<Rightarrow> 'w hub \<Rightarrow> call_log \<times> nat \<times> 'w hub" where
  "cleanExpiredClusterEndpoints cord now ord f rv h =
     clean_clusters ord f rv 0 (GetExpiredClusters cord now (fst h)) h"

text \<open>
  \<open>Start\<close>: a sweep for every tick until the context is done.  A tick says what others did to the hub
  before it and in which orders the maps are read; \<open>NewTicker\<close> panics on an interval that is not
  positive.
\<close>

record 'w clusterCleaner =
  ccInterval :: time
  ccRevoke :: "string \<Rightarrow> string \<Rightarrow> string \<Rightarrow> 'w \<Rightarrow> go_error option \<times> 'w"

record 'w CleanerConfig =
  ncManager :: "'w kube"
  ncInterval :: time
  ncRequestTimeout :: time
  ncRevokeGlobalService :: "string \<Rightarrow> string \<Rightarrow> string \<Rightarrow> 'w \<Rightarrow> go_error option \<times> 'w"

text \<open>\<open>AddToManager\<close>: the cleaner it adds; the store it sweeps is the one of the process.\<close>

definition newClusterCleaner :: "'w CleanerConfig \<Rightarrow> 'w clusterCleaner" where
  "newClusterCleaner cfg = \<lparr>ccInterval = ncInterval cfg, ccRevoke = ncRevokeGlobalService cfg\<rparr>"

record 'w tick =
  tkBefore :: "'w hub \<Rightarrow> 'w hub"
  tkClusters :: "(string \<times> ptr) list \<Rightarrow> (string \<times> ptr) list"
  tkNow :: "ptr \<Rightarrow> time"
  tkKeys :: key_order
  tkSchedule :: "'w schedule"

fun clean_ticks :: "'w clusterCleaner \<Rightarrow> 'w tick list \<Rightarrow> 'w hub \<Rightarrow> call_log \<times> 'w hub" where
  "clean_ticks cl [] h = ([], h)"
| "clean_ticks cl (t # ts) h =
     (case cleanExpiredClusterEndpoints (tkClusters t) (tkNow t) (tkKeys t) (tkSchedule t) (ccRevoke cl)
             (tkBefore t h) of
        (log, _, h1) \<Rightarrow> (case clean_ticks cl ts h1 of (log', h2) \<Rightarrow> (log @ log', h2)))"

definition Start :: "'w clusterCleaner \<Rightarrow> 'w tick list \<Rightarrow> 'w hub \<Rightarrow> (call_log \<times> 'w hub) outcome" where
  "Start cl ticks h = (if ccInterval cl \<le> 0 then Panicked else Returned (clean_ticks cl ticks h))"

section \<open>A sweep nobody disturbs\<close>

definition quiet :: "(nat \<Rightarrow> time) \<Rightarrow> 'w schedule" where
  "quiet clock i h = (clock i, h)"

lemma quiet_apply [simp]: "quiet clock i (s, w) = (clock i, s, w)"
  by (simp add: quiet_def)

text \<open>What a list of revocations does to the view of the hub, whichever of them fail.\<close>

definition log_effect ::
  "call_log \<Rightarrow> (ObjectKey \<Rightarrow> string \<Rightarrow> Endpoint list) \<Rightarrow> (ObjectKey \<Rightarrow> string \<Rightarrow> Endpoint list) \<Rightarrow> bool" where
  "log_effect log v v' \<longleftrightarrow> (\<forall>k c. (v' k c = v k c \<or> v' k c = []) \<and>
     ((\<forall>r. (c, k, r) \<notin> set log) \<longrightarrow> v' k c = v k c) \<and> ((c, k, None) \<in> set log \<longrightarrow> v' k c = []))"

lemma log_effect_Nil [simp]: "log_effect [] v v"
  by (simp add: log_effect_def)

lemma log_effect_append:
  "log_effect l1 v v1 \<Longrightarrow> log_effect l2 v1 v2 \<Longrightarrow> log_effect (l1 @ l2) v v2"
  unfolding log_effect_def set_append by (metis Un_iff)

context global_service_manager begin

lemma log_effect_call:
  assumes "revoke c ns n w = (r, w')"
  shows "log_effect [(c, ObjectKey ns n, r)] (view w) (view w')"
proof (cases r)
  case None
  then have "view w' = set_view (ObjectKey ns n) c [] (view w)" using revoke_ok assms by simp
  then show ?thesis using None by (auto simp: log_effect_def set_view_apply)
next
  case (Some e)
  then show ?thesis using revoke_atomic [OF assms] by (auto simp: log_effect_def set_view_apply)
qed

lemma clean_keys_quiet:
  assumes "clean_keys (quiet clock) revoke i p keys (s, w) = (log, j, s', w')"
  shows "s' = s \<and> i \<le> j \<and> log_effect log (view w) (view w') \<and>
    (\<forall>(c, k, r) \<in> set log. c = Name s p \<and> k \<in> set keys) \<and>
    ((\<forall>m \<ge> i. IsExpired (clock m) s p) \<longrightarrow> map (fst \<circ> snd) log = keys)"
  using assms
proof (induction keys arbitrary: i w log)
  case Nil
  then show ?case by simp
next
  case (Cons key keys)
  show ?case
  proof (cases "IsExpired (clock i) s p")
    case False
    then show ?thesis using Cons.prems by auto
  next
    case True
    obtain r w3 where call: "revoke (Name s p) (okNamespace key) (okName key) w = (r, w3)" by force
    obtain log1 where rest: "clean_keys (quiet clock) revoke (i + 2) p keys (s, w3) = (log1, j, s', w')"
      and log: "log = (Name s p, key, r) # log1"
      using Cons.prems True call by (auto split: prod.splits)
    have "log_effect [(Name s p, key, r)] (view w) (view w3)"
      using log_effect_call [OF call] by simp
    from log_effect_append [OF this] Cons.IH [OF rest] show ?thesis
      unfolding log by (auto simp: comp_def)
  qed
qed

lemma clean_clusters_quiet:
  assumes "clean_clusters ord (quiet clock) revoke i ps (s, w) = (log, j, s', w')"
  shows "s' = s \<and> log_effect log (view w) (view w') \<and>
    (\<forall>(c, k, r) \<in> set log. \<exists>p \<in> set ps. c = Name s p \<and> k \<in> set (GetAllServiceKeys ord s p)) \<and>
    (\<forall>p \<in> set ps. (\<forall>m. IsExpired (clock m) s p) \<longrightarrow>
      (\<forall>k \<in> set (GetAllServiceKeys ord s p). \<exists>r. (Name s p, k, r) \<in> set log))"
  using assms
proof (induction ps arbitrary: i w log)
  case Nil
  then show ?case by simp
next
  case (Cons p ps)
  let ?keys = "GetAllServiceKeys ord s p"
  obtain l1 i1 s1 w1 where one: "clean_keys (quiet clock) revoke (Suc i) p ?keys (s, w) = (l1, i1, s1, w1)"
    by (metis prod_cases4)
  note 1 = clean_keys_quiet [OF one]
  then obtain l2 where rest: "clean_clusters ord (quiet clock) revoke i1 ps (s, w1) = (l2, j, s', w')"
    and log: "log = l1 @ l2"
    using Cons.prems one by (auto split: prod.splits)
  note 2 = Cons.IH [OF rest]
  have mem1: "\<forall>(c, k, r) \<in> set l1. c = Name s p \<and> k \<in> set ?keys"
    using 1 by (elim conjE) assumption
  have mem2: "\<forall>(c, k, r) \<in> set l2. \<exists>q \<in> set ps. c = Name s q \<and> k \<in> set (GetAllServiceKeys ord s q)"
    using 2 by (elim conjE) assumption
  have here: "\<exists>r. (Name s p, k, r) \<in> set l1" if "\<forall>m. IsExpired (clock m) s p" "k \<in> set ?keys" for k
  proof -
    have keys: "map (fst \<circ> snd) l1 = ?keys" using 1 that(1) by blast
    have "k \<in> set (map (fst \<circ> snd) l1)" unfolding keys by (rule that(2))
    then obtain c r where mem: "(c, k, r) \<in> set l1" by auto
    then have "c = Name s p" using mem1 by fastforce
    then show ?thesis using mem by blast
  qed
  show ?case
    unfolding log
  proof (intro conjI)
    show "s' = s" using 2 by blast
    show "log_effect (l1 @ l2) (view w) (view w')"
      using log_effect_append 1 2 by blast
    show "\<forall>(c, k, r) \<in> set (l1 @ l2). \<exists>q \<in> set (p # ps).
        c = Name s q \<and> k \<in> set (GetAllServiceKeys ord s q)"
      using mem1 mem2 by fastforce
    show "\<forall>q \<in> set (p # ps). (\<forall>m. IsExpired (clock m) s q) \<longrightarrow>
        (\<forall>k \<in> set (GetAllServiceKeys ord s q). \<exists>r. (Name s q, k, r) \<in> set (l1 @ l2))"
      using 2 here by (simp add: bex_Un) blast
  qed
qed

end

lemma GetAllServiceKeys_registry:
  assumes "store_inv s" and "points_to s p n" and "range_order ord"
  shows "registry s n = Some (set (GetAllServiceKeys ord s p), ExpireTime s p)"
  using points_to_heap [OF assms(1,2)]
  by (metis ExpireTime_def GetAllServiceKeys_def option.simps(5) set_range_keys [OF assms(3)])

context kube_api begin

lemma sweep_quiet:
  assumes inv: "store_inv s" and ord: "range_order cord" "range_order ord"
    and now: "\<forall>p. T0 \<le> now p \<and> now p \<le> T1" and clock: "\<forall>i. T0 \<le> clock i"
    and run: "cleanExpiredClusterEndpoints cord now ord (quiet clock)
      (RevokeGlobalService (NewGlobalServiceManager K a)) (s, w) = (log, j, s', w')"
  shows "s' = s" and "log_effect log (cluster_view objs w) (cluster_view objs w')"
    and "\<forall>(c, k, r) \<in> set log. \<exists>ks t. registry s c = Some (ks, t) \<and> k \<in> ks \<and> t \<noteq> 0 \<and> t < T1"
    and "registry s c = Some (ks, t) \<Longrightarrow> k \<in> ks \<Longrightarrow> t \<noteq> 0 \<Longrightarrow> t < T0 \<Longrightarrow> \<exists>r. (c, k, r) \<in> set log"
proof -
  have "clean_clusters ord (quiet clock) (RevokeGlobalService (NewGlobalServiceManager K a)) 0
      (GetExpiredClusters cord now s) (s, w) = (log, j, s', w')"
    using run by (simp add: cleanExpiredClusterEndpoints_def)
  note all = gsm.clean_clusters_quiet [OF this]
  note expired = GetExpiredClusters_mem [OF inv ord(1), of _ now]
  note keys = GetAllServiceKeys_registry [OF inv _ ord(2)]
  show "s' = s" using all by blast
  show "log_effect log (cluster_view objs w) (cluster_view objs w')" using all by blast
  show "\<forall>(c, k, r) \<in> set log. \<exists>ks t. registry s c = Some (ks, t) \<and> k \<in> ks \<and> t \<noteq> 0 \<and> t < T1"
  proof clarify
    fix c k r
    assume "(c, k, r) \<in> set log"
    then obtain p where p: "p \<in> set (GetExpiredClusters cord now s)" and c: "c = Name s p"
      and k: "k \<in> set (GetAllServiceKeys ord s p)"
      using all by fastforce
    from p expired obtain n ks t where n: "points_to s p n" and reg: "registry s n = Some (ks, t)"
      and t: "t \<noteq> 0" "t < now p" by blast
    have "c = n" using c Name_points_to [OF inv n] by simp
    moreover have "k \<in> ks" using k reg keys [OF n] by simp
    moreover have "t < T1" using t(2) now by (meson order_less_le_trans)
    ultimately show "\<exists>ks t. registry s c = Some (ks, t) \<and> k \<in> ks \<and> t \<noteq> 0 \<and> t < T1"
      using reg t(1) by blast
  qed
  assume reg: "registry s c = Some (ks, t)" and k: "k \<in> ks" and t: "t \<noteq> 0" "t < T0"
  then obtain p where p: "points_to s p c"
    using registry_defined [OF inv, of c] by (cases "map_of (csClusters s) c") (auto simp: points_to_def)
  have "t < now p" using t(2) now by (meson order_less_le_trans)
  with p reg t(1) have mem: "p \<in> set (GetExpiredClusters cord now s)" unfolding expired by blast
  have still: "\<forall>m. IsExpired (clock m) s p"
    using IsExpired_registry [OF inv p] reg t clock by (metis order_less_le_trans)
  have "k \<in> set (GetAllServiceKeys ord s p)" using k reg keys [OF p] by simp
  then have "\<exists>r. (Name s p, k, r) \<in> set log" using all mem still by blast
  then show "\<exists>r. (c, k, r) \<in> set log" by (simp add: Name_points_to [OF inv p])
qed

text \<open>What is not recorded is not found.\<close>

lemma sweep_unrecorded:
  assumes inv: "store_inv s" and ord: "range_order cord" "range_order ord"
    and run: "cleanExpiredClusterEndpoints cord now ord (quiet clock)
      (RevokeGlobalService (NewGlobalServiceManager K a)) (s, w) = (log, j, s', w')"
    and reg: "registry s c = Some (ks, t)" and k: "k \<notin> ks"
  shows "s' = s \<and> (\<forall>r. (c, k, r) \<notin> set log) \<and> cluster_view objs w' k c = cluster_view objs w k c"
proof -
  have "clean_clusters ord (quiet clock) (RevokeGlobalService (NewGlobalServiceManager K a)) 0
      (GetExpiredClusters cord now s) (s, w) = (log, j, s', w')"
    using run by (simp add: cleanExpiredClusterEndpoints_def)
  note all = gsm.clean_clusters_quiet [OF this]
  have none: "(c, k, r) \<notin> set log" for r
  proof
    assume "(c, k, r) \<in> set log"
    then obtain p where p: "p \<in> set (GetExpiredClusters cord now s)" and c: "c = Name s p"
      and mem: "k \<in> set (GetAllServiceKeys ord s p)"
      using all by fastforce
    obtain n where n: "points_to s p n" using p GetExpiredClusters_mem [OF inv ord(1)] by blast
    have "c = n" using c Name_points_to [OF inv n] by simp
    then show False using mem k reg GetAllServiceKeys_registry [OF inv n ord(2)] by simp
  qed
  then show ?thesis using all unfolding log_effect_def by blast
qed

lemma sweep_clears:
  assumes inv: "store_inv s" and ord: "range_order cord" "range_order ord"
    and now: "\<forall>p. T0 \<le> now p \<and> now p \<le> T1" and clock: "\<forall>i. T0 \<le> clock i"
    and run: "cleanExpiredClusterEndpoints cord now ord (quiet clock)
      (RevokeGlobalService (NewGlobalServiceManager K a)) (s, w) = (log, j, s', w')"
    and rec: "recorded (cluster_view objs) me s w" and ok: "\<forall>(c, k, r) \<in> set log. r = None"
    and reg: "registry s c = Some (ks, t)"
  shows "(c \<noteq> me \<and> t \<noteq> 0 \<and> t < T0 \<longrightarrow> (\<forall>k. cluster_view objs w' k c = [])) \<and>
    (T1 \<le> t \<longrightarrow> (\<forall>k. cluster_view objs w' k c = cluster_view objs w k c))"
proof (intro conjI impI allI)
  note sweep = sweep_quiet [OF assms(1-6)]
  fix k
  assume c: "c \<noteq> me \<and> t \<noteq> 0 \<and> t < T0"
  show "cluster_view objs w' k c = []"
  proof (cases "cluster_view objs w k c = []")
    case True
    then show ?thesis using sweep(2) unfolding log_effect_def by metis
  next
    case False
    then have "k \<in> ks" using recordedD [OF assms(7) False] c assms(9) by simp
    then obtain r where "(c, k, r) \<in> set log" using sweep(4) [OF assms(9)] c by blast
    then have "(c, k, None) \<in> set log" using assms(8) by fastforce
    then show ?thesis using sweep(2) unfolding log_effect_def by blast
  qed
next
  note sweep = sweep_quiet [OF assms(1-6)]
  fix k
  assume "T1 \<le> t"
  then have "\<forall>r. (c, k, r) \<notin> set log" using sweep(3) assms(9) by fastforce
  then show "cluster_view objs w' k c = cluster_view objs w k c"
    using sweep(2) unfolding log_effect_def by blast
qed

end

section \<open>Properties\<close>

abbreviation hub_sweep ::
  "'w kube \<Rightarrow> ((string \<times> ptr) list \<Rightarrow> (string \<times> ptr) list) \<Rightarrow> (ptr \<Rightarrow> time) \<Rightarrow> key_order \<Rightarrow> (nat \<Rightarrow> time)
     \<Rightarrow> 'w hub \<Rightarrow> call_log \<times> nat \<times> 'w hub" where
  "hub_sweep K cord now ord clock \<equiv> cleanExpiredClusterEndpoints cord now ord (quiet clock)
     (RevokeGlobalService (NewGlobalServiceManager K True))"

definition served_hub :: "memory hub" where
  "served_hub = snd (serve_all std_chi demo_server
     [(10, upload_request ''beijing'' ''B''), (20, upload_request ''shanghai'' ''S'')] (NewClusterStore, empty_memory))"

text \<open>
  In a sweep during which the clock reads between \<open>T0\<close> and \<open>T1\<close> and nobody
  else writes, the cleaner calls the revocation for every recorded service of every cluster
  that expired before \<open>T0\<close>, only for recorded services of clusters that expired before \<open>T1\<close>, and
  the hub changes by these calls alone; the registry stays as it is, so that the next sweep
  makes the same calls again.
\<close>

theorem cleaner_sweep_exact:
  assumes "kube_api K objs nss" and "store_inv s" and "range_order cord" and "range_order ord"
    and "\<forall>p. T0 \<le> now p \<and> now p \<le> T1" and "\<forall>i. T0 \<le> clock i"
    and "hub_sweep K cord now ord clock (s, w) = (log, j, s', w')"
  shows "s' = s \<and> log_effect log (cluster_view objs w) (cluster_view objs w') \<and>
    (\<forall>(c, k, r) \<in> set log. \<exists>ks t. registry s c = Some (ks, t) \<and> k \<in> ks \<and> t \<noteq> 0 \<and> t < T1) \<and>
    (\<forall>c ks t k. registry s c = Some (ks, t) \<and> k \<in> ks \<and> t \<noteq> 0 \<and> t < T0 \<longrightarrow> (\<exists>r. (c, k, r) \<in> set log))"
  using kube_api.sweep_quiet [OF assms] by blast

lemma served_hub_inv:
  "store_inv (fst served_hub)" "recorded (cluster_view mem_objs) ''cloud'' (fst served_hub) (snd served_hub)"
proof -
  let ?rqs = "[(10 :: time, upload_request ''beijing'' ''B''), (20, upload_request ''shanghai'' ''S'')]"
  have "\<forall>(now, r) \<in> set ?rqs. honest demo_server r \<and> now + 300 \<noteq> 0"
    using demo_requests_honest by (simp add: demo_requests_def)
  moreover have "recorded (cluster_view mem_objs) ''cloud'' NewClusterStore empty_memory"
    by (simp add: recorded_def cluster_view_def mem_objs_def mem_lookup_def empty_memory_def)
  moreover have "serve_all std_chi demo_server ?rqs (NewClusterStore, empty_memory) =
      (fst (serve_all std_chi demo_server ?rqs (NewClusterStore, empty_memory)), fst served_hub, snd served_hub)"
    by (simp add: served_hub_def)
  ultimately have "store_inv (fst served_hub) \<and>
      recorded (cluster_view mem_objs) ''cloud'' (fst served_hub) (snd served_hub)"
    by (intro mem.api_recorded [where a = True and sv = demo_server and chi = std_chi and rqs = ?rqs
          and s = NewClusterStore and w = empty_memory])
      (simp_all only: demo_server_def hub_server_fields store_inv_New_empty)
  then show "store_inv (fst served_hub)" "recorded (cluster_view mem_objs) ''cloud'' (fst served_hub) (snd served_hub)"
    by simp_all
qed

definition demo_sweep :: "call_log \<times> nat \<times> memory hub" where
  "demo_sweep = hub_sweep mem_kube rev (\<lambda>_. 315) rev (\<lambda>_. 315) served_hub"

lemma demo_sweep_run:
  "hub_sweep mem_kube rev (\<lambda>_. 315) rev (\<lambda>_. 315) (fst served_hub, snd served_hub) =
     (fst demo_sweep, fst (snd demo_sweep), fst (snd (snd demo_sweep)), snd (snd (snd demo_sweep)))"
  by (simp add: demo_sweep_def)

theorem cleaner_sweep_exact_witness:
  "fst demo_sweep = [(''beijing'', nginx_key, None)] \<and>
   cluster_view mem_objs (snd (snd (snd demo_sweep))) nginx_key ''beijing'' = []"
proof -
  have log: "fst demo_sweep = [(''beijing'', nginx_key, None)]" by code_simp
  have "log_effect (fst demo_sweep) (cluster_view mem_objs (snd served_hub))
      (cluster_view mem_objs (snd (snd (snd demo_sweep))))"
    using cleaner_sweep_exact [OF mem.kube_api_axioms served_hub_inv(1) range_order_rev range_order_rev
        _ _ demo_sweep_run, of 315 315] by simp
  then show ?thesis by (simp add: log log_effect_def)
qed

text \<open>
  C10 (cleaner_clears_lost_clusters): with the invariant the API keeps, a sweep in which no revocation
  fails leaves no endpoint anywhere of a cluster that expired before it, and the endpoints of a
  cluster that is not due by the end of it, and of the hub's own, as they were.
\<close>

theorem cleaner_clears_lost_clusters:
  assumes "kube_api K objs nss" and "store_inv s" and "range_order cord" and "range_order ord"
    and "\<forall>p. T0 \<le> now p \<and> now p \<le> T1" and "\<forall>i. T0 \<le> clock i"
    and "hub_sweep K cord now ord clock (s, w) = (log, j, s', w')"
    and "recorded (cluster_view objs) me s w" and "\<forall>(c, k, r) \<in> set log. r = None"
    and "registry s c = Some (ks, t)"
  shows "(c \<noteq> me \<and> t \<noteq> 0 \<and> t < T0 \<longrightarrow> (\<forall>k. cluster_view objs w' k c = [])) \<and>
    (T1 \<le> t \<longrightarrow> (\<forall>k. cluster_view objs w' k c = cluster_view objs w k c))"
  using kube_api.sweep_clears [OF assms] by blast

theorem cleaner_clears_lost_clusters_witness:
  "\<forall>k. cluster_view mem_objs (snd (snd (snd demo_sweep))) k ''beijing'' = []"
proof -
  have log: "\<forall>(c, k, r) \<in> set (fst demo_sweep). r = None" by code_simp
  have "map_of (csClusters (fst served_hub)) ''beijing'' = Some 0" by code_simp
  then have "points_to (fst served_hub) 0 ''beijing''" by (simp add: points_to_def)
  from GetAllServiceKeys_registry [OF served_hub_inv(1) this range_order_rev]
  obtain ks where "registry (fst served_hub) ''beijing'' = Some (ks, ExpireTime (fst served_hub) 0)" by blast
  moreover have "ExpireTime (fst served_hub) 0 = 310" by code_simp
  ultimately have reg: "registry (fst served_hub) ''beijing'' = Some (ks, 310)" by simp
  show ?thesis
    using cleaner_clears_lost_clusters [OF mem.kube_api_axioms served_hub_inv(1) range_order_rev range_order_rev
        _ _ demo_sweep_run served_hub_inv(2) log reg, of 315 315] by simp
qed

text \<open>An upload that succeeds: what it puts in the hub, and its record, at the pointer the cluster has.\<close>

lemma points_to_record_upload: "points_to s p c \<Longrightarrow> points_to (record_upload r gs s) p c"
  by (auto simp: record_upload_def cluster_updates split: prod.splits dest: points_to_New_mono)

lemma UploadGlobalService_points_to:
  "points_to s p c \<Longrightarrow> UploadGlobalService sv r (s, w) = (resp, s', w') \<Longrightarrow> points_to s' p c"
  by (auto simp: UploadGlobalService_def points_to_record_upload split: prod.splits sum.splits option.splits if_splits)

lemma ServeHTTP_points_to:
  assumes "points_to s p c" and "rqMethod r = ''POST''" and "rqPath r = PathGlobalServices" and "chi_ok chi"
    and "ServeHTTP chi sv now r (s, w) = (resp, s', w')"
  shows "points_to s' p c"
proof -
  obtain q s1 where new: "New (getClusterName r) s = (q, s1)" by force
  have "points_to (SetExpireTime q (now + svExpire sv) s1) p c"
    using points_to_New_mono [OF new assms(1)] by (simp add: cluster_updates)
  then show ?thesis
    using assms new UploadGlobalService_points_to
    by (auto simp: ServeHTTP_def updateClusterExpireTime_def chi_ok_def Let_def split: if_splits)
qed

context kube_api begin

lemma revoked_none:
  "RevokeGlobalService (NewGlobalServiceManager K a) c (okNamespace k) (okName k) w = (None, w') \<Longrightarrow>
     cluster_view objs w' k c = []"
  by (auto simp: set_view_apply dest: gsm.revoke_ok)

lemma upload_in_between:
  assumes inv: "store_inv s" and p: "points_to s p c" and chi: "chi_ok chi"
    and r: "rqMethod r = ''POST''" "rqPath r = PathGlobalServices" "rqCluster r = c" "c \<noteq> []"
    and up: "uploads (hub_server K a d js) r gs" and own: "own_endpoints gs" "omClusterName (gsMeta gs) = c"
    and run: "ServeHTTP chi (hub_server K a d js) now r (s, w) = (resp, s', w')"
    and ok: "rsStatus resp = StatusNoContent"
  shows "store_inv s' \<and> points_to s' p c \<and> cluster_view objs w' (keyFromObject gs) c = endpoints_of gs \<and>
    endpoints_of gs \<noteq> [] \<and> (\<exists>ks. registry s' c = Some (ks, now + d) \<and> keyFromObject gs \<in> ks)"
proof -
  obtain b where b: "rqBody r = Inr b" "unmarshalService js b = Inr gs" "\<not> upload_invalid gs"
    using up by (auto simp: uploads_def)
  note all = upload_outcome [OF inv chi r(1,2) _ run, unfolded Let_def b]
  have merged: "CreateOrMergeGlobalService (NewGlobalServiceManager K a) gs w = (None, w')"
    and reg: "\<exists>ks. registry s' c = Some (ks, now + d) \<and> keyFromObject gs \<in> ks"
    using all r b ok by (auto simp: http_status split: if_splits)
  have "store_inv s'"
    using api_effect [OF _ _ _ inv run] by (metis hub_server_fields(1-3))
  moreover have "cluster_view objs w' (keyFromObject gs) c = endpoints_of gs"
    using gsm.merge_ok [OF merged own(1)] own(2) by (simp add: set_view_apply)
  moreover have "endpoints_of gs \<noteq> []" using b(3) by (auto simp: upload_invalid_def)
  ultimately show ?thesis using reg ServeHTTP_points_to [OF p r(1,2) chi run] by simp
qed

end

text \<open>
  C34 (cleaner_races_with_requests): the check and the revocation are two steps.  When an expired
  cluster is heard of again between them, with an upload of the service whose turn it is, the
  revocation takes away the endpoints that the upload has just put into the hub: afterwards the
  cluster has none in the service, though the upload was answered with success, the store has the
  service recorded for the cluster and the cluster is registered until \<open>now + d\<close>; the sweep
  then leaves the cluster alone.  This is for every store, every state of the API, every such request
  and every point of the sweep.
\<close>

theorem cleaner_races_with_requests:
  assumes "kube_api K objs nss" and "store_inv s" and "points_to s p c" and "chi_ok chi"
    and "f i (s, w) = (t0, s, w)" and "IsExpired t0 s p"
    and "rqMethod r = ''POST''" and "rqPath r = PathGlobalServices" and "rqCluster r = c" and "c \<noteq> []"
    and "uploads (hub_server K a d js) r gs" and "own_endpoints gs" and "omClusterName (gsMeta gs) = c"
    and "ServeHTTP chi (hub_server K a d js) now r (s, w) = (resp, s1, w1)" and "rsStatus resp = StatusNoContent"
    and "f (Suc i) (s, w) = (t1, s1, w1)"
    and "RevokeGlobalService (NewGlobalServiceManager K a) c (okNamespace (keyFromObject gs))
      (okName (keyFromObject gs)) w1 = (None, w2)"
    and "f (i + 2) (s1, w2) = (t2, s1, w2)" and "t2 \<le> now + d"
  shows "cluster_view objs w1 (keyFromObject gs) c = endpoints_of gs \<and> endpoints_of gs \<noteq> [] \<and>
    (\<exists>j. clean_keys f (svRevoke (hub_server K a d js)) i p (keyFromObject gs # keys) (s, w) =
      ([(c, keyFromObject gs, None)], j, s1, w2)) \<and>
    cluster_view objs w2 (keyFromObject gs) c = [] \<and> \<not> IsExpired t2 s1 p \<and>
    (\<exists>ks. registry s1 c = Some (ks, now + d) \<and> keyFromObject gs \<in> ks)"
proof -
  note up = kube_api.upload_in_between [OF assms(1-4,7-15)]
  have name: "Name s1 p = c" using Name_points_to up by blast
  have alive: "\<not> IsExpired t2 s1 p"
    using IsExpired_registry [of s1 p c] up assms(19) by force
  have "clean_keys f (svRevoke (hub_server K a d js)) (i + 2) p keys (s1, w2)
      = ([], if keys = [] then i + 2 else Suc (i + 2), s1, w2)"
    using alive assms(18) by (cases keys) simp_all
  then have "\<exists>j. clean_keys f (svRevoke (hub_server K a d js)) i p (keyFromObject gs # keys) (s, w) =
      ([(c, keyFromObject gs, None)], j, s1, w2)"
    using assms(5,6,16,17) name by simp
  moreover have "cluster_view objs w2 (keyFromObject gs) c = []"
    by (rule kube_api.revoked_none [OF assms(1,17)])
  ultimately show ?thesis using up alive by blast
qed

text \<open>Beijing, not heard of since 10, is swept at 315 and uploads again at 316.\<close>

definition comeback :: "memory schedule" where
  "comeback i h =
     (if i = 2 then (316, snd (ServeHTTP std_chi demo_server 316 (upload_request ''beijing'' ''B'') h))
      else (315, h))"

definition comeback_hub :: "response \<times> memory hub" where
  "comeback_hub = ServeHTTP std_chi demo_server 316 (upload_request ''beijing'' ''B'') served_hub"

definition comeback_swept :: "call_log \<times> nat \<times> memory hub" where
  "comeback_swept = clean_keys comeback (svRevoke demo_server) 1 0 [nginx_key] served_hub"

theorem cleaner_races_with_requests_witness:
  "fst comeback_swept = [(''beijing'', nginx_key, None)] \<and>
   cluster_view mem_objs (snd (snd comeback_hub)) nginx_key ''beijing'' = endpoints_of beijing \<and>
   cluster_view mem_objs (snd (snd (snd comeback_swept))) nginx_key ''beijing'' = []"
proof -
  let ?r = "upload_request ''beijing'' ''B''"
  let ?rv = "RevokeGlobalService (NewGlobalServiceManager mem_kube True) ''beijing''
      (okNamespace (keyFromObject beijing)) (okName (keyFromObject beijing)) (snd (snd comeback_hub))"
  have sv: "demo_server = hub_server mem_kube True 300 demo_json" by (simp add: demo_server_def)
  have key: "keyFromObject beijing = nginx_key" by code_simp
  have "map_of (csClusters (fst served_hub)) ''beijing'' = Some 0" by code_simp
  then have p: "points_to (fst served_hub) 0 ''beijing''" by (simp add: points_to_def)
  have before: "comeback 1 (fst served_hub, snd served_hub) = (315, fst served_hub, snd served_hub)"
    by (simp add: comeback_def)
  have expired: "IsExpired 315 (fst served_hub) 0" by code_simp
  have r: "rqMethod ?r = ''POST''" "rqPath ?r = PathGlobalServices" "rqCluster ?r = ''beijing''" "''beijing'' \<noteq> []"
    by (simp_all add: upload_request_def)
  have up: "uploads (hub_server mem_kube True 300 demo_json) ?r beijing"
    by (simp add: uploads_def upload_request_def demo_json_def) code_simp
  have own: "own_endpoints beijing" "omClusterName (gsMeta beijing) = ''beijing''" by code_simp+
  have served: "ServeHTTP std_chi (hub_server mem_kube True 300 demo_json) 316 ?r (fst served_hub, snd served_hub)
      = (fst comeback_hub, fst (snd comeback_hub), snd (snd comeback_hub))"
    by (simp add: comeback_hub_def demo_server_def)
  have ok: "rsStatus (fst comeback_hub) = StatusNoContent" by code_simp
  have between: "comeback (Suc 1) (fst served_hub, snd served_hub)
      = (316, fst (snd comeback_hub), snd (snd comeback_hub))"
    by (simp add: comeback_def comeback_hub_def)
  have "fst ?rv = None" by code_simp
  then have revoked: "?rv = (None, snd ?rv)" by (metis prod.collapse)
  have after: "comeback (1 + 2) (fst (snd comeback_hub), snd ?rv) = (315, fst (snd comeback_hub), snd ?rv)"
    by (simp add: comeback_def)
  have "(315 :: time) \<le> 316 + 300" by simp
  from cleaner_races_with_requests [OF mem.kube_api_axioms served_hub_inv(1) p chi_ok_std before expired r up own
      served ok between revoked after this, of "[]"]
  show ?thesis by (auto simp: comeback_swept_def key demo_server_def)
qed

end
