(* ===== verification/HubStartup.thy ===== *)
theory HubStartup
  imports Cleaner
begin

text \<open>
  \<open>recordGlobalServicesByCluster\<close> of \<open>pkg/service-hub/options.go\<close>: when a hub in server mode has
  become the leader it fills the cluster store from the endpoints it finds in the API, so that
  the cleaner knows the clusters that reported to its predecessor.  The store's methods take
  its lock one by one; the function runs before any request of a cluster it does not know yet,
  and is one step here.
\<close>

section \<open>Operation\<close>

text \<open>\<open>now c\<close> is the clock when the cluster \<open>c\<close> is registered; a cluster is registered once.\<close>

definition record_endpoint ::
  "string \<Rightarrow> time \<Rightarrow> (string \<Rightarrow> time) \<Rightarrow> ObjectKey \<Rightarrow> Endpoint \<Rightarrow> ClusterStore \<Rightarrow> ClusterStore" where
  "record_endpoint me expire now key endpoint s =
     (if epCluster endpoint = me then s
      else if Get (epCluster endpoint) s = None then
        (case New (epCluster endpoint) s of
           (p, s1) \<Rightarrow> AddServiceKey p key (SetExpireTime p (now (epCluster endpoint) + expire) s1))
      else s)"

definition record_service ::
  "string \<Rightarrow> time \<Rightarrow> (string \<Rightarrow> time) \<Rightarrow> GlobalService \<Rightarrow> ClusterStore \<Rightarrow> ClusterStore" where
  "record_service me expire now gs s =
     fold (record_endpoint me expire now (keyFromObject gs)) (endpoints_of gs) s"

definition recordGlobalServicesByCluster ::
  "'w kube \<Rightarrow> string \<Rightarrow> time \<Rightarrow> (string \<Rightarrow> time) \<Rightarrow> 'w hub \<Rightarrow> 'w hub" where
  "recordGlobalServicesByCluster cli me expire now = (\<lambda>(s, w).
     case kListGS cli w of
       (Inl e, w1) \<Rightarrow> (s, w1)
     | (Inr items, w1) \<Rightarrow> (fold (record_service me expire now) items s, w1))"

section \<open>The registry it makes\<close>

lemma record_endpoint_registry:
  assumes "store_inv s"
  shows "store_inv (record_endpoint me d now k e s)"
    and "registry (record_endpoint me d now k e s) =
      (if epCluster e = me \<or> registry s (epCluster e) \<noteq> None then registry s
       else (registry s)(epCluster e \<mapsto> ({k}, now (epCluster e) + d)))"
proof -
  let ?c = "epCluster e"
  obtain p s1 where new: "New ?c s = (p, s1)" by force
  let ?s2 = "SetExpireTime p (now ?c + d) s1"
  note inv2 = store.refresh_entries(1) [OF assms new, of "now ?c + d"]
  have at: "points_to ?s2 p ?c" using store.new_at [OF new] by (simp add: store.update_at)
  have reg: "registry (AddServiceKey p k ?s2) = (registry s)(?c \<mapsto> ({k}, now ?c + d))"
    if "registry s ?c = None"
    using store.addKey_entries [OF inv2 at] store.refresh_entries(2) [OF assms new] that
    by (simp add: fun_upd_idem_iff)
  have known: "Get ?c s = None \<longleftrightarrow> registry s ?c = None" by (rule store.get_None [OF assms])
  show "store_inv (record_endpoint me d now k e s)"
    using store.update_valid [OF inv2] assms new by (simp add: record_endpoint_def)
  show "registry (record_endpoint me d now k e s) =
      (if ?c = me \<or> registry s ?c \<noteq> None then registry s
       else (registry s)(?c \<mapsto> ({k}, now ?c + d)))"
    using known reg new by (auto simp: record_endpoint_def)
qed

lemma record_service_registry:
  assumes "store_inv s"
  shows "store_inv (fold (record_endpoint me d now k) es s) \<and>
    registry (fold (record_endpoint me d now k) es s) c =
      (if c = me \<or> registry s c \<noteq> None \<or> c \<notin> epCluster ` set es then registry s c
       else Some ({k}, now c + d))"
  using assms
proof (induction es arbitrary: s)
  case Nil
  then show ?case by simp
next
  case (Cons e es)
  note 1 = record_endpoint_registry [OF Cons.prems, of me d now k e]
  show ?case
    using Cons.IH [OF 1(1)] 1(2) by (auto split: if_splits)
qed

text \<open>The service the function finds a cluster in first.\<close>

fun first_service :: "string \<Rightarrow> GlobalService list \<Rightarrow> ObjectKey option" where
  "first_service c [] = None"
| "first_service c (g # gs) =
     (if c \<in> epCluster ` set (endpoints_of g) then Some (keyFromObject g) else first_service c gs)"

lemma record_all_registry:
  assumes "store_inv s"
  shows "store_inv (fold (record_service me d now) items s) \<and>
    registry (fold (record_service me d now) items s) c =
      (if c = me \<or> registry s c \<noteq> None then registry s c
       else map_option (\<lambda>k. ({k}, now c + d)) (first_service c items))"
  using assms
proof (induction items arbitrary: s)
  case Nil
  then show ?case by (cases "registry s c") auto
next
  case (Cons g gs)
  note 1 = record_service_registry [OF Cons.prems, of me d now "keyFromObject g" "endpoints_of g"]
  have "store_inv (record_service me d now g s)" using 1 by (simp add: record_service_def)
  from Cons.IH [OF this] 1 show ?case
    by (auto simp: record_service_def split: if_splits)
qed

lemma first_service_Some:
  "first_service c items = Some k \<Longrightarrow>
     \<exists>g \<in> set items. keyFromObject g = k \<and> c \<in> epCluster ` set (endpoints_of g)"
  by (induction items) (auto split: if_splits)

lemma first_service_None:
  "first_service c items = None \<longleftrightarrow> (\<forall>g \<in> set items. c \<notin> epCluster ` set (endpoints_of g))"
  by (induction items) auto

section \<open>Properties\<close>

lemma view_iff_listed:
  assumes "kube_api K objs nss" and "kListGS K w = (Inr items, w1)"
  shows "cluster_view objs w k c \<noteq> [] \<longleftrightarrow>
    (\<exists>g \<in> set items. keyFromObject g = k \<and> c \<in> epCluster ` set (endpoints_of g))"
proof -
  have "(\<exists>g \<in> set items. keyFromObject g = k \<and> P g) \<longleftrightarrow> (\<exists>g. objs w k = Some g \<and> P g)" for P
    using kube_api.list_ok [OF assms] kube_api.keyed [OF assms(1)] by metis
  then show ?thesis by (auto simp: cluster_view_def filter_empty_conv split: option.split)
qed

text \<open>
  C40 (startup_records_first_service): on an empty store, every other cluster that has endpoints in
  the hub is registered with a time of expiry, but with one service only, the first in which the
  listing shows it.  So the invariant of the cleaner holds after the start exactly when no other
  cluster has endpoints in two services.
\<close>

theorem startup_records_first_service:
  assumes "kube_api K objs nss" and "kListGS K w = (Inr items, w1)" and "\<forall>c. now c + d \<noteq> 0"
    and "recordGlobalServicesByCluster K me d now (NewClusterStore, w) = (s', w')"
  shows "(\<forall>c. registry s' c =
      (if c = me then None else map_option (\<lambda>k. ({k}, now c + d)) (first_service c items))) \<and>
    (recorded (cluster_view objs) me s' w' \<longleftrightarrow> (\<forall>c k k'. c \<noteq> me \<and> cluster_view objs w k c \<noteq> [] \<and>
      cluster_view objs w k' c \<noteq> [] \<longrightarrow> k = k'))"
proof -
  have s': "s' = fold (record_service me d now) items NewClusterStore" and w': "w' = w1"
    using assms(2,4) by (simp_all add: recordGlobalServicesByCluster_def)
  have reg: "registry s' c = (if c = me then None
      else map_option (\<lambda>k. ({k}, now c + d)) (first_service c items))" for c
    using record_all_registry [OF store_inv_New_empty, of me d now items c] s' by simp
  note view = view_iff_listed [OF assms(1,2)]
  have same: "cluster_view objs w' = cluster_view objs w"
    unfolding w' by (rule cluster_view_objs) (rule kube_api.list_frame [OF assms(1,2)])
  have first: "\<exists>k. first_service c items = Some k \<and> cluster_view objs w k c \<noteq> []"
    if "cluster_view objs w k c \<noteq> []" for k c
    using that view first_service_None [of c items] first_service_Some [of c items]
    by (metis not_None_eq)
  have "recorded (cluster_view objs) me s' w' \<longleftrightarrow>
      (\<forall>k c. cluster_view objs w k c \<noteq> [] \<and> c \<noteq> me \<longrightarrow> first_service c items = Some k)"
    using assms(3) first by (fastforce simp: recorded_def same reg)
  also have "\<dots> \<longleftrightarrow> (\<forall>c k k'. c \<noteq> me \<and> cluster_view objs w k c \<noteq> [] \<and>
      cluster_view objs w k' c \<noteq> [] \<longrightarrow> k = k')"
    using first by (metis option.inject)
  finally show ?thesis using reg by blast
qed

definition two_services :: memory where
  "two_services = empty_memory\<lparr>memGS :=
     [beijing, beijing\<lparr>gsMeta := sample_meta ''default'' ''redis'' []\<rparr>]\<rparr>"

theorem startup_records_first_service_witness:
  "let (s, w) = recordGlobalServicesByCluster mem_kube ''cloud'' 300 (\<lambda>_. 10) (NewClusterStore, two_services)
   in registry s ''beijing'' = Some ({nginx_key}, 310) \<and> \<not> recorded (cluster_view mem_objs) ''cloud'' s w"
proof -
  obtain s w where run: "recordGlobalServicesByCluster mem_kube ''cloud'' 300 (\<lambda>_. 10) (NewClusterStore, two_services) = (s, w)"
    by fastforce
  have lst: "kListGS mem_kube two_services = (Inr (memGS two_services), two_services)" by code_simp
  have first: "first_service ''beijing'' (memGS two_services) = Some nginx_key" by code_simp
  have nginx: "cluster_view mem_objs two_services nginx_key ''beijing'' \<noteq> []" by code_simp
  have redis: "cluster_view mem_objs two_services (ObjectKey ''default'' ''redis'') ''beijing'' \<noteq> []" by code_simp
  have differ: "nginx_key \<noteq> ObjectKey ''default'' ''redis''" "''beijing'' \<noteq> ''cloud''"
    by (simp_all add: nginx_key_def)
  have time: "\<forall>c :: string. (10 :: time) + 300 \<noteq> 0" by simp
  note start = startup_records_first_service [OF mem.kube_api_axioms lst time run]
  have reg: "registry s ''beijing'' = Some ({nginx_key}, 310)"
    using start [THEN conjunct1, THEN spec, of "''beijing''"] first differ(2) by simp
  note rec = start [THEN conjunct2]
  have "\<not> recorded (cluster_view mem_objs) ''cloud'' s w"
  proof
    assume "recorded (cluster_view mem_objs) ''cloud'' s w"
    from rec [THEN iffD1, OF this, THEN spec, of "''beijing''", THEN spec, of nginx_key, THEN spec,
        of "ObjectKey ''default'' ''redis''"]
    show False using nginx redis differ by simp
  qed
  then show ?thesis using reg by (simp add: run)
qed

end
