(* ===== verification/HeadlessEndpoints.thy ===== *)
theory HeadlessEndpoints
  imports KubeApi Samples
begin

text \<open>
  \<open>GetEndpointsOfHeadlessService\<close> of \<open>pkg/service-hub/exporter/service_exporter.go\<close>: the
  endpoint slices of a headless service, grouped by the pod they target.  The function sorts
  with the unstable \<open>sort.Sort\<close> and ranges over a map; both are arguments of the model
  (\<open>go_runtime\<close>), of which only the contract is known, and the theorems say when and how the
  result is independent of them.
\<close>

section \<open>Operations\<close>

record ClusterInfo =
  ecName :: string
  ecRegion :: string
  ecZone :: string

text \<open>
  \<open>ByName.Less\<close> reads \<open>TargetRef.Name\<close>; the endpoints it compares come out of the map, which
  holds no endpoint without a target.
\<close>

definition target_name :: "Endpoint \<Rightarrow> string" where
  "target_name e = (case epTargetRef e of None \<Rightarrow> [] | Some r \<Rightarrow> refName r)"

definition ByName_Less :: "Endpoint \<Rightarrow> Endpoint \<Rightarrow> bool" where
  "ByName_Less a b \<longleftrightarrow> target_name a < target_name b"

definition ByAddressType_Less :: "EndpointSlice \<Rightarrow> EndpointSlice \<Rightarrow> bool" where
  "ByAddressType_Less a b \<longleftrightarrow> esAddressType a < esAddressType b"

record go_runtime =
  sortByName :: "Endpoint list \<Rightarrow> Endpoint list"
  sortByAddressType :: "EndpointSlice list \<Rightarrow> EndpointSlice list"
  rangeEndpoints :: "(string \<times> Endpoint) list \<Rightarrow> (string \<times> Endpoint) list"

definition go_runtime_ok :: "go_runtime \<Rightarrow> bool" where
  "go_runtime_ok rt \<longleftrightarrow> go_sort ByName_Less (sortByName rt) \<and>
     go_sort ByAddressType_Less (sortByAddressType rt) \<and> range_order (rangeEndpoints rt)"

text \<open>One step of the inner loop: an endpoint of a slice joins the map; a nil target panics.\<close>

definition join_endpoint ::
  "ClusterInfo \<Rightarrow> SliceEndpoint \<Rightarrow> (string, Endpoint) gomap \<Rightarrow> (string, Endpoint) gomap outcome" where
  "join_endpoint cl ep m =
     (case seTargetRef ep of
        None \<Rightarrow> Panicked
      | Some ref \<Rightarrow> Returned
          (case map_of m (refName ref) of
             Some e \<Rightarrow> AList.update (refName ref) (e\<lparr>epAddresses := epAddresses e @ seAddresses ep\<rparr>) m
           | None \<Rightarrow> AList.update (refName ref)
               \<lparr>epAddresses = seAddresses ep, epHostname = seHostname ep, epTargetRef = seTargetRef ep,
                epCluster = ecName cl, epZone = ecZone cl, epRegion = ecRegion cl\<rparr> m))"

fun join_endpoints ::
  "ClusterInfo \<Rightarrow> SliceEndpoint list \<Rightarrow> (string, Endpoint) gomap \<Rightarrow> (string, Endpoint) gomap outcome" where
  "join_endpoints cl [] m = Returned m"
| "join_endpoints cl (ep # eps) m = bind_outcome (join_endpoint cl ep m) (join_endpoints cl eps)"

fun join_slices ::
  "ClusterInfo \<Rightarrow> EndpointSlice list \<Rightarrow> (string, Endpoint) gomap \<Rightarrow> (string, Endpoint) gomap outcome" where
  "join_slices cl [] m = Returned m"
| "join_slices cl (es # slices) m =
     (if esAddressType es = AddressTypeFQDN then join_slices cl slices m
      else bind_outcome (join_endpoints cl (esEndpoints es) m) (join_slices cl slices))"

definition endpoints_of_slices ::
  "go_runtime \<Rightarrow> ClusterInfo \<Rightarrow> EndpointSlice list \<Rightarrow> Endpoint list outcome" where
  "endpoints_of_slices rt cl slices =
     bind_outcome (join_slices cl (sortByAddressType rt slices) [])
       (\<lambda>m. Returned (sortByName rt (map snd (rangeEndpoints rt m))))"

definition GetEndpointsOfHeadlessService ::
  "go_runtime \<Rightarrow> 'w kube \<Rightarrow> string \<Rightarrow> string \<Rightarrow> ClusterInfo \<Rightarrow> 'w
     \<Rightarrow> (go_error + Endpoint list) outcome \<times> 'w" where
  "GetEndpointsOfHeadlessService rt cli ns serviceName cl w =
     (case kListSlices cli ns [(''kubernetes.io/service-name'', serviceName)] w of
        (Inl e, w1) \<Rightarrow> (Returned (Inl e), w1)
      | (Inr slices, w1) \<Rightarrow>
          (bind_outcome (endpoints_of_slices rt cl slices) (\<lambda>eps. Returned (Inr eps)), w1))"

section \<open>The grouping as a function of the slices\<close>

text \<open>The endpoints the loops visit, and those among them with a given target.\<close>

definition visited :: "EndpointSlice list \<Rightarrow> SliceEndpoint list" where
  "visited slices = concat (map esEndpoints (filter (\<lambda>es. esAddressType es \<noteq> AddressTypeFQDN) slices))"

definition slice_target :: "SliceEndpoint \<Rightarrow> string" where
  "slice_target ep = (case seTargetRef ep of None \<Rightarrow> [] | Some r \<Rightarrow> refName r)"

definition mentions :: "string \<Rightarrow> SliceEndpoint list \<Rightarrow> SliceEndpoint list" where
  "mentions n eps = filter (\<lambda>ep. slice_target ep = n) eps"

definition all_addresses :: "SliceEndpoint list \<Rightarrow> string list" where
  "all_addresses eps = concat (map seAddresses eps)"

text \<open>The endpoint the mentions of a target make, on top of one that is there already.\<close>

definition joined :: "ClusterInfo \<Rightarrow> SliceEndpoint list \<Rightarrow> Endpoint option \<Rightarrow> Endpoint option" where
  "joined cl eps old =
     (case old of
        Some e \<Rightarrow> Some (e\<lparr>epAddresses := epAddresses e @ all_addresses eps\<rparr>)
      | None \<Rightarrow>
          (case eps of [] \<Rightarrow> None
           | ep # _ \<Rightarrow> Some \<lparr>epAddresses = all_addresses eps, epHostname = seHostname ep,
               epTargetRef = seTargetRef ep, epCluster = ecName cl, epZone = ecZone cl,
               epRegion = ecRegion cl\<rparr>))"

lemma join_endpoints_append:
  "join_endpoints cl (xs @ ys) m = bind_outcome (join_endpoints cl xs m) (join_endpoints cl ys)"
proof (induction xs arbitrary: m)
  case (Cons x xs)
  then show ?case by (cases "join_endpoint cl x m") simp_all
qed simp

lemma joined_append:
  "joined cl (mentions n eps) (joined cl (mentions n [ep]) old) = joined cl (mentions n (ep # eps)) old"
  by (simp add: joined_def mentions_def all_addresses_def split: option.split list.split)

lemma join_slices_visited:
  "join_slices cl slices m = join_endpoints cl (visited slices) m"
proof (induction slices arbitrary: m)
  case Nil
  then show ?case by (simp add: visited_def)
next
  case (Cons es slices)
  have "join_slices cl slices = join_endpoints cl (visited slices)"
    by (rule ext) (rule Cons.IH)
  then show ?case by (simp add: visited_def join_endpoints_append)
qed

lemma join_endpoints_panics:
  "join_endpoints cl eps m = Panicked \<longleftrightarrow> (\<exists>ep \<in> set eps. seTargetRef ep = None)"
proof (induction eps arbitrary: m)
  case (Cons ep eps)
  then show ?case by (cases "seTargetRef ep") (simp_all add: join_endpoint_def)
qed simp

lemma join_endpoints_lookup:
  "join_endpoints cl eps m = Returned m' \<Longrightarrow>
     map_of m' n = joined cl (mentions n eps) (map_of m n)"
proof (induction eps arbitrary: m)
  case Nil
  then show ?case by (simp add: joined_def mentions_def all_addresses_def split: option.split)
next
  case (Cons ep eps)
  then obtain m1 ref where ref: "seTargetRef ep = Some ref" and 1: "join_endpoint cl ep m = Returned m1"
    and 2: "join_endpoints cl eps m1 = Returned m'"
    by (cases "seTargetRef ep") (auto simp: join_endpoint_def)
  have 3: "map_of m1 n = joined cl (mentions n [ep]) (map_of m n)"
    using 1 ref by (auto simp: join_endpoint_def joined_def mentions_def slice_target_def
        all_addresses_def gomap split: option.splits)
  show ?case
    unfolding Cons.IH [OF 2] 3 by (rule joined_append)
qed

lemma join_endpoints_wf: "join_endpoints cl eps m = Returned m' \<Longrightarrow> gm_wf m \<Longrightarrow> gm_wf m'"
proof (induction eps arbitrary: m)
  case (Cons ep eps)
  then show ?case by (auto simp: join_endpoint_def split: option.splits)
qed simp

lemma mentions_target: "x \<in> set (mentions n eps) \<Longrightarrow> slice_target x = n"
  by (simp add: mentions_def)

lemma joined_target:
  assumes "joined cl (mentions n eps) None = Some e" and "\<forall>ep \<in> set eps. seTargetRef ep \<noteq> None"
  shows "target_name e = n"
proof -
  obtain ep rest where m: "mentions n eps = ep # rest" and e: "epTargetRef e = seTargetRef ep"
    using assms(1) by (cases "mentions n eps") (auto simp: joined_def)
  have "slice_target ep = n" using m mentions_target [of ep n eps] by simp
  then show ?thesis using e by (simp add: target_name_def slice_target_def)
qed

text \<open>What the function returns, up to the order of the map and of the slices.\<close>

lemma endpoints_of_slices_Panicked:
  assumes "go_runtime_ok rt"
  shows "endpoints_of_slices rt cl slices = Panicked \<longleftrightarrow>
    (\<exists>ep \<in> set (visited slices). seTargetRef ep = None)"
proof -
  have "set (sortByAddressType rt slices) = set slices"
    using assms go_sort_set unfolding go_runtime_ok_def by blast
  then have "set (visited (sortByAddressType rt slices)) = set (visited slices)"
    by (simp add: visited_def)
  then show ?thesis
    by (simp add: endpoints_of_slices_def join_slices_visited join_endpoints_panics)
qed

lemma endpoints_of_slices_Returned:
  assumes rt: "go_runtime_ok rt" and ret: "endpoints_of_slices rt cl slices = Returned eps"
  shows "sorted_wrt (<) (map target_name eps)"
    and "e \<in> set eps \<longleftrightarrow>
      joined cl (mentions (target_name e) (visited (sortByAddressType rt slices))) None = Some e"
proof -
  let ?v = "visited (sortByAddressType rt slices)"
  obtain m where m: "join_endpoints cl ?v [] = Returned m"
    and eps: "eps = sortByName rt (map snd (rangeEndpoints rt m))"
    using ret by (auto simp: endpoints_of_slices_def join_slices_visited)
  have wf: "gm_wf m" using join_endpoints_wf [OF m] by simp
  have targets: "\<forall>ep \<in> set ?v. seTargetRef ep \<noteq> None"
    using m join_endpoints_panics by (metis outcome.distinct(1))
  have entry: "(n, x) \<in> set m \<longleftrightarrow> joined cl (mentions n ?v) None = Some x" for n x
    using join_endpoints_lookup [OF m, of n] by (simp add: gm_wf_mem_iff [OF wf])
  then have key: "(n, x) \<in> set m \<Longrightarrow> n = target_name x" for n x
    using joined_target [OF _ targets] by metis
  have ord: "range_order (rangeEndpoints rt)" and srt: "go_sort ByName_Less (sortByName rt)"
    using rt by (auto simp: go_runtime_ok_def)
  have set_eps: "set eps = snd ` set m"
    by (simp add: eps go_sort_set [OF srt] range_order_set [OF ord])
  have "e \<in> set eps \<longleftrightarrow> (target_name e, e) \<in> set m"
  proof
    assume "e \<in> set eps"
    then obtain n where "(n, e) \<in> set m" unfolding set_eps by auto
    then show "(target_name e, e) \<in> set m" using key by metis
  qed (auto simp: set_eps intro: rev_image_eqI)
  then show "e \<in> set eps \<longleftrightarrow> joined cl (mentions (target_name e) ?v) None = Some e"
    by (simp only: entry)
  have names: "map target_name (map snd m) = map fst m"
    using key by (auto intro!: map_cong)
  have names_distinct: "distinct (map target_name (map snd m))"
    unfolding names using wf by (simp add: gm_wf_def)
  have "mset eps = mset (map snd m)"
    unfolding eps go_sort_mset [OF srt] mset_map range_order_mset [OF ord] ..
  then have "mset (map target_name eps) = mset (map target_name (map snd m))"
    unfolding mset_map by (rule arg_cong)
  from mset_eq_imp_distinct_iff [OF this] names_distinct
  have "distinct (map target_name eps)" by blast
  moreover have "sorted (map target_name eps)"
    using go_sort_sorted_keys [of target_name] srt by (simp add: eps ByName_Less_def [abs_def])
  ultimately show "sorted_wrt (<) (map target_name eps)"
    by (simp add: strict_sorted_iff)
qed

lemma set_visited_sorted:
  assumes "go_runtime_ok rt"
  shows "set (visited (sortByAddressType rt slices)) = set (visited slices)"
proof -
  have "set (sortByAddressType rt slices) = set slices"
    using assms go_sort_set unfolding go_runtime_ok_def by blast
  then show ?thesis by (simp add: visited_def)
qed

lemma mset_concat_cong: "mset xs = mset ys \<Longrightarrow> mset (concat (map f xs)) = mset (concat (map f ys))"
  unfolding mset_concat by (simp flip: sum_mset_sum_list)

lemma mset_visited_sorted:
  assumes "go_runtime_ok rt"
  shows "mset (all_addresses (mentions n (visited (sortByAddressType rt slices)))) =
    mset (all_addresses (mentions n (visited slices)))"
proof -
  have "mset (sortByAddressType rt slices) = mset slices"
    using assms go_sort_mset unfolding go_runtime_ok_def by blast
  then have "mset (visited (sortByAddressType rt slices)) = mset (visited slices)"
    unfolding visited_def by (intro mset_concat_cong) simp
  then show ?thesis unfolding all_addresses_def mentions_def
    by (intro mset_concat_cong) simp
qed

lemma endpoints_of_slices_names:
  assumes "go_runtime_ok rt" and "endpoints_of_slices rt cl slices = Returned eps"
  shows "target_name ` set eps = slice_target ` set (visited slices)"
proof -
  let ?v = "visited (sortByAddressType rt slices)"
  have "\<not> endpoints_of_slices rt cl slices = Panicked" using assms(2) by simp
  then have targets: "\<forall>ep \<in> set ?v. seTargetRef ep \<noteq> None"
    unfolding endpoints_of_slices_Panicked [OF assms(1)] set_visited_sorted [OF assms(1)] by simp
  note mem = endpoints_of_slices_Returned(2) [OF assms]
  have "n \<in> target_name ` set eps \<longleftrightarrow> mentions n ?v \<noteq> []" for n
  proof
    assume "n \<in> target_name ` set eps"
    then obtain e where "e \<in> set eps" "n = target_name e" by blast
    then show "mentions n ?v \<noteq> []" using mem [of e] by (auto simp: joined_def)
  next
    assume "mentions n ?v \<noteq> []"
    then obtain e where e: "joined cl (mentions n ?v) None = Some e"
      by (cases "mentions n ?v") (auto simp: joined_def)
    then show "n \<in> target_name ` set eps"
      using mem [of e] joined_target [OF e targets] by auto
  qed
  moreover have "mentions n ?v \<noteq> [] \<longleftrightarrow> n \<in> slice_target ` set (visited slices)" for n
    by (auto simp: mentions_def filter_empty_conv set_visited_sorted [OF assms(1)])
  ultimately show ?thesis by blast
qed

text \<open>The addresses of a target in the slices of one address type.\<close>

definition addresses_in :: "string \<Rightarrow> string \<Rightarrow> EndpointSlice list \<Rightarrow> string list" where
  "addresses_in t n slices =
     all_addresses (mentions n (concat (map esEndpoints (filter (\<lambda>es. esAddressType es = t) slices))))"

lemma sorted_two_keys:
  fixes k :: "'a \<Rightarrow> 'b::linorder"
  shows "sorted (map k xs) \<Longrightarrow> \<forall>x \<in> set xs. k x = a \<or> k x = b \<Longrightarrow> a < b \<Longrightarrow>
    xs = filter (\<lambda>x. k x = a) xs @ filter (\<lambda>x. k x = b) xs"
proof (induction xs)
  case (Cons x xs)
  show ?case
  proof (cases "k x = a")
    case True
    then show ?thesis using Cons by simp
  next
    case False
    then have "k x = b" using Cons.prems(2) by simp
    then have "\<forall>y \<in> set xs. k y = b \<and> k y \<noteq> a" using Cons.prems by fastforce
    then show ?thesis using \<open>k x = b\<close> False by (simp add: filter_empty_conv filter_id_conv)
  qed
qed simp

lemma mset_addresses_sorted:
  assumes "go_runtime_ok rt"
  shows "mset (addresses_in t n (sortByAddressType rt slices)) = mset (addresses_in t n slices)"
proof -
  have "mset (sortByAddressType rt slices) = mset slices"
    using assms go_sort_mset unfolding go_runtime_ok_def by blast
  then have "mset (concat (map esEndpoints (filter (\<lambda>es. esAddressType es = t) (sortByAddressType rt slices)))) =
      mset (concat (map esEndpoints (filter (\<lambda>es. esAddressType es = t) slices)))"
    by (intro mset_concat_cong) simp
  then show ?thesis unfolding addresses_in_def all_addresses_def mentions_def
    by (intro mset_concat_cong) simp
qed

lemma addresses_by_type:
  assumes "sorted (map esAddressType slices)"
    and "\<forall>es \<in> set slices. esAddressType es \<in> {''IPv4'', ''IPv6'', AddressTypeFQDN}"
  shows "all_addresses (mentions n (visited slices)) =
    addresses_in ''IPv4'' n slices @ addresses_in ''IPv6'' n slices"
proof -
  let ?s = "filter (\<lambda>es. esAddressType es \<noteq> AddressTypeFQDN) slices"
  have fq: "AddressTypeFQDN \<noteq> ''IPv4''" "AddressTypeFQDN \<noteq> ''IPv6''" by (simp_all add: AddressTypeFQDN_def)
  have "?s = filter (\<lambda>es. esAddressType es = ''IPv4'') ?s @ filter (\<lambda>es. esAddressType es = ''IPv6'') ?s"
  proof (rule sorted_two_keys)
    show "sorted (map esAddressType ?s)" using assms(1) by (rule sorted_filter)
    show "\<forall>es \<in> set ?s. esAddressType es = ''IPv4'' \<or> esAddressType es = ''IPv6''"
      using assms(2) by auto
    show "''IPv4'' < ''IPv6''" by (code_simp)
  qed
  also have "\<dots> = filter (\<lambda>es. esAddressType es = ''IPv4'') slices @ filter (\<lambda>es. esAddressType es = ''IPv6'') slices"
    using fq by (auto intro!: arg_cong2 [where f = append] filter_cong)
  finally have "visited slices =
      concat (map esEndpoints (filter (\<lambda>es. esAddressType es = ''IPv4'') slices)) @
      concat (map esEndpoints (filter (\<lambda>es. esAddressType es = ''IPv6'') slices))"
    unfolding visited_def by (metis concat_append map_append)
  then show ?thesis by (simp add: addresses_in_def all_addresses_def mentions_def)
qed

text \<open>A target is in at most one slice of each address type that counts.\<close>

definition has_target :: "string \<Rightarrow> EndpointSlice \<Rightarrow> bool" where
  "has_target n es \<longleftrightarrow> n \<in> slice_target ` set (esEndpoints es)"

definition sole_slices :: "EndpointSlice list \<Rightarrow> bool" where
  "sole_slices slices \<longleftrightarrow> (\<forall>n. distinct (map esAddressType (filter (has_target n) slices)))"

lemma mentions_has_target:
  "mentions n (visited slices) = mentions n (visited (filter (has_target n) slices))"
proof (induction slices)
  case (Cons es slices)
  have "\<not> has_target n es \<Longrightarrow> mentions n (esEndpoints es) = []"
    by (auto simp: has_target_def mentions_def filter_empty_conv)
  with Cons show ?case by (auto simp: visited_def mentions_def)
qed (simp add: visited_def)

lemma mentions_deterministic:
  assumes "go_runtime_ok rt" and "go_runtime_ok rt'" and "sole_slices slices"
  shows "mentions n (visited (sortByAddressType rt slices)) =
    mentions n (visited (sortByAddressType rt' slices))"
proof -
  have srt: "go_sort (\<lambda>a b. esAddressType a < esAddressType b) (sortByAddressType r)"
    if "go_runtime_ok r" for r
    using that by (simp add: go_runtime_ok_def ByAddressType_Less_def [abs_def])
  have perm: "mset (filter (has_target n) (sortByAddressType r slices)) = mset (filter (has_target n) slices)"
    if "go_runtime_ok r" for r
    using go_sort_mset [OF srt [OF that]] by simp
  have sorted: "sorted (map esAddressType (filter (has_target n) (sortByAddressType r slices)))"
    if "go_runtime_ok r" for r
    using go_sort_sorted_keys [OF srt [OF that]] by (rule sorted_filter)
  have "filter (has_target n) (sortByAddressType rt slices) = filter (has_target n) (sortByAddressType rt' slices)"
  proof (rule sorted_perm_unique [OF _ _ sorted sorted])
    show "mset (filter (has_target n) (sortByAddressType rt slices)) =
        mset (filter (has_target n) (sortByAddressType rt' slices))"
      using perm assms(1,2) by simp
    have "mset (map esAddressType (filter (has_target n) (sortByAddressType rt slices))) =
        mset (map esAddressType (filter (has_target n) slices))"
      unfolding mset_map perm [OF assms(1)] ..
    from mset_eq_imp_distinct_iff [OF this]
    show "distinct (map esAddressType (filter (has_target n) (sortByAddressType rt slices)))"
      using assms(3) by (simp add: sole_slices_def)
  qed (fact assms)+
  then show ?thesis by (metis mentions_has_target)
qed

lemma endpoints_deterministic:
  assumes "go_runtime_ok rt" and "go_runtime_ok rt'" and "sole_slices slices"
  shows "endpoints_of_slices rt cl slices = endpoints_of_slices rt' cl slices"
proof (cases "endpoints_of_slices rt cl slices")
  case Panicked
  then show ?thesis using assms(1,2) endpoints_of_slices_Panicked by metis
next
  case (Returned eps)
  then have "endpoints_of_slices rt' cl slices \<noteq> Panicked"
    using assms(1,2) endpoints_of_slices_Panicked by (metis outcome.distinct(1))
  then obtain eps' where eps': "endpoints_of_slices rt' cl slices = Returned eps'"
    by (cases "endpoints_of_slices rt' cl slices") auto
  note 1 = endpoints_of_slices_Returned [OF assms(1) Returned]
    and 2 = endpoints_of_slices_Returned [OF assms(2) eps']
  have mem: "set eps = set eps'"
    using 1(2) 2(2) mentions_deterministic [OF assms] by auto
  have d: "distinct (map target_name eps)" "sorted (map target_name eps)"
      "distinct (map target_name eps')" "sorted (map target_name eps')"
    using 1(1) 2(1) by (simp_all add: strict_sorted_iff)
  then have "mset eps = mset eps'"
    using mem by (metis distinct_map set_eq_iff_mset_eq_distinct)
  then have "eps = eps'" using d(1,2,4) by (rule sorted_perm_unique)
  then show ?thesis using Returned eps' by simp
qed

section \<open>Properties\<close>

text \<open>
  The values of the witnesses: two pods in an IPv4 and an IPv6 slice and a slice of names, listed in
  an order the code has to undo, and two run-time behaviours.
\<close>

definition demo_slice :: "string \<Rightarrow> (string \<times> string list) list \<Rightarrow> EndpointSlice" where
  "demo_slice t pods =
     \<lparr>esNamespace = ''default'', esLabels = Some [(''kubernetes.io/service-name'', ''nginx'')], esOwner = Some ''nginx'',
      esAddressType = t,
      esEndpoints = map (\<lambda>(n, addrs). \<lparr>seAddresses = addrs, seHostname = None,
        seTargetRef = Some \<lparr>refKind = ''Pod'', refNamespace = ''default'', refName = n, refUID = [],
          refAPIVersion = [], refResourceVersion = [], refFieldPath = []\<rparr>, seReady = Some True\<rparr>) pods\<rparr>"

definition demo_slices :: "EndpointSlice list" where
  "demo_slices =
     [demo_slice ''IPv6'' [(''pod2'', [''FF01::2'']), (''pod1'', [''FF01::1''])],
      demo_slice AddressTypeFQDN [(''pod3'', [''pod3.local''])],
      demo_slice ''IPv4'' [(''pod2'', [''192.168.1.2'']), (''pod1'', [''192.168.1.1''])]]"

definition demo_runtime :: go_runtime where
  "demo_runtime = \<lparr>sortByName = insertion_sort target_name, sortByAddressType = insertion_sort esAddressType,
     rangeEndpoints = (\<lambda>xs. xs)\<rparr>"

definition demo_runtime' :: "go_runtime" where
  "demo_runtime' = \<lparr>sortByName = insertion_sort target_name \<circ> rev,
     sortByAddressType = insertion_sort esAddressType \<circ> rev, rangeEndpoints = rev\<rparr>"

definition demo_cluster :: ClusterInfo where
  "demo_cluster = \<lparr>ecName = ''beijing'', ecRegion = ''north'', ecZone = ''beijing''\<rparr>"

definition demo_hub :: memory where
  "demo_hub = empty_memory\<lparr>memSlices := demo_slices\<rparr>"

text \<open>
  C16 (headless_endpoints_functional): when the endpoints of a headless service are found, they are
  sorted strictly by the name of the pod, one for each pod some slice of IP addresses targets and
  no other; each carries the cluster, zone and region of the exporter and exactly the addresses
  the slices give its pod, the IPv4 ones before the IPv6 ones.
\<close>

theorem headless_endpoints_functional:
  assumes "go_runtime_ok rt"
    and "kListSlices cli ns [(''kubernetes.io/service-name'', n)] w = (Inr slices, w1)"
    and "\<forall>es \<in> set slices. esAddressType es \<in> {''IPv4'', ''IPv6'', AddressTypeFQDN}"
    and "GetEndpointsOfHeadlessService rt cli ns n cl w = (Returned (Inr eps), w')"
  shows "w' = w1 \<and> sorted_wrt (<) (map target_name eps) \<and>
    target_name ` set eps = slice_target ` set (visited slices) \<and>
    (\<forall>e \<in> set eps. epCluster e = ecName cl \<and> epZone e = ecZone cl \<and> epRegion e = ecRegion cl \<and>
      (\<exists>v4 v6. epAddresses e = v4 @ v6 \<and> mset v4 = mset (addresses_in ''IPv4'' (target_name e) slices) \<and>
        mset v6 = mset (addresses_in ''IPv6'' (target_name e) slices)))"
proof (intro conjI ballI)
  from assms(2,4) have ret: "endpoints_of_slices rt cl slices = Returned eps" and w': "w' = w1"
    by (auto simp: GetEndpointsOfHeadlessService_def)
  let ?s = "sortByAddressType rt slices"
  have srt: "go_sort (\<lambda>a b. esAddressType a < esAddressType b) (sortByAddressType rt)"
    using assms(1) by (simp add: go_runtime_ok_def ByAddressType_Less_def [abs_def])
  have types: "\<forall>es \<in> set ?s. esAddressType es \<in> {''IPv4'', ''IPv6'', AddressTypeFQDN}"
    using assms(3) by (simp add: go_sort_set [OF srt])
  note split = addresses_by_type [OF go_sort_sorted_keys [OF srt] types]
  show "w' = w1" by (fact w')
  show "sorted_wrt (<) (map target_name eps)"
    by (rule endpoints_of_slices_Returned(1) [OF assms(1) ret])
  show "target_name ` set eps = slice_target ` set (visited slices)"
    by (rule endpoints_of_slices_names [OF assms(1) ret])
  fix e
  assume "e \<in> set eps"
  then have e: "joined cl (mentions (target_name e) (visited ?s)) None = Some e"
    using endpoints_of_slices_Returned(2) [OF assms(1) ret] by simp
  then show "epCluster e = ecName cl" "epZone e = ecZone cl" "epRegion e = ecRegion cl"
    by (auto simp: joined_def split: list.splits)
  from e have "epAddresses e = all_addresses (mentions (target_name e) (visited ?s))"
    by (auto simp: joined_def split: list.splits)
  then show "\<exists>v4 v6. epAddresses e = v4 @ v6 \<and>
      mset v4 = mset (addresses_in ''IPv4'' (target_name e) slices) \<and>
      mset v6 = mset (addresses_in ''IPv6'' (target_name e) slices)"
    using split mset_addresses_sorted [OF assms(1)] by metis
qed

lemma demo_runtimes_ok: "go_runtime_ok demo_runtime" "go_runtime_ok demo_runtime'"
  using go_sort_insertion_sort [of target_name] go_sort_insertion_sort [of esAddressType]
  by (auto simp: go_runtime_ok_def demo_runtime_def demo_runtime'_def ByName_Less_def [abs_def]
      ByAddressType_Less_def [abs_def] go_sort_def)

definition demo_endpoints_result :: "(go_error + Endpoint list) outcome" where
  "demo_endpoints_result = fst (GetEndpointsOfHeadlessService demo_runtime' mem_kube ''default'' ''nginx'' demo_cluster demo_hub)"

theorem headless_endpoints_functional_witness:
  "\<exists>e1 e2. demo_endpoints_result = Returned (Inr [e1, e2]) \<and>
     epAddresses e1 = [''192.168.1.1'', ''FF01::1''] \<and> target_name e2 = ''pod2'' \<and> epCluster e2 = ''beijing''"
proof -
  let ?run = "GetEndpointsOfHeadlessService demo_runtime' mem_kube ''default'' ''nginx'' demo_cluster demo_hub"
  obtain e1 e2 where eps: "fst ?run = Returned (Inr [e1, e2])"
    and e: "epAddresses e1 = [''192.168.1.1'', ''FF01::1''] \<and> target_name e2 = ''pod2''"
    by (rule that [of "(case fst ?run of Returned (Inr [a, b]) \<Rightarrow> a)" "(case fst ?run of Returned (Inr [a, b]) \<Rightarrow> b)"];
      code_simp)
  have run: "?run = (Returned (Inr [e1, e2]), snd ?run)"
    using eps by (metis prod.collapse)
  have list: "kListSlices mem_kube ''default'' [(''kubernetes.io/service-name'', ''nginx'')] demo_hub
      = (Inr demo_slices, demo_hub)" by code_simp
  have types: "\<forall>es \<in> set demo_slices. esAddressType es \<in> {''IPv4'', ''IPv6'', AddressTypeFQDN}"
    by code_simp
  have "epCluster e2 = ecName demo_cluster"
    using headless_endpoints_functional [OF demo_runtimes_ok(2) list types run] by simp
  then show ?thesis using eps e by (auto simp: demo_endpoints_result_def demo_cluster_def)
qed

text \<open>
  C17 (headless_endpoints_deterministic): the order in which the run-time visits the map and the
  places the unstable sorts give to equal elements do not show in the result, provided no pod
  is in two slices of the same address type.
\<close>

theorem headless_endpoints_deterministic:
  assumes "go_runtime_ok rt" and "go_runtime_ok rt'"
    and "kListSlices cli ns [(''kubernetes.io/service-name'', n)] w = (r, w1)"
    and "\<And>slices. r = Inr slices \<Longrightarrow> sole_slices slices"
  shows "GetEndpointsOfHeadlessService rt cli ns n cl w = GetEndpointsOfHeadlessService rt' cli ns n cl w"
  using assms(3,4) endpoints_deterministic [OF assms(1,2)]
  by (auto simp: GetEndpointsOfHeadlessService_def split: sum.split)

theorem headless_endpoints_deterministic_witness:
  "GetEndpointsOfHeadlessService demo_runtime mem_kube ''default'' ''nginx'' demo_cluster demo_hub =
   GetEndpointsOfHeadlessService demo_runtime' mem_kube ''default'' ''nginx'' demo_cluster demo_hub"
proof (rule headless_endpoints_deterministic [OF demo_runtimes_ok, where r = "Inr demo_slices" and ?w1.0 = demo_hub])
  show "kListSlices mem_kube ''default'' [(''kubernetes.io/service-name'', ''nginx'')] demo_hub
      = (Inr demo_slices, demo_hub)" by code_simp
  have "distinct (map esAddressType demo_slices)" by code_simp
  then have "sole_slices demo_slices"
    by (simp add: sole_slices_def distinct_map_filter)
  then show "sole_slices slices" if "Inr demo_slices = Inr slices" for slices
    using that by simp
qed

text \<open>
  C27 (headless_endpoints_panic_iff): the function panics exactly when a slice of IP addresses has an
  endpoint without a target, which the API allows (an endpoint of a hand-made slice); the
  condition \<open>Ready\<close> of an endpoint is never looked at.
\<close>

theorem headless_endpoints_panic_iff:
  assumes "go_runtime_ok rt"
    and "kListSlices cli ns [(''kubernetes.io/service-name'', n)] w = (Inr slices, w1)"
  shows "fst (GetEndpointsOfHeadlessService rt cli ns n cl w) = Panicked \<longleftrightarrow>
    (\<exists>es \<in> set slices. esAddressType es \<noteq> AddressTypeFQDN \<and>
       (\<exists>ep \<in> set (esEndpoints es). seTargetRef ep = None))"
  using assms(2) endpoints_of_slices_Panicked [OF assms(1), of cl slices]
  by (auto simp: GetEndpointsOfHeadlessService_def visited_def)

theorem headless_endpoints_panic_iff_witness:
  "let es = \<lparr>esNamespace = ''default'', esLabels = Some [(''kubernetes.io/service-name'', ''nginx'')], esOwner = Some ''nginx'',
       esAddressType = ''IPv4'', esEndpoints = [\<lparr>seAddresses = [''10.0.0.1''], seHostname = None,
         seTargetRef = None, seReady = Some False\<rparr>]\<rparr>
   in fst (GetEndpointsOfHeadlessService demo_runtime mem_kube ''default'' ''nginx'' demo_cluster
        (empty_memory\<lparr>memSlices := [es]\<rparr>)) = Panicked"
proof -
  let ?es = "\<lparr>esNamespace = ''default'', esLabels = Some [(''kubernetes.io/service-name'', ''nginx'')], esOwner = Some ''nginx'',
       esAddressType = ''IPv4'', esEndpoints = [\<lparr>seAddresses = [''10.0.0.1''], seHostname = None,
         seTargetRef = None, seReady = Some False\<rparr>]\<rparr>"
  have list: "kListSlices mem_kube ''default'' [(''kubernetes.io/service-name'', ''nginx'')]
      (empty_memory\<lparr>memSlices := [?es]\<rparr>) = (Inr [?es], empty_memory\<lparr>memSlices := [?es]\<rparr>)" by code_simp
  show ?thesis
    unfolding Let_def headless_endpoints_panic_iff [OF demo_runtimes_ok(1) list]
    by (simp add: AddressTypeFQDN_def)
qed

end
