(* ===== verification/Exporter.thy ===== *)
theory Exporter
  imports HeadlessEndpoints GlobalServiceManager ObjectKeySet
begin

text \<open>
  \<open>pkg/service-hub/exporter/service_exporter.go\<close>: the controller that exports the services of its
  own cluster.  Where it exports to is a pair of functions (\<open>ExportGlobalServiceFunc\<close>,
  \<open>RevokeGlobalServiceFunc\<close> of \<open>types/func.go\<close>): the manager of the same process in server mode,
  the HTTP client in client mode.  What it needs of them is the locale \<open>export_target\<close>; every
  global service manager is one, and the lemmas on \<open>Reconcile\<close> are proved over it once.
\<close>

section \<open>Operations\<close>

record 'w ExporterConfig =
  cfgClusterName :: string
  cfgZone :: string
  cfgRegion :: string
  cfgExport :: "GlobalService \<Rightarrow> 'w \<Rightarrow> go_error option \<times> 'w"
  cfgRevoke :: "string \<Rightarrow> string \<Rightarrow> string \<Rightarrow> 'w \<Rightarrow> go_error option \<times> 'w"

definition labelGlobalService :: string where
  "labelGlobalService = ''fabedge.io/global-service''"

text \<open>
  The reconciler and what \<open>newServiceExporter\<close> puts in it, and the part of a controller that the
  builder of controller-runtime is told: the objects whose changes it is called for, those owned by
  one, its name and its reconciler.
\<close>

record 'w serviceExporter =
  seConfig :: "'w ExporterConfig"
  seClient :: "'w kube"
  seServiceKeySet :: ObjectKeySet

definition newServiceExporter :: "'w kube \<Rightarrow> 'w ExporterConfig \<Rightarrow> 'w serviceExporter" where
  "newServiceExporter mgr cfg = \<lparr>seConfig = cfg, seClient = mgr, seServiceKeySet = NewObjectKeySet\<rparr>"

datatype watched = ServiceObjects | EndpointSliceObjects | GlobalServiceObjects

record 'r controller =
  ctlFor :: watched
  ctlOwns :: "watched list"
  ctlName :: string
  ctlReconciler :: 'r

definition nameExporter :: string where
  "nameExporter = ''serviceExporter''"

definition addExporterToManager :: "'w serviceExporter \<Rightarrow> 'w serviceExporter controller" where
  "addExporterToManager reconciler =
     \<lparr>ctlFor = ServiceObjects, ctlOwns = [EndpointSliceObjects], ctlName = nameExporter,
      ctlReconciler = reconciler\<rparr>"

definition isGlobalService :: "labels \<Rightarrow> bool" where
  "isGlobalService ls \<longleftrightarrow> ls \<noteq> None \<and> label_value ls labelGlobalService = ''true''"

definition shouldSkipService :: "Service \<Rightarrow> bool" where
  "shouldSkipService svc \<longleftrightarrow>
     \<not> isGlobalService (omLabels (svcMeta svc)) \<or> svcType svc \<noteq> ServiceTypeClusterIP"

text \<open>The keys exported so far are a map the value receiver shares with its copies.\<close>

definition revokeGlobalService ::
  "'w ExporterConfig \<Rightarrow> ObjectKey \<Rightarrow> ObjectKeySet \<Rightarrow> 'w \<Rightarrow> go_error option \<times> ObjectKeySet \<times> 'w" where
  "revokeGlobalService cfg k ks w =
     (if \<not> Has ks k then (None, ks, w)
      else case cfgRevoke cfg (cfgClusterName cfg) (okNamespace k) (okName k) w of
        (Some e, w1) \<Rightarrow> (Some e, ks, w1)
      | (None, w1) \<Rightarrow> (None, Delete ks k, w1))"

definition export_ports :: "Service \<Rightarrow> ServicePort list" where
  "export_ports svc =
     map (\<lambda>p. \<lparr>spName = cpName p, spProtocol = cpProtocol p, spAppProtocol = cpAppProtocol p,
               spPort = cpPort p\<rparr>) (svcPorts svc)"

definition clusterIP_endpoint :: "'w ExporterConfig \<Rightarrow> Service \<Rightarrow> Endpoint" where
  "clusterIP_endpoint cfg svc =
     \<lparr>epAddresses = svcClusterIPs svc, epHostname = None, epTargetRef = None,
      epCluster = cfgClusterName cfg, epZone = cfgZone cfg, epRegion = cfgRegion cfg\<rparr>"

definition export_object ::
  "'w ExporterConfig \<Rightarrow> Service \<Rightarrow> ServiceType \<Rightarrow> Endpoint list \<Rightarrow> GlobalService" where
  "export_object cfg svc ty eps =
     \<lparr>gsMeta = zero_meta\<lparr>omName := omName (svcMeta svc), omNamespace := omNamespace (svcMeta svc),
        omClusterName := cfgClusterName cfg\<rparr>,
      gsSpec = \<lparr>gsType = ty, gsPorts = export_ports svc, gsEndpoints = eps\<rparr>\<rparr>"

text \<open>The \<open>if svc.Spec.ClusterIP == corev1.ClusterIPNone\<close> of \<open>Reconcile\<close>: service type and endpoints.\<close>

definition service_endpoints ::
  "go_runtime \<Rightarrow> 'w kube \<Rightarrow> 'w ExporterConfig \<Rightarrow> Service \<Rightarrow> 'w
     \<Rightarrow> (go_error + ServiceType \<times> Endpoint list) outcome \<times> 'w" where
  "service_endpoints rt cli cfg svc w =
     (if svcClusterIP svc = ClusterIPNone then
        (case GetEndpointsOfHeadlessService rt cli (omNamespace (svcMeta svc)) (omName (svcMeta svc))
                \<lparr>ecName = cfgClusterName cfg, ecRegion = cfgRegion cfg, ecZone = cfgZone cfg\<rparr> w of
           (r, w1) \<Rightarrow> (bind_outcome r (\<lambda>x. Returned (map_sum id (Pair Headless) x)), w1))
      else (Returned (Inr (ClusterIP, [clusterIP_endpoint cfg svc])), w))"

definition Reconcile ::
  "go_runtime \<Rightarrow> 'w kube \<Rightarrow> 'w ExporterConfig \<Rightarrow> ObjectKey \<Rightarrow> ObjectKeySet \<times> 'w
     \<Rightarrow> go_error option outcome \<times> ObjectKeySet \<times> 'w" where
  "Reconcile rt cli cfg k = (\<lambda>(ks, w).
     case kGetService cli k w of
       (Inl e, w1) \<Rightarrow>
         if IsNotFound e then map_prod Returned id (revokeGlobalService cfg k ks w1)
         else (Returned (Some e), ks, w1)
     | (Inr svc, w1) \<Rightarrow>
         if shouldSkipService svc then map_prod Returned id (revokeGlobalService cfg k ks w1)
         else
           (case service_endpoints rt cli cfg svc w1 of
              (Panicked, w2) \<Rightarrow> (Panicked, ks, w2)
            | (Returned (Inl e), w2) \<Rightarrow> (Returned (Some e), ks, w2)
            | (Returned (Inr (ty, eps)), w2) \<Rightarrow>
                (case cfgExport cfg (export_object cfg svc ty eps) w2 of
                   (Some e, w3) \<Rightarrow> (Returned (Some e), ks, w3)
                 | (None, w3) \<Rightarrow> (Returned None, Add ks k, w3))))"

section \<open>Where a cluster exports to\<close>

text \<open>
  The contract of the two functions, as far as the cluster \<open>me\<close> uses them: an export that
  succeeds makes the exported endpoints those of \<open>me\<close> in the service, a revocation that succeeds
  takes them away; one that fails did all of it or nothing; nothing else changes.  The services
  the exporter makes carry neither labels nor annotations (\<open>exportable\<close>); \<open>legal\<close> is the keys
  that can be revoked.
\<close>

definition exportable :: "string \<Rightarrow> GlobalService \<Rightarrow> bool" where
  "exportable me g \<longleftrightarrow> own_endpoints g \<and> omClusterName (gsMeta g) = me \<and>
     omLabels (gsMeta g) = None \<and> omAnnotations (gsMeta g) = None"

locale export_target =
  fixes me :: string
    and legal :: "ObjectKey \<Rightarrow> bool"
    and export :: "GlobalService \<Rightarrow> 'w \<Rightarrow> go_error option \<times> 'w"
    and revoke :: "string \<Rightarrow> string \<Rightarrow> string \<Rightarrow> 'w \<Rightarrow> go_error option \<times> 'w"
    and view :: "'w \<Rightarrow> ObjectKey \<Rightarrow> string \<Rightarrow> Endpoint list"
  assumes export_ok: "export g w = (None, w') \<Longrightarrow> exportable me g \<Longrightarrow>
      view w' = set_view (keyFromObject g) me (endpoints_of g) (view w)"
    and export_atomic: "export g w = (r, w') \<Longrightarrow> exportable me g \<Longrightarrow>
      view w' = view w \<or> view w' = set_view (keyFromObject g) me (endpoints_of g) (view w)"
    and revoke_me_ok: "revoke me ns n w = (None, w') \<Longrightarrow> legal (ObjectKey ns n) \<Longrightarrow>
      view w' = set_view (ObjectKey ns n) me [] (view w)"
    and revoke_me_atomic: "revoke me ns n w = (r, w') \<Longrightarrow> legal (ObjectKey ns n) \<Longrightarrow>
      view w' = view w \<or> view w' = set_view (ObjectKey ns n) me [] (view w)"

sublocale global_service_manager \<subseteq> target: export_target me "\<lambda>_. True" merge revoke view for me
  by unfold_locales (auto simp: exportable_def dest: merge_ok merge_atomic revoke_ok revoke_atomic)

text \<open>The exporter's own reads do not change what the clusters export.\<close>

locale exporter_env = export_target me legal export revoke view
  for me :: string and legal export revoke and view :: "'w \<Rightarrow> ObjectKey \<Rightarrow> string \<Rightarrow> Endpoint list" +
  fixes K :: "'w kube"
  assumes get_service_view: "kGetService K k w = (rs, w') \<Longrightarrow> view w' = view w"
    and get_service_key: "kGetService K k w = (Inr s, w') \<Longrightarrow>
      ObjectKey (omNamespace (svcMeta s)) (omName (svcMeta s)) = k"
    and list_slices_view: "kListSlices K n ls w = (rl, w') \<Longrightarrow> view w' = view w"

sublocale kube_api \<subseteq> server: exporter_env me "\<lambda>_. True"
  "CreateOrMergeGlobalService (NewGlobalServiceManager K a)"
  "RevokeGlobalService (NewGlobalServiceManager K a)" "cluster_view objs" K for me a
  by unfold_locales
    (auto intro: cluster_view_objs get_service_frame list_slices_frame dest: get_service_keyed)

section \<open>Reconciling a service\<close>

text \<open>
  What the cluster should have in the service, going by what the API answers: nothing when the
  service is gone or not for export; undefined when a read fails or the code panics.
\<close>

definition wanted_endpoints ::
  "go_runtime \<Rightarrow> 'w kube \<Rightarrow> 'w ExporterConfig \<Rightarrow> ObjectKey \<Rightarrow> 'w \<Rightarrow> Endpoint list option" where
  "wanted_endpoints rt cli cfg k w =
     (case kGetService cli k w of
        (Inl e, w1) \<Rightarrow> if IsNotFound e then Some [] else None
      | (Inr svc, w1) \<Rightarrow>
          if shouldSkipService svc then Some []
          else (case fst (service_endpoints rt cli cfg svc w1) of
                  Returned (Inr (ty, eps)) \<Rightarrow> Some eps
                | _ \<Rightarrow> None))"

definition is_exported :: "'w kube \<Rightarrow> ObjectKey \<Rightarrow> 'w \<Rightarrow> bool" where
  "is_exported cli k w \<longleftrightarrow>
     (case fst (kGetService cli k w) of Inl _ \<Rightarrow> False | Inr svc \<Rightarrow> \<not> shouldSkipService svc)"

lemma headless_endpoints_cluster:
  assumes "go_runtime_ok rt"
    and "fst (GetEndpointsOfHeadlessService rt cli ns n cl w) = Returned (Inr eps)" and "e \<in> set eps"
  shows "epCluster e = ecName cl"
proof -
  obtain slices where "endpoints_of_slices rt cl slices = Returned eps"
    using assms(2) by (auto simp: GetEndpointsOfHeadlessService_def split: prod.splits sum.splits)
  from endpoints_of_slices_Returned(2) [OF assms(1) this, of e] assms(3)
  show ?thesis by (auto simp: joined_def split: list.splits)
qed

lemma export_object_fields [simp]:
  "keyFromObject (export_object cfg svc ty eps) =
     ObjectKey (omNamespace (svcMeta svc)) (omName (svcMeta svc))"
  "omClusterName (gsMeta (export_object cfg svc ty eps)) = cfgClusterName cfg"
  "omLabels (gsMeta (export_object cfg svc ty eps)) = None"
  "omAnnotations (gsMeta (export_object cfg svc ty eps)) = None"
  "endpoints_of (export_object cfg svc ty eps) = eps"
  by (simp_all add: export_object_def keyFromObject_def zero_meta_def)

lemma service_endpoints_own:
  assumes "go_runtime_ok rt"
    and "fst (service_endpoints rt cli cfg svc w) = Returned (Inr (ty, eps))"
  shows "exportable (cfgClusterName cfg) (export_object cfg svc ty eps)"
proof (cases "svcClusterIP svc = ClusterIPNone")
  case True
  let ?cl = "\<lparr>ecName = cfgClusterName cfg, ecRegion = cfgRegion cfg, ecZone = cfgZone cfg\<rparr>"
  let ?get = "GetEndpointsOfHeadlessService rt cli (omNamespace (svcMeta svc)) (omName (svcMeta svc)) ?cl w"
  obtain x where x: "fst ?get = Returned x" and m: "map_sum id (Pair Headless) x = Inr (ty, eps)"
    using True assms(2) by (auto simp: service_endpoints_def split: prod.splits)
  from m have "x = Inr eps" by (cases x) auto
  with x have got: "fst ?get = Returned (Inr eps)" by simp
  have "epCluster e = ecName ?cl" if "e \<in> set eps" for e
    by (rule headless_endpoints_cluster [OF assms(1) got that])
  then show ?thesis by (simp add: exportable_def own_endpoints_def)
next
  case False
  then show ?thesis
    using assms(2)
    by (auto simp: service_endpoints_def exportable_def own_endpoints_def clusterIP_endpoint_def)
qed

text \<open>The exporter's invariant: what the cluster has in the view is remembered as exported.\<close>

definition tracked ::
  "('w \<Rightarrow> ObjectKey \<Rightarrow> string \<Rightarrow> Endpoint list) \<Rightarrow> string \<Rightarrow> ObjectKeySet \<Rightarrow> 'w \<Rightarrow> ObjectKey \<Rightarrow> bool" where
  "tracked view me ks w k \<longleftrightarrow> (view w k me \<noteq> [] \<longrightarrow> Has ks k)"

lemma set_view_absorb: "v k c = eps \<Longrightarrow> set_view k c eps v = v"
  by (simp add: set_view_def fun_upd_idem)

context exporter_env begin

lemma service_endpoints_view: "service_endpoints rt K cfg svc w = (r, w') \<Longrightarrow> view w' = view w"
  by (auto simp: service_endpoints_def GetEndpointsOfHeadlessService_def
      split: if_splits prod.splits sum.splits dest: list_slices_view)

lemma Reconcile_cases:
  assumes "go_runtime_ok rt" and run: "Reconcile rt K cfg k (ks, w) = (r, ks', w')"
  obtains (failed) "ks' = ks" and "r \<noteq> Returned None" and "view w' = view w"
  | (revoked) w1 r0 where "view w1 = view w" and "\<not> is_exported K k w"
      and "wanted_endpoints rt K cfg k w = Some []"
      and "revokeGlobalService cfg k ks w1 = (r0, ks', w')" and "r = Returned r0"
  | (exported) g w2 e where "view w2 = view w" and "is_exported K k w"
      and "wanted_endpoints rt K cfg k w = Some (endpoints_of g)"
      and "exportable (cfgClusterName cfg) g" and "keyFromObject g = k"
      and "cfgExport cfg g w2 = (e, w')" and "r = Returned e"
      and "ks' = (if e = None then Add ks k else ks)"
proof -
  obtain res w1 where get: "kGetService K k w = (res, w1)" by force
  note view1 = get_service_view [OF get]
  show thesis
  proof (cases "\<exists>e. res = Inl e \<and> \<not> IsNotFound e")
    case True
    then show thesis using failed run get view1 by (auto simp: Reconcile_def)
  next
    case notfailed: False
    show thesis
    proof (cases "\<exists>svc. res = Inr svc \<and> \<not> shouldSkipService svc")
      case False
      then have res: "case res of Inl e \<Rightarrow> IsNotFound e | Inr svc \<Rightarrow> shouldSkipService svc"
        using notfailed by (cases res) auto
      obtain r0 ks0 w0 where "revokeGlobalService cfg k ks w1 = (r0, ks0, w0)" by (metis prod_cases3)
      then show thesis
        using revoked [OF view1] run get res
        by (auto simp: Reconcile_def wanted_endpoints_def is_exported_def split: sum.splits)
    next
      case True
      then obtain svc where svc: "res = Inr svc" "\<not> shouldSkipService svc" by blast
      obtain x w2 where eps: "service_endpoints rt K cfg svc w1 = (x, w2)" by force
      have view2: "view w2 = view w" using service_endpoints_view [OF eps] view1 by simp
      show thesis
      proof (cases "\<exists>ty eps. x = Returned (Inr (ty, eps))")
        case False
        then show thesis using failed run get svc eps view2
          by (auto simp: Reconcile_def split: outcome.splits sum.splits)
      next
        case True
        then obtain ty es where x: "x = Returned (Inr (ty, es))" by blast
        obtain e w3 where ex: "cfgExport cfg (export_object cfg svc ty es) w2 = (e, w3)" by force
        show thesis
        proof (rule exported [OF view2])
          show "cfgExport cfg (export_object cfg svc ty es) w2 = (e, w')" "r = Returned e"
            "ks' = (if e = None then Add ks k else ks)"
            using run get svc eps x ex by (auto simp: Reconcile_def split: option.splits)
          show "wanted_endpoints rt K cfg k w = Some (endpoints_of (export_object cfg svc ty es))"
            "is_exported K k w"
            using get svc eps x by (simp_all add: wanted_endpoints_def is_exported_def)
          show "keyFromObject (export_object cfg svc ty es) = k"
            using get_service_key get svc by simp
          show "exportable (cfgClusterName cfg) (export_object cfg svc ty es)"
            using service_endpoints_own [OF assms(1)] eps x by (metis fst_conv)
        qed
      qed
    qed
  qed
qed

lemma revokeGlobalService_cases:
  assumes "cfgRevoke cfg = revoke" and "cfgClusterName cfg = me"
    and "revokeGlobalService cfg k ks w = (r, ks', w')"
  obtains (untracked) "\<not> Has ks k" and "r = None" and "ks' = ks" and "w' = w"
  | (called) "Has ks k" and "revoke me (okNamespace k) (okName k) w = (r, w')"
      and "ks' = (if r = None then Delete ks k else ks)"
  using assms by (auto simp: revokeGlobalService_def split: if_splits prod.splits option.splits)

lemma Reconcile_atomic:
  assumes "go_runtime_ok rt"
    and cfg: "cfgClusterName cfg = me" "cfgExport cfg = export" "cfgRevoke cfg = revoke"
    and legal: "legal k"
    and run: "Reconcile rt K cfg k (ks, w) = (r, ks', w')"
  shows "(view w' = view w \<or> (\<exists>eps. wanted_endpoints rt K cfg k w = Some eps \<and>
      view w' = set_view k me eps (view w))) \<and> (\<forall>k'. k' \<noteq> k \<longrightarrow> Has ks' k' = Has ks k')"
  using assms(1) run
proof (cases rule: Reconcile_cases)
  case (revoked w1 r0)
  note view = \<open>view w1 = view w\<close> and wanted = \<open>wanted_endpoints rt K cfg k w = Some []\<close>
  show ?thesis
    using cfg(3,1) revoked(4)
  proof (cases rule: revokeGlobalService_cases)
    case called
    then show ?thesis
      using revoke_me_atomic [OF called(2)] view wanted legal by (auto simp: keys.has_del)
  qed (use view in auto)
next
  case (exported g w2 e)
  then show ?thesis
    using export_atomic [of g w2 e w'] cfg by (auto simp: keys.has_add)
qed auto

text \<open>Success, without an invariant: a service not for export is revoked when it is remembered.\<close>

lemma Reconcile_success:
  assumes "go_runtime_ok rt"
    and cfg: "cfgClusterName cfg = me" "cfgExport cfg = export" "cfgRevoke cfg = revoke"
    and legal: "legal k"
    and run: "Reconcile rt K cfg k (ks, w) = (Returned None, ks', w')"
  shows "(Has ks' k \<longleftrightarrow> is_exported K k w) \<and> (\<exists>eps. wanted_endpoints rt K cfg k w = Some eps \<and>
    (is_exported K k w \<or> eps = []) \<and>
    view w' = (if is_exported K k w \<or> Has ks k then set_view k me eps (view w) else view w))"
  using assms(1) run
proof (cases rule: Reconcile_cases)
  case (revoked w1 r0)
  show ?thesis
    using cfg(3,1) revoked(4)
  proof (cases rule: revokeGlobalService_cases)
    case called
    then show ?thesis
      using revoke_me_ok [of "okNamespace k" "okName k" w1 w'] revoked legal by (simp add: keys.has_del)
  qed (use revoked in simp)
next
  case (exported g w2 e)
  then show ?thesis
    using export_ok [of g w2 w'] cfg by (simp add: keys.has_add)
qed simp

lemma Reconcile_in_sync:
  assumes "go_runtime_ok rt"
    and cfg: "cfgClusterName cfg = me" "cfgExport cfg = export" "cfgRevoke cfg = revoke"
    and legal: "legal k"
    and run: "Reconcile rt K cfg k (ks, w) = (Returned None, ks', w')"
    and known: "tracked view me ks w k"
  shows "\<exists>eps. wanted_endpoints rt K cfg k w = Some eps \<and> view w' = set_view k me eps (view w) \<and>
      (Has ks' k \<longleftrightarrow> is_exported K k w) \<and> tracked view me ks' w' k"
  using assms(1) run
proof (cases rule: Reconcile_cases)
  case (revoked w1 r0)
  note view = \<open>view w1 = view w\<close> and wanted = \<open>wanted_endpoints rt K cfg k w = Some []\<close>
    and out = \<open>\<not> is_exported K k w\<close>
  show ?thesis
    using cfg(3,1) revoked(4)
  proof (cases rule: revokeGlobalService_cases)
    case untracked
    then have "view w k me = []" using known by (auto simp: tracked_def)
    then show ?thesis
      using untracked view wanted out by (simp add: set_view_absorb tracked_def)
  next
    case called
    then show ?thesis
      using revoke_me_ok [of "okNamespace k" "okName k" w1 w'] revoked(5) view wanted out legal
      by (simp add: keys.has_del tracked_def set_view_apply)
  qed
next
  case (exported g w2 e)
  then show ?thesis
    using export_ok [of g w2 w'] cfg by (simp add: keys.has_add tracked_def)
qed simp

end

context kube_api begin

lemmas server_in_sync = server.Reconcile_in_sync
lemmas server_atomic = server.Reconcile_atomic

end

section \<open>Properties\<close>

text \<open>
  The wiring of server mode (\<open>initAPIServer\<close>, \<open>initManagerRunnables\<close> of \<open>options.go\<close>): exports and
  revocations go to the manager of the same process.
\<close>

definition server_config :: "'w kube \<Rightarrow> bool \<Rightarrow> string \<Rightarrow> string \<Rightarrow> string \<Rightarrow> 'w ExporterConfig" where
  "server_config cli allow cluster zone region =
     \<lparr>cfgClusterName = cluster, cfgZone = zone, cfgRegion = region,
      cfgExport = CreateOrMergeGlobalService (NewGlobalServiceManager cli allow),
      cfgRevoke = RevokeGlobalService (NewGlobalServiceManager cli allow)\<rparr>"

lemma server_config_fields [simp]:
  "cfgClusterName (server_config cli a c z r) = c"
  "cfgExport (server_config cli a c z r) = CreateOrMergeGlobalService (NewGlobalServiceManager cli a)"
  "cfgRevoke (server_config cli a c z r) = RevokeGlobalService (NewGlobalServiceManager cli a)"
  by (simp_all add: server_config_def)

definition nginx_service :: Service where
  "nginx_service =
     \<lparr>svcMeta = (sample_meta ''default'' ''nginx'' [])\<lparr>omLabels := Some [(labelGlobalService, ''true'')]\<rparr>,
      svcType = ServiceTypeClusterIP, svcClusterIP = ClusterIPNone, svcClusterIPs = [ClusterIPNone],
      svcPorts = [\<lparr>cpName = ''web'', cpProtocol = ''TCP'', cpAppProtocol = None, cpPort = 80,
        cpTargetPort = ''8080'', cpNodePort = 0\<rparr>]\<rparr>"

definition nginx_hub :: memory where
  "nginx_hub = demo_world2\<lparr>memServices := [nginx_service], memSlices := demo_slices\<rparr>"

abbreviation nginx_config :: "memory ExporterConfig" where
  "nginx_config \<equiv> server_config mem_kube True ''beijing'' ''beijing'' ''north''"

text \<open>
  C11 (exporter_in_sync): when \<open>Reconcile\<close> reports success, the cluster has in the hub exactly the
  endpoints its service has now - none when the service is gone or not for export - in place of
  whatever it had, every other cluster and service is as before, and the service is
  remembered exactly when it is exported; this needs that what the cluster has in the service
  was remembered before, and gives the same again.
\<close>

theorem exporter_in_sync:
  assumes "kube_api K objs nss" and "go_runtime_ok rt"
    and "Reconcile rt K (server_config K a me z reg) k (ks, w) = (Returned None, ks', w')"
    and "cluster_view objs w k me \<noteq> [] \<longrightarrow> Has ks k"
  shows "\<exists>eps. wanted_endpoints rt K (server_config K a me z reg) k w = Some eps \<and>
    cluster_view objs w' = set_view k me eps (cluster_view objs w) \<and>
    (Has ks' k \<longleftrightarrow> is_exported K k w) \<and> (cluster_view objs w' k me \<noteq> [] \<longrightarrow> Has ks' k)"
  using kube_api.server_in_sync [OF assms(1,2) _ _ _ _ assms(3)] assms(4)
  by (simp add: tracked_def)

theorem exporter_in_sync_witness:
  "fst (Reconcile demo_runtime mem_kube nginx_config nginx_key (Add [] nginx_key, nginx_hub)) = Returned None \<and>
   map (concat \<circ> map epAddresses) (map (cluster_view mem_objs (snd (snd (Reconcile demo_runtime mem_kube
      nginx_config nginx_key (Add [] nginx_key, nginx_hub)))) nginx_key) [''beijing'', ''shanghai''])
     = [[''192.168.1.1'', ''FF01::1'', ''192.168.1.2'', ''FF01::2''], [''192.168.1.2'', ''FF01::2'']]"
proof -
  let ?run = "Reconcile demo_runtime mem_kube nginx_config nginx_key (Add [] nginx_key, nginx_hub)"
  have ok: "fst ?run = Returned None" by code_simp
  have run: "?run = (Returned None, fst (snd ?run), snd (snd ?run))" using ok by (metis prod.collapse)
  have known: "cluster_view mem_objs nginx_hub nginx_key ''beijing'' \<noteq> [] \<longrightarrow> Has (Add [] nginx_key) nginx_key"
    by code_simp
  have wanted: "map_option (concat \<circ> map epAddresses) (wanted_endpoints demo_runtime mem_kube nginx_config nginx_key nginx_hub)
      = Some [''192.168.1.1'', ''FF01::1'', ''192.168.1.2'', ''FF01::2'']" by code_simp
  have old: "concat (map epAddresses (cluster_view mem_objs nginx_hub nginx_key ''shanghai'')) = [''192.168.1.2'', ''FF01::2'']"
    by code_simp
  show ?thesis
    using exporter_in_sync [OF mem.kube_api_axioms demo_runtimes_ok(1) run known] wanted old ok
    by (auto simp: set_view_apply comp_def)
qed

text \<open>
  Whatever happens - a failed call, a panic - one \<open>Reconcile\<close> either
  leaves the hub as it was or puts the cluster's wanted endpoints into the service reconciled,
  completely; no other cluster, no other service and no other remembered key changes.
\<close>

theorem exporter_effects_confined:
  assumes "kube_api K objs nss" and "go_runtime_ok rt"
    and "Reconcile rt K (server_config K a me z reg) k (ks, w) = (r, ks', w')"
  shows "(cluster_view objs w' = cluster_view objs w \<or>
      (\<exists>eps. wanted_endpoints rt K (server_config K a me z reg) k w = Some eps \<and>
        cluster_view objs w' = set_view k me eps (cluster_view objs w))) \<and>
    (\<forall>k'. k' \<noteq> k \<longrightarrow> Has ks' k' = Has ks k')"
  using kube_api.server_atomic [OF assms(1,2) _ _ _ _ assms(3)] by simp

theorem exporter_effects_confined_witness:
  "let w = nginx_hub\<lparr>memFaults := [None, None, None, Some ''timeout'']\<rparr>;
       run = Reconcile demo_runtime mem_kube nginx_config nginx_key ([], w)
   in fst run = Returned (Some (StatusError ReasonUnknown ''timeout'')) \<and>
      \<not> Has (fst (snd run)) (ObjectKey ''default'' ''redis'')"
proof -
  let ?w = "nginx_hub\<lparr>memFaults := [None, None, None, Some ''timeout'']\<rparr>"
  let ?run = "Reconcile demo_runtime mem_kube nginx_config nginx_key ([], ?w)"
  have res: "fst ?run = Returned (Some (StatusError ReasonUnknown ''timeout''))" by code_simp
  have run: "?run = (fst ?run, fst (snd ?run), snd (snd ?run))" by simp
  have "Has (fst (snd ?run)) (ObjectKey ''default'' ''redis'') = Has [] (ObjectKey ''default'' ''redis'')"
    using exporter_effects_confined [OF mem.kube_api_axioms demo_runtimes_ok(1) run]
    by (simp add: nginx_key_def)
  then show ?thesis unfolding Let_def using res by (simp add: Has_def)
qed

text \<open>
  A service that is gone or no longer for export is revoked
  only if this process remembers having exported it; otherwise \<open>Reconcile\<close> reports success and
  does nothing but read - after a restart, or when an export failed at the client but was
  carried out, the endpoints stay in the hub.
\<close>

theorem unremembered_service_not_revoked:
  assumes "kGetService K k w = (res, w1)" and "\<not> Has ks k"
    and "case res of Inl e \<Rightarrow> IsNotFound e | Inr svc \<Rightarrow> shouldSkipService svc"
  shows "Reconcile rt K cfg k (ks, w) = (Returned None, ks, w1)"
  using assms by (auto simp: Reconcile_def revokeGlobalService_def split: sum.splits)

theorem unremembered_service_not_revoked_witness:
  "Reconcile demo_runtime mem_kube nginx_config nginx_key (NewObjectKeySet, demo_world2)
     = (Returned None, NewObjectKeySet, demo_world2) \<and>
   cluster_view mem_objs demo_world2 nginx_key ''beijing'' \<noteq> []"
proof -
  have get: "kGetService mem_kube nginx_key demo_world2
      = (Inl (StatusError ReasonNotFound ''not found''), demo_world2)" by code_simp
  have "cluster_view mem_objs demo_world2 nginx_key ''beijing'' \<noteq> []" by code_simp
  then show ?thesis
    using unremembered_service_not_revoked [OF get, of NewObjectKeySet] by (simp add: keys.has_new)
qed

end
