(* ===== verification/LostServiceRevoker.thy ===== *)
theory LostServiceRevoker
  imports Exporter
begin

text \<open>
  \<open>pkg/service-hub/exporter/lost_service_revoker.go\<close>: the second controller of the exporter, which
  looks at every global service of its own cluster's API and revokes the endpoints its cluster
  has in a service that is gone or no longer labelled.  It remembers nothing; it is what takes
  away the endpoints the exporter has forgotten.
\<close>

section \<open>Operations\<close>

text \<open>The reconciler, what \<open>newLostServiceRevoker\<close> puts in it, and its controller.\<close>

record 'w lostServiceRevoker =
  lrConfig :: "'w ExporterConfig"
  lrClient :: "'w kube"

definition newLostServiceRevoker :: "'w kube \<Rightarrow> 'w ExporterConfig \<Rightarrow> 'w lostServiceRevoker" where
  "newLostServiceRevoker mgr cfg = \<lparr>lrConfig = cfg, lrClient = mgr\<rparr>"

definition nameLostServiceRevoker :: string where
  "nameLostServiceRevoker = ''lostServiceRevoker''"

definition addDiffCheckerToManager :: "'w lostServiceRevoker \<Rightarrow> 'w lostServiceRevoker controller" where
  "addDiffCheckerToManager reconciler =
     \<lparr>ctlFor = GlobalServiceObjects, ctlOwns = [], ctlName = nameLostServiceRevoker,
      ctlReconciler = reconciler\<rparr>"

fun revoke_matching ::
  "'w ExporterConfig \<Rightarrow> GlobalService \<Rightarrow> Endpoint list \<Rightarrow> 'w \<Rightarrow> go_error option list \<times> 'w" where
  "revoke_matching cfg gs [] w = ([], w)"
| "revoke_matching cfg gs (e # es) w =
     (if epCluster e = cfgClusterName cfg then
        (case cfgRevoke cfg (cfgClusterName cfg) (omNamespace (gsMeta gs)) (omName (gsMeta gs)) w of
           (r, w1) \<Rightarrow> (case revoke_matching cfg gs es w1 of (rs, w2) \<Rightarrow> (r # rs, w2)))
      else revoke_matching cfg gs es w)"

text \<open>The errors of the calls, here the list of their results, are logged and dropped.\<close>

definition revokeGlobalServiceIfNecessary ::
  "'w ExporterConfig \<Rightarrow> GlobalService \<Rightarrow> 'w \<Rightarrow> go_error option \<times> 'w" where
  "revokeGlobalServiceIfNecessary cfg gs w = (None, snd (revoke_matching cfg gs (endpoints_of gs) w))"

definition lostServiceRevoker_Reconcile ::
  "'w kube \<Rightarrow> 'w ExporterConfig \<Rightarrow> ObjectKey \<Rightarrow> 'w \<Rightarrow> go_error option \<times> 'w" where
  "lostServiceRevoker_Reconcile cli cfg k w =
     (case kGetGS cli k w of
        (Inl e, w1) \<Rightarrow> (if IsNotFound e then None else Some e, w1)
      | (Inr gs, w1) \<Rightarrow>
          (case kGetService cli k w1 of
             (Inl e, w2) \<Rightarrow>
               if IsNotFound e then revokeGlobalServiceIfNecessary cfg gs w2 else (Some e, w2)
           | (Inr svc, w2) \<Rightarrow>
               if \<not> isGlobalService (omLabels (svcMeta svc))
               then revokeGlobalServiceIfNecessary cfg gs w2 else (None, w2)))"

section \<open>What the loop does\<close>

text \<open>One call for each endpoint of the cluster, not one for the service.\<close>

lemma revoke_matching_calls:
  "revoke_matching cfg gs es w = (rs, w') \<Longrightarrow>
     length rs = length (filter (\<lambda>e. epCluster e = cfgClusterName cfg) es)"
  by (induction es arbitrary: w rs) (auto split: prod.splits if_splits)

context export_target begin

lemma revoke_matching_view:
  assumes "cfgClusterName cfg = me" and "cfgRevoke cfg = revoke" and "legal (keyFromObject gs)"
    and "revoke_matching cfg gs es w = (rs, w')"
  shows "view w' = (if None \<in> set rs then set_view (keyFromObject gs) me [] (view w)
    else view w') \<and> (view w' = view w \<or> view w' = set_view (keyFromObject gs) me [] (view w))"
  using assms(4)
proof (induction es arbitrary: w rs)
  case Nil
  then show ?case by simp
next
  case (Cons e es)
  show ?case
  proof (cases "epCluster e = me")
    case False
    then show ?thesis using Cons assms(1) by simp
  next
    case True
    let ?gone = "set_view (keyFromObject gs) me []"
    obtain r w1 rs1 where call: "revoke me (omNamespace (gsMeta gs)) (omName (gsMeta gs)) w = (r, w1)"
      and rest: "revoke_matching cfg gs es w1 = (rs1, w')" and rs: "rs = r # rs1"
      using True Cons.prems assms by (auto split: prod.splits)
    have idem: "?gone (?gone v) = ?gone v" for v by (simp add: set_view_def)
    have 1: "view w1 = view w \<or> view w1 = ?gone (view w)" "r = None \<Longrightarrow> view w1 = ?gone (view w)"
      using revoke_me_atomic [OF call] revoke_me_ok call assms(3) by (auto simp: keyFromObject_def)
    from Cons.IH [OF rest] 1 show ?thesis
      unfolding rs by (auto simp: idem split: if_splits)
  qed
qed

end

context kube_api begin

lemma lost_service_loop:
  assumes "kGetGS K k w = (Inr gs, w1)" and "kGetService K k w1 = (res, w2)"
    and "case res of Inl e \<Rightarrow> IsNotFound e | Inr svc \<Rightarrow> \<not> isGlobalService (omLabels (svcMeta svc))"
    and "lostServiceRevoker_Reconcile K (server_config K a me z reg) k w = (r, w')"
  obtains rs where "r = None" and "length rs = length (cluster_view objs w k me)"
    and "revoke_matching (server_config K a me z reg) gs (endpoints_of gs) w2 = (rs, w')"
    and "cluster_view objs w' = cluster_view objs w \<or>
      cluster_view objs w' = set_view k me [] (cluster_view objs w)"
    and "None \<in> set rs \<or> rs = [] \<Longrightarrow> cluster_view objs w' = set_view k me [] (cluster_view objs w)"
proof -
  let ?cfg = "server_config K a me z reg"
  obtain rs where loop: "revoke_matching ?cfg gs (endpoints_of gs) w2 = (rs, w')" and r: "r = None"
    using assms by (cases "revoke_matching ?cfg gs (endpoints_of gs) w2")
      (auto simp: lostServiceRevoker_Reconcile_def revokeGlobalServiceIfNecessary_def split: sum.splits)
  have here: "objs w k = Some gs" using get_ok [OF assms(1)] .
  have key: "keyFromObject gs = k" using keyed [OF here] .
  have view: "cluster_view objs w2 = cluster_view objs w"
    using get_frame [OF assms(1)] get_service_frame [OF assms(2)] by (intro cluster_view_objs) simp
  have len: "length rs = length (cluster_view objs w k me)"
    using revoke_matching_calls [OF loop] here by (simp add: cluster_view_def)
  have "cluster_view objs w' = (if None \<in> set rs
      then set_view (keyFromObject gs) me [] (cluster_view objs w2) else cluster_view objs w') \<and>
    (cluster_view objs w' = cluster_view objs w2 \<or>
      cluster_view objs w' = set_view (keyFromObject gs) me [] (cluster_view objs w2))"
    by (rule gsm.target.revoke_matching_view [where a = a, OF _ _ _ loop]) simp_all
  then have effect: "cluster_view objs w' = (if None \<in> set rs
      then set_view k me [] (cluster_view objs w) else cluster_view objs w')"
    and atomic: "cluster_view objs w' = cluster_view objs w \<or>
      cluster_view objs w' = set_view k me [] (cluster_view objs w)"
    unfolding view key by blast+
  have same: "set_view k me [] (cluster_view objs w) = cluster_view objs w" if "rs = []"
    using len that by (simp add: set_view_def fun_upd_idem)
  show thesis
  proof (rule that [OF r len loop atomic])
    assume "None \<in> set rs \<or> rs = []"
    then show "cluster_view objs w' = set_view k me [] (cluster_view objs w)"
      using effect atomic same by metis
  qed
qed

lemma lost_service_kept:
  assumes "kGetService K k w1 = (Inr svc, w2)" and "kGetGS K k w = (res, w1)"
    and "isGlobalService (omLabels (svcMeta svc))"
    and "lostServiceRevoker_Reconcile K cfg k w = (r, w')"
  shows "cluster_view objs w' = cluster_view objs w"
proof -
  have "objs w' = objs w"
    using assms get_frame [OF assms(2)] get_service_frame [OF assms(1)]
    by (auto simp: lostServiceRevoker_Reconcile_def split: sum.splits if_splits)
  then show ?thesis by (rule cluster_view_objs)
qed

end

section \<open>Properties\<close>

text \<open>
  C28 (lost_service_revoked): for a global service whose service is gone or no longer labelled,
  \<open>Reconcile\<close> calls the revocation once for each endpoint of the cluster in it; if one of the
  calls succeeds the cluster has nothing left in the service and all else is as it was.  The
  result is success also when every call failed.
\<close>

theorem lost_service_revoked:
  assumes "kube_api K objs nss"
    and "kGetGS K k w = (Inr gs, w1)" and "kGetService K k w1 = (res, w2)"
    and "case res of Inl e \<Rightarrow> IsNotFound e | Inr svc \<Rightarrow> \<not> isGlobalService (omLabels (svcMeta svc))"
    and "lostServiceRevoker_Reconcile K (server_config K a me z reg) k w = (r, w')"
  shows "r = None \<and> (\<exists>rs. length rs = length (cluster_view objs w k me) \<and>
    revoke_matching (server_config K a me z reg) gs (endpoints_of gs) w2 = (rs, w') \<and>
    (if None \<in> set rs \<or> rs = [] then cluster_view objs w' = set_view k me [] (cluster_view objs w)
     else cluster_view objs w' \<in>
       {cluster_view objs w, set_view k me [] (cluster_view objs w)}))"
proof -
  obtain rs where "r = None" "length rs = length (cluster_view objs w k me)"
    "revoke_matching (server_config K a me z reg) gs (endpoints_of gs) w2 = (rs, w')"
    "cluster_view objs w' = cluster_view objs w \<or>
      cluster_view objs w' = set_view k me [] (cluster_view objs w)"
    "None \<in> set rs \<or> rs = [] \<Longrightarrow> cluster_view objs w' = set_view k me [] (cluster_view objs w)"
    using kube_api.lost_service_loop [OF assms] by metis
  then show ?thesis by (intro conjI exI [of _ rs]) auto
qed

theorem lost_service_revoked_witness:
  "lostServiceRevoker_Reconcile mem_kube nginx_config nginx_key demo_world2 =
     (None, snd (lostServiceRevoker_Reconcile mem_kube nginx_config nginx_key demo_world2)) \<and>
   cluster_view mem_objs (snd (lostServiceRevoker_Reconcile mem_kube nginx_config nginx_key demo_world2))
     nginx_key ''beijing'' = []"
proof -
  let ?run = "lostServiceRevoker_Reconcile mem_kube nginx_config nginx_key demo_world2"
  let ?gs = "the (mem_objs demo_world2 nginx_key)"
  have get: "kGetGS mem_kube nginx_key demo_world2 = (Inr ?gs, demo_world2)" by code_simp
  have svc: "kGetService mem_kube nginx_key demo_world2
      = (Inl (StatusError ReasonNotFound ''not found''), demo_world2)" by code_simp
  have run: "?run = (fst ?run, snd ?run)" by simp
  have rs: "fst (revoke_matching nginx_config ?gs (endpoints_of ?gs) demo_world2) = [None]" by code_simp
  from lost_service_revoked [OF mem.kube_api_axioms get svc _ run]
  obtain rs where 1: "fst ?run = None" and 2: "revoke_matching nginx_config ?gs (endpoints_of ?gs) demo_world2 = (rs, snd ?run)"
    and 3: "None \<in> set rs \<or> rs = [] \<Longrightarrow> cluster_view mem_objs (snd ?run) = set_view nginx_key ''beijing'' [] (cluster_view mem_objs demo_world2)"
    by (auto split: if_splits)
  from 2 rs have "rs = [None]" by simp
  with 1 3 run show ?thesis by (simp add: set_view_apply)
qed

text \<open>
  C29 (nodeport_service_leaks): the exporter takes a labelled service whose type is not ClusterIP
  as not for export, the revoker only looks at the label: when such a service is not among the
  remembered keys, neither controller takes the cluster's endpoints out of the hub, however
  often they run.
\<close>

theorem nodeport_service_leaks:
  assumes "kube_api K objs nss"
    and "kGetService K k w = (Inr svc, w1)" and "isGlobalService (omLabels (svcMeta svc))"
    and "svcType svc \<noteq> ServiceTypeClusterIP" and "\<not> Has ks k"
    and "kGetGS K k w1 = (res, w2)" and "kGetService K k w2 = (Inr svc, w3)"
    and "lostServiceRevoker_Reconcile K cfg k w1 = (r, w')"
  shows "Reconcile rt K cfg k (ks, w) = (Returned None, ks, w1) \<and>
    cluster_view objs w' = cluster_view objs w"
proof
  show "Reconcile rt K cfg k (ks, w) = (Returned None, ks, w1)"
    using assms(2-5) by (simp add: Reconcile_def revokeGlobalService_def shouldSkipService_def)
  have "objs w1 = objs w" by (rule kube_api.get_service_frame [OF assms(1,2)])
  then show "cluster_view objs w' = cluster_view objs w"
    using kube_api.lost_service_kept [OF assms(1,7,6,3,8)] cluster_view_objs [of objs w1 w] by simp
qed

definition nodeport_hub :: memory where
  "nodeport_hub = demo_world2\<lparr>memServices := [nginx_service\<lparr>svcType := ''NodePort''\<rparr>]\<rparr>"

theorem nodeport_service_leaks_witness:
  "let w1 = snd (snd (Reconcile demo_runtime mem_kube nginx_config nginx_key ([], nodeport_hub)));
       w2 = snd (lostServiceRevoker_Reconcile mem_kube nginx_config nginx_key w1)
   in cluster_view mem_objs w2 nginx_key ''beijing'' = cluster_view mem_objs nodeport_hub nginx_key ''beijing'' \<and>
      cluster_view mem_objs nodeport_hub nginx_key ''beijing'' = endpoints_of beijing"
proof -
  have get: "kGetService mem_kube nginx_key nodeport_hub = (Inr (nginx_service\<lparr>svcType := ''NodePort''\<rparr>), nodeport_hub)"
    by code_simp
  have label: "isGlobalService (omLabels (svcMeta (nginx_service\<lparr>svcType := ''NodePort''\<rparr>)))" by code_simp
  have type: "svcType (nginx_service\<lparr>svcType := ''NodePort''\<rparr>) \<noteq> ServiceTypeClusterIP" by code_simp
  have new: "\<not> Has [] nginx_key" by (simp add: Has_def)
  have gs: "kGetGS mem_kube nginx_key nodeport_hub = (fst (kGetGS mem_kube nginx_key nodeport_hub), nodeport_hub)"
    by code_simp
  have before: "cluster_view mem_objs nodeport_hub nginx_key ''beijing'' = endpoints_of beijing" by code_simp
  show ?thesis
    using nodeport_service_leaks [OF mem.kube_api_axioms get label type new gs get prod.collapse [symmetric],
        of demo_runtime] before
    by (simp add: Let_def)
qed

end
