(* ===== verification/Importer.thy ===== *)
theory Importer
  imports Namespace Samples ObjectKeySet
begin

text \<open>
  \<open>pkg/service-hub/importer/global_service_importer.go\<close>: in client mode, the runnable that copies
  the global services of the hub into the cluster's own API and deletes those the hub no longer
  has.  Every service is written or deleted by a goroutine of its own; which of them run before
  the local services are listed, and in what order the others run, is a schedule the model takes
  as an argument.  A goroutine is one step: it works on one service, and the namespaces they
  share are only ever created.
\<close>

section \<open>Operations\<close>

record 'w ImporterConfig =
  icInterval :: int
  icRequestTimeout :: int
  icManager :: "'w kube option"
  icGetGlobalServices :: "('w \<Rightarrow> (go_error + GlobalService list) \<times> 'w) option"
  icAllowCreateNamespace :: bool

record 'w globalServiceImporter =
  imInterval :: int
  imClient :: "'w kube"
  imGet :: "'w \<Rightarrow> (go_error + GlobalService list) \<times> 'w"
  imAllowCreateNamespace :: bool

text \<open>\<open>AddToManager\<close>: the importer it adds, or the complaint about the configuration.\<close>

definition AddToManager :: "'w ImporterConfig \<Rightarrow> go_error + 'w globalServiceImporter" where
  "AddToManager cfg =
     (if icInterval cfg = 0 then Inl (TextError ''interval is too small'')
      else if icRequestTimeout cfg = 0 then Inl (TextError ''request timeout is too small'')
      else case icManager cfg of
        None \<Rightarrow> Inl (TextError ''controller manager is required'')
      | Some cli \<Rightarrow>
          (case icGetGlobalServices cfg of
             None \<Rightarrow> Inl (TextError ''GetGlobalServices is required'')
           | Some get \<Rightarrow> Inr \<lparr>imInterval = icInterval cfg, imClient = cli, imGet = get,
               imAllowCreateNamespace = icAllowCreateNamespace cfg\<rparr>))"

text \<open>The mutate function of \<open>createOrUpdateGlobalService\<close>.\<close>

definition set_label :: "string \<Rightarrow> string \<Rightarrow> labels \<Rightarrow> labels" where
  "set_label k v ls = map_option (AList.update k v) ls"

definition importMutate :: "GlobalService \<Rightarrow> GlobalService \<Rightarrow> go_error + GlobalService" where
  "importMutate src svc =
     (let svc1 = (if labels_len (omLabels (gsMeta svc)) = 0
                  then svc\<lparr>gsMeta := (gsMeta svc)\<lparr>omLabels := Some [(KeyCreatedBy, AppServiceHub)]\<rparr>\<rparr>
                  else svc);
          originResourceVersion = label_value (omLabels (gsMeta svc1)) KeyOriginResourceVersion
      in if originResourceVersion \<noteq> '''' \<and> originResourceVersion = omResourceVersion (gsMeta src)
         then Inr svc1
         else Inr (svc1\<lparr>gsMeta := (gsMeta svc1)\<lparr>omLabels := set_label KeyOriginResourceVersion
                     (omResourceVersion (gsMeta src)) (omLabels (gsMeta svc1))\<rparr>,
                   gsSpec := gsSpec src\<rparr>))"

text \<open>The goroutines; their errors are logged, here the results they end with.\<close>

definition createOrUpdateGlobalService ::
  "'w globalServiceImporter \<Rightarrow> GlobalService \<Rightarrow> 'w \<Rightarrow> go_error option \<times> 'w" where
  "createOrUpdateGlobalService im src w =
     (case (if imAllowCreateNamespace im then Ensure (imClient im) (omNamespace (gsMeta src)) w
            else (None, w)) of
        (Some e, w1) \<Rightarrow> (Some e, w1)
      | (None, w1) \<Rightarrow>
          kCreateOrUpdateGS (imClient im)
            \<lparr>gsMeta = zero_meta\<lparr>omName := omName (gsMeta src), omNamespace := omNamespace (gsMeta src)\<rparr>,
             gsSpec = zero_spec\<rparr>
            (importMutate src) w1)"

definition deleteService ::
  "'w globalServiceImporter \<Rightarrow> GlobalService \<Rightarrow> 'w \<Rightarrow> go_error option \<times> 'w" where
  "deleteService im svc w = kDeleteGS (imClient im) svc w"

datatype import_task = CreateTask GlobalService | DeleteTask GlobalService

fun run_task :: "'w globalServiceImporter \<Rightarrow> import_task \<Rightarrow> 'w \<Rightarrow> go_error option \<times> 'w" where
  "run_task im (CreateTask src) w = createOrUpdateGlobalService im src w"
| "run_task im (DeleteTask svc) w = deleteService im svc w"

fun run_tasks :: "'w globalServiceImporter \<Rightarrow> import_task list \<Rightarrow> 'w \<Rightarrow> go_error option list \<times> 'w" where
  "run_tasks im [] w = ([], w)"
| "run_tasks im (t # ts) w =
     (case run_task im t w of (r, w1) \<Rightarrow>
        case run_tasks im ts w1 of (rs, w2) \<Rightarrow> (r # rs, w2))"

definition importedKeys :: "GlobalService list \<Rightarrow> ObjectKeySet" where
  "importedKeys services = fold (\<lambda>svc ks. Add ks (keyFromObject svc)) services NewObjectKeySet"

text \<open>
  The schedule: which of the tasks started first run before the list is read, and the order in
  which all the others then run.
\<close>

record import_schedule =
  isBefore :: "import_task list \<Rightarrow> import_task list"
  isAfter :: "import_task list \<Rightarrow> import_task list"
  isOrder :: "import_task list \<Rightarrow> import_task list"

definition import_schedule_ok :: "import_schedule \<Rightarrow> bool" where
  "import_schedule_ok sch \<longleftrightarrow>
     (\<forall>ts. mset (isBefore sch ts) + mset (isAfter sch ts) = mset ts) \<and> range_order (isOrder sch)"

definition importServices ::
  "import_schedule \<Rightarrow> 'w globalServiceImporter \<Rightarrow> 'w \<Rightarrow> (go_error + go_error option list) \<times> 'w" where
  "importServices sch im w =
     (case imGet im w of
        (Inl e, w1) \<Rightarrow> (Inl e, w1)
      | (Inr services, w1) \<Rightarrow>
          let importedKeySet = importedKeys services;
              creates = map CreateTask services
          in case run_tasks im (isBefore sch creates) w1 of
               (rs1, w2) \<Rightarrow>
                 (case kListGS (imClient im) w2 of
                    (Inl e, w3) \<Rightarrow>
                      (case run_tasks im (isOrder sch (isAfter sch creates)) w3 of (rs2, w4) \<Rightarrow> (Inl e, w4))
                  | (Inr items, w3) \<Rightarrow>
                      (let deletes = map DeleteTask
                             (filter (\<lambda>svc. \<not> Has importedKeySet (keyFromObject svc)) items)
                       in case run_tasks im (isOrder sch (isAfter sch creates @ deletes)) w3 of
                            (rs2, w4) \<Rightarrow> (Inr (rs1 @ rs2), w4))))"

text \<open>\<open>Start\<close>: one import at once, then one for every tick until the context is done.
  \<open>NewTicker\<close> panics on an interval that is not positive.\<close>

fun import_ticks ::
  "'w globalServiceImporter \<Rightarrow> import_schedule list \<Rightarrow> 'w \<Rightarrow> (go_error + go_error option list) list \<times> 'w" where
  "import_ticks im [] w = ([], w)"
| "import_ticks im (sch # schs) w =
     (case importServices sch im w of (r, w1) \<Rightarrow>
        case import_ticks im schs w1 of (rs, w2) \<Rightarrow> (r # rs, w2))"

definition Start ::
  "'w globalServiceImporter \<Rightarrow> import_schedule \<Rightarrow> import_schedule list \<Rightarrow> 'w
     \<Rightarrow> ((go_error + go_error option list) list \<times> 'w) outcome" where
  "Start im first ticks w =
     (if imInterval im \<le> 0 then Panicked else Returned (import_ticks im (first # ticks) w))"

section \<open>What a task leaves behind\<close>

definition version :: "GlobalService \<Rightarrow> string" where
  "version g = label_value (omLabels (gsMeta g)) KeyOriginResourceVersion"

text \<open>What the importer cares about in a local service, and what importing makes of it.\<close>

definition copy_of :: "GlobalService \<Rightarrow> string \<times> GlobalServiceSpec" where
  "copy_of g = (version g, gsSpec g)"

definition import_result :: "GlobalService option \<Rightarrow> GlobalService \<Rightarrow> string \<times> GlobalServiceSpec" where
  "import_result old src =
     (case old of
        Some g \<Rightarrow> if version g \<noteq> [] \<and> version g = omResourceVersion (gsMeta src) then copy_of g
                  else (omResourceVersion (gsMeta src), gsSpec src)
      | None \<Rightarrow> (omResourceVersion (gsMeta src), gsSpec src))"

fun task_key :: "import_task \<Rightarrow> ObjectKey" where
  "task_key (CreateTask src) = keyFromObject src"
| "task_key (DeleteTask svc) = keyFromObject svc"

fun task_result :: "import_task \<Rightarrow> GlobalService option \<Rightarrow> (string \<times> GlobalServiceSpec) option" where
  "task_result (CreateTask src) old = Some (import_result old src)"
| "task_result (DeleteTask svc) old = None"

lemma label_value_set:
  "ls \<noteq> None \<Longrightarrow> label_value (set_label k v ls) k' = (if k' = k then v else label_value ls k')"
  by (cases ls) (simp_all add: label_value_def set_label_def gomap)

lemma importMutate_copy:
  assumes "importMutate src svc = Inr g"
  shows "copy_of g = import_result (Some svc) src"
proof (cases "labels_len (omLabels (gsMeta svc)) = 0")
  case True
  then have "version svc = []"
    by (auto simp: version_def labels_len_def label_value_def split: option.splits)
  then show ?thesis
    using assms True
    by (auto simp: importMutate_def import_result_def copy_of_def version_def set_label_def
        label_value_def Let_def gomap)
next
  case False
  then have "omLabels (gsMeta svc) \<noteq> None"
    by (cases "omLabels (gsMeta svc)") (auto simp: labels_len_def)
  with False assms show ?thesis
    by (auto simp: importMutate_def import_result_def copy_of_def version_def label_value_set Let_def
        split: if_splits)
qed

lemma stored_as_copy: "stored_as g g' \<Longrightarrow> copy_of g' = copy_of g"
  by (simp add: stored_as_def copy_of_def version_def)

lemma import_result_fresh:
  "import_result (Some \<lparr>gsMeta = zero_meta\<lparr>omName := n, omNamespace := ns\<rparr>, gsSpec = sp\<rparr>) src = import_result None src"
  by (simp add: import_result_def version_def zero_meta_def label_value_def)

context kube_api begin

lemma create_task_cases:
  assumes "imClient im = K" and "createOrUpdateGlobalService im src w = (r, w')"
  obtains (namespace) e where "r = Some e" and "objs w' = objs w"
  | (applied) w1 where "objs w1 = objs w"
      and "kCreateOrUpdateGS K
        \<lparr>gsMeta = zero_meta\<lparr>omName := omName (gsMeta src), omNamespace := omNamespace (gsMeta src)\<rparr>,
         gsSpec = zero_spec\<rparr> (importMutate src) w1 = (r, w')"
proof (cases "imAllowCreateNamespace im")
  case True
  obtain r1 w1 where ns: "Ensure K (omNamespace (gsMeta src)) w = (r1, w1)" by force
  with True assms that Ensure_frame [OF ns] show thesis
    by (cases r1) (auto simp: createOrUpdateGlobalService_def)
next
  case False
  with assms that show thesis by (auto simp: createOrUpdateGlobalService_def)
qed

lemma applied_copy:
  assumes "importMutate src (case objs w k of None \<Rightarrow>
      \<lparr>gsMeta = zero_meta\<lparr>omName := n, omNamespace := ns\<rparr>, gsSpec = zero_spec\<rparr> | Some old \<Rightarrow> old) = Inr g"
    and "objs w' k = Some g'" and "stored_as g g'"
  shows "map_option copy_of (objs w' k) = Some (import_result (objs w k) src)"
  using importMutate_copy [OF assms(1)] assms(2) stored_as_copy [OF assms(3)]
  by (auto simp: import_result_fresh split: option.splits)

lemma run_task_laws:
  assumes im: "imClient im = K" and run: "run_task im t w = (r, w')"
  shows "k \<noteq> task_key t \<Longrightarrow> objs w' k = objs w k"
    and "r = None \<Longrightarrow> map_option copy_of (objs w' (task_key t)) = task_result t (objs w (task_key t))"
    and "objs w' (task_key t) = objs w (task_key t) \<or>
      map_option copy_of (objs w' (task_key t)) = task_result t (objs w (task_key t))"
proof (atomize (full), cases t)
  case (DeleteTask svc)
  then have del: "kDeleteGS K svc w = (r, w')" using run im by (simp add: deleteService_def)
  show "(k \<noteq> task_key t \<longrightarrow> objs w' k = objs w k) \<and>
    (r = None \<longrightarrow> map_option copy_of (objs w' (task_key t)) = task_result t (objs w (task_key t))) \<and>
    (objs w' (task_key t) = objs w (task_key t) \<or>
      map_option copy_of (objs w' (task_key t)) = task_result t (objs w (task_key t)))"
    using delete_frame [OF del] delete_ok [of svc w w'] delete_atomic [OF del] del DeleteTask by auto
next
  case (CreateTask src)
  then have "createOrUpdateGlobalService im src w = (r, w')" using run by simp
  with im show "(k \<noteq> task_key t \<longrightarrow> objs w' k = objs w k) \<and>
    (r = None \<longrightarrow> map_option copy_of (objs w' (task_key t)) = task_result t (objs w (task_key t))) \<and>
    (objs w' (task_key t) = objs w (task_key t) \<or>
      map_option copy_of (objs w' (task_key t)) = task_result t (objs w (task_key t)))"
  proof (cases rule: create_task_cases)
    case (applied w1)
    have key: "keyFromObject \<lparr>gsMeta = zero_meta\<lparr>omName := omName (gsMeta src),
        omNamespace := omNamespace (gsMeta src)\<rparr>, gsSpec = zero_spec\<rparr> = task_key t"
      using CreateTask by (simp add: keyFromObject_def zero_meta_def)
    have result: "task_result t (objs w (task_key t)) = Some (import_result (objs w (task_key t)) src)"
      using CreateTask by simp
    note frame = apply_frame [OF applied(2), unfolded key applied(1)]
      and atomic = apply_atomic [OF applied(2), unfolded key applied(1)]
    have ok: "map_option copy_of (objs w' (task_key t)) = Some (import_result (objs w (task_key t)) src)"
      if "r = None"
      using apply_ok [OF applied(2) [unfolded that], unfolded key applied(1)] applied_copy by blast
    show ?thesis
      unfolding result using frame ok atomic applied_copy by blast
  qed simp
qed

lemma run_tasks_frame:
  assumes "imClient im = K"
  shows "run_tasks im ts w = (rs, w') \<Longrightarrow> k \<notin> task_key ` set ts \<Longrightarrow> objs w' k = objs w k"
proof (induction ts arbitrary: w rs)
  case (Cons t ts)
  obtain r w1 where step: "run_task im t w = (r, w1)" by force
  with Cons.prems obtain rs' where rest: "run_tasks im ts w1 = (rs', w')"
    by (auto split: prod.splits)
  show ?case using Cons.IH [OF rest] run_task_laws(1) [OF assms step] Cons.prems(2) by simp
qed simp

lemma run_tasks_ok:
  assumes "imClient im = K"
  shows "run_tasks im ts w = (rs, w') \<Longrightarrow> distinct (map task_key ts) \<Longrightarrow> set rs \<subseteq> {None} \<Longrightarrow>
    t \<in> set ts \<Longrightarrow> map_option copy_of (objs w' (task_key t)) = task_result t (objs w (task_key t))"
proof (induction ts arbitrary: w rs)
  case (Cons u ts)
  obtain r w1 where step: "run_task im u w = (r, w1)" by force
  with Cons.prems obtain rs' where rest: "run_tasks im ts w1 = (rs', w')" and rs: "rs = r # rs'"
    by (auto split: prod.splits)
  note laws = run_task_laws [OF assms step]
  show ?case
  proof (cases "t = u")
    case True
    then have "objs w' (task_key t) = objs w1 (task_key t)"
      using run_tasks_frame [OF assms rest] Cons.prems(2) by simp
    then show ?thesis using laws(2) True rs Cons.prems(3) by simp
  next
    case False
    then have "t \<in> set ts" using Cons.prems(4) by simp
    moreover from this have "task_key t \<noteq> task_key u"
      using Cons.prems(2) by simp (metis image_eqI)
    ultimately show ?thesis
      using Cons.IH [OF rest] laws(1) Cons.prems(2,3) rs by simp
  qed
qed simp

end

section \<open>One import\<close>

lemma importedKeys_Has: "Has (importedKeys services) k \<longleftrightarrow> k \<in> keyFromObject ` set services"
  unfolding importedKeys_def by (rule keys.has_collected)

lemma import_schedule_sets:
  assumes "import_schedule_ok sch"
  shows "set (isBefore sch ts) \<union> set (isAfter sch ts) = set ts"
    and "distinct (map f ts) \<Longrightarrow> distinct (map f (isBefore sch ts) @ map f (isAfter sch ts))"
    and "set (isOrder sch ts) = set ts"
    and "distinct (map f (isOrder sch ts)) = distinct (map f ts)"
proof -
  have m: "mset (isBefore sch ts @ isAfter sch ts) = mset ts" and o: "range_order (isOrder sch)"
    using assms by (simp_all add: import_schedule_ok_def)
  show "set (isBefore sch ts) \<union> set (isAfter sch ts) = set ts"
    using mset_eq_setD [OF m] by simp
  have "mset (map f (isBefore sch ts @ isAfter sch ts)) = mset (map f ts)"
    unfolding mset_map m ..
  from mset_eq_imp_distinct_iff [OF this]
  show "distinct (map f ts) \<Longrightarrow> distinct (map f (isBefore sch ts) @ map f (isAfter sch ts))" by simp
  show "set (isOrder sch ts) = set ts" by (rule range_order_set [OF o])
  have "mset (map f (isOrder sch ts)) = mset (map f ts)"
    unfolding mset_map range_order_mset [OF o] ..
  from mset_eq_imp_distinct_iff [OF this] show "distinct (map f (isOrder sch ts)) = distinct (map f ts)" .
qed

context kube_api begin

lemma import_all_ok:
  assumes im: "imClient im = K" and sch: "import_schedule_ok sch"
    and get: "imGet im w = (Inr services, w1)" and same: "objs w1 = objs w"
    and dist: "distinct (map keyFromObject services)"
    and run: "importServices sch im w = (Inr rs, w')" and ok: "set rs \<subseteq> {None}"
  shows "map_option copy_of (objs w' k) =
    map_option (import_result (objs w k)) (map_of (map (\<lambda>s. (keyFromObject s, s)) services) k)"
proof -
  define creates where "creates = map CreateTask services"
  obtain rs1 w2 where first: "run_tasks im (isBefore sch creates) w1 = (rs1, w2)" by force
  obtain items w3 where lst: "kListGS K w2 = (Inr items, w3)"
    using run im get first by (auto simp: importServices_def creates_def Let_def split: prod.splits sum.splits)
  define deletes where
    "deletes = map DeleteTask (filter (\<lambda>svc. \<not> Has (importedKeys services) (keyFromObject svc)) items)"
  let ?later = "isOrder sch (isAfter sch creates @ deletes)"
  obtain rs2 where second: "run_tasks im ?later w3 = (rs2, w')" and rs: "rs = rs1 @ rs2"
    using run im get first lst
    by (auto simp: importServices_def creates_def deletes_def Let_def split: prod.splits)
  have ok1: "set rs1 \<subseteq> {None}" and ok2: "set rs2 \<subseteq> {None}" using ok rs by auto
  have w3: "objs w3 = objs w2" by (rule list_frame [OF lst])
  have keys: "map task_key creates = map keyFromObject services" by (simp add: creates_def)
  have d: "distinct (map task_key (isBefore sch creates) @ map task_key (isAfter sch creates))"
    by (rule import_schedule_sets(2) [OF sch]) (simp add: keys dist)
  have disjoint: "task_key ` set (isBefore sch creates) \<inter> task_key ` set (isAfter sch creates) = {}"
    using d by simp
  have both: "set (isBefore sch creates) \<union> set (isAfter sch creates) = set creates"
    by (rule import_schedule_sets(1) [OF sch])
  have afters: "task_key ` set (isAfter sch creates) \<subseteq> keyFromObject ` set services"
    and befores: "task_key ` set (isBefore sch creates) \<subseteq> keyFromObject ` set services"
    using both keys by (metis Un_upper1 Un_upper2 image_mono list.set_map)+
  have del_keys: "task_key ` set deletes = {k. objs w2 k \<noteq> None} - keyFromObject ` set services"
  proof (intro set_eqI iffI)
    fix k
    assume "k \<in> task_key ` set deletes"
    then obtain g where "g \<in> set items" "keyFromObject g = k" "k \<notin> keyFromObject ` set services"
      by (auto simp: deletes_def importedKeys_Has)
    then show "k \<in> {k. objs w2 k \<noteq> None} - keyFromObject ` set services"
      using list_ok [OF lst] by auto
  next
    fix k
    assume k: "k \<in> {k. objs w2 k \<noteq> None} - keyFromObject ` set services"
    then obtain g where g: "objs w2 k = Some g" by auto
    then have "keyFromObject g = k" by (rule keyed)
    then have "DeleteTask g \<in> set deletes"
      using list_ok [OF lst] k g by (simp add: deletes_def importedKeys_Has)
    then show "k \<in> task_key ` set deletes"
      using \<open>keyFromObject g = k\<close> by (metis image_eqI task_key.simps(2))
  qed
  have "distinct (map keyFromObject items)" using list_ok [OF lst] by simp
  then have "distinct (map task_key deletes)"
    by (simp add: deletes_def comp_def distinct_map_filter)
  then have later: "distinct (map task_key ?later)"
    unfolding import_schedule_sets(4) [OF sch] using d afters del_keys by auto
  have later_set: "set ?later = set (isAfter sch creates) \<union> set deletes"
    using import_schedule_sets(3) [OF sch] by simp
  show ?thesis
  proof (cases "k \<in> keyFromObject ` set services")
    case False
    then have none: "map_of (map (\<lambda>s. (keyFromObject s, s)) services) k = None"
      by (simp add: map_of_eq_None_iff image_image)
    have "objs w' k = None"
    proof (cases "objs w2 k")
      case None
      then have "k \<notin> task_key ` set ?later" using False afters del_keys later_set by blast
      then show ?thesis using run_tasks_frame [OF im second] None w3 by simp
    next
      case (Some g)
      then have "k \<in> task_key ` set deletes" using del_keys False by simp
      then obtain t where t: "t \<in> set deletes" "task_key t = k" by blast
      then have "task_result t (objs w3 k) = None" by (auto simp: deletes_def)
      then show ?thesis
        using run_tasks_ok [OF im second later ok2, of t] t later_set by simp
    qed
    then show ?thesis using none by simp
  next
    case True
    then obtain src where src: "src \<in> set services" "keyFromObject src = k" by blast
    have look: "map_of (map (\<lambda>s. (keyFromObject s, s)) services) k = Some src"
      using src dist by (intro map_of_is_SomeI) (auto simp: comp_def)
    let ?t = "CreateTask src"
    have "?t \<in> set creates" using src by (simp add: creates_def)
    then consider "?t \<in> set (isBefore sch creates)" | "?t \<in> set (isAfter sch creates)" using both by blast
    then show ?thesis
    proof cases
      case 1
      have "k \<in> task_key ` set (isBefore sch creates)"
        using 1 src(2) by (metis image_eqI task_key.simps(1))
      then have "k \<notin> task_key ` set (isAfter sch creates)" using disjoint by blast
      then have "k \<notin> task_key ` set ?later" using True del_keys later_set by blast
      then have "objs w' k = objs w2 k" using run_tasks_frame [OF im second] w3 by simp
      then show ?thesis
        using run_tasks_ok [OF im first _ ok1 1] d src(2) look same by simp
    next
      case 2
      have "k \<in> task_key ` set (isAfter sch creates)"
        using 2 src(2) by (metis image_eqI task_key.simps(1))
      then have "k \<notin> task_key ` set (isBefore sch creates)" using disjoint by blast
      then have "objs w3 k = objs w k" using run_tasks_frame [OF im first] w3 same by simp
      then show ?thesis
        using run_tasks_ok [OF im second later ok2, of ?t] 2 later_set src(2) look by simp
    qed
  qed
qed

end

section \<open>Properties\<close>

text \<open>
  The hub of the witnesses has one service, at version 7; the member has an older copy of another
  and a stale copy of this one.
\<close>

definition member_of :: "'w kube \<Rightarrow> ('w \<Rightarrow> (go_error + GlobalService list) \<times> 'w) \<Rightarrow> bool \<Rightarrow> 'w globalServiceImporter" where
  "member_of cli get allow =
     \<lparr>imInterval = 60000000000, imClient = cli, imGet = get, imAllowCreateNamespace = allow\<rparr>"

definition hub_services :: "GlobalService list" where
  "hub_services = [beijing\<lparr>gsMeta := (sample_meta ''default'' ''nginx'' [])\<lparr>omResourceVersion := ''7''\<rparr>\<rparr>]"

definition stale_member :: memory where
  "stale_member = empty_memory\<lparr>memGS :=
     [shanghai\<lparr>gsMeta := (sample_meta ''default'' ''redis'' [])\<lparr>omResourceVersion := ''1''\<rparr>\<rparr>,
      shanghai\<lparr>gsMeta := (sample_meta ''default'' ''nginx'' [])\<lparr>omResourceVersion := ''2'',
        omLabels := Some [(KeyOriginResourceVersion, ''6'')]\<rparr>\<rparr>]\<rparr>"

definition demo_importer :: "memory globalServiceImporter" where
  "demo_importer = member_of mem_kube (\<lambda>w. (Inr hub_services, w)) True"

definition eager :: import_schedule where
  "eager = \<lparr>isBefore = (\<lambda>ts. ts), isAfter = (\<lambda>_. []), isOrder = rev\<rparr>"

definition lazy :: import_schedule where
  "lazy = \<lparr>isBefore = (\<lambda>_. []), isAfter = (\<lambda>ts. ts), isOrder = rev\<rparr>"

text \<open>
  C12 (import_converges): an import whose calls all succeed leaves in the cluster exactly the
  services of the hub, whatever was there before and however the goroutines are scheduled: each
  with the hub's specification and labelled with the hub's version - except that a local copy
  which already carries that version is kept as it is - and every other service is deleted.
\<close>

theorem import_converges:
  assumes "kube_api K objs nss" and "import_schedule_ok sch"
    and "get w = (Inr services, w1)" and "objs w1 = objs w" and "distinct (map keyFromObject services)"
    and "importServices sch (member_of K get a) w = (Inr rs, w')" and "set rs \<subseteq> {None}"
  shows "map_option copy_of (objs w' k) =
    map_option (import_result (objs w k)) (map_of (map (\<lambda>s. (keyFromObject s, s)) services) k)"
  using kube_api.import_all_ok [OF assms(1) _ assms(2) _ assms(4,5,6,7)] assms(3)
  by (simp add: member_of_def)

lemma schedules_ok: "import_schedule_ok eager" "import_schedule_ok lazy"
  by (simp_all add: import_schedule_ok_def eager_def lazy_def)

theorem import_converges_witness:
  "fst (importServices lazy demo_importer stale_member) = Inr [None, None] \<and>
   map_option gsSpec (mem_objs (snd (importServices lazy demo_importer stale_member)) nginx_key) = Some (gsSpec beijing) \<and>
   mem_objs (snd (importServices lazy demo_importer stale_member)) (ObjectKey ''default'' ''redis'') = None"
proof -
  let ?run = "importServices lazy demo_importer stale_member"
  let ?redis = "ObjectKey ''default'' ''redis''"
  have res: "fst ?run = Inr [None, None]" by code_simp
  have run: "importServices lazy (member_of mem_kube (\<lambda>w. (Inr hub_services, w)) True) stale_member
      = (Inr [None, None], snd ?run)"
    using res by (metis prod.collapse demo_importer_def)
  have dist: "distinct (map keyFromObject hub_services)" by code_simp
  note all = import_converges [OF mem.kube_api_axioms schedules_ok(2) refl refl dist run]
  have nginx: "map_option (import_result (mem_objs stale_member nginx_key))
      (map_of (map (\<lambda>s. (keyFromObject s, s)) hub_services) nginx_key) = Some (''7'', gsSpec beijing)" by code_simp
  have redis: "map_of (map (\<lambda>s. (keyFromObject s, s)) hub_services) ?redis = None" by code_simp
  have "map_option copy_of (mem_objs (snd ?run) nginx_key) = Some (''7'', gsSpec beijing)"
    using all [of nginx_key] nginx by simp
  moreover have "mem_objs (snd ?run) ?redis = None" using all [of ?redis] redis by simp
  ultimately show ?thesis using res by (auto simp: copy_of_def)
qed

text \<open>
  Importing the same services again, also under another schedule, changes no
  copy: what the importer has written it recognises.
\<close>

theorem import_steady:
  assumes "kube_api K objs nss" and "import_schedule_ok sch" and "import_schedule_ok sch'"
    and "get w = (Inr services, w1)" and "objs w1 = objs w" and "distinct (map keyFromObject services)"
    and "importServices sch (member_of K get a) w = (Inr rs, w')" and "set rs \<subseteq> {None}"
    and "get w' = (Inr services, w2)" and "objs w2 = objs w'"
    and "importServices sch' (member_of K get a) w' = (Inr rs', w'')" and "set rs' \<subseteq> {None}"
  shows "map_option copy_of (objs w'' k) = map_option copy_of (objs w' k)"
proof -
  let ?src = "map_of (map (\<lambda>s. (keyFromObject s, s)) services) k"
  have 1: "map_option copy_of (objs w' k) = map_option (import_result (objs w k)) ?src"
    using kube_api.import_all_ok [OF assms(1) _ assms(2) _ assms(5-8)] assms(4)
    by (simp add: member_of_def)
  have 2: "map_option copy_of (objs w'' k) = map_option (import_result (objs w' k)) ?src"
    using kube_api.import_all_ok [OF assms(1) _ assms(3) _ assms(10,6,11,12)] assms(9)
    by (simp add: member_of_def)
  show ?thesis
  proof (cases ?src)
    case None
    then show ?thesis using 1 2 by simp
  next
    case (Some src)
    with 1 obtain g where g: "objs w' k = Some g" "copy_of g = import_result (objs w k) src" by auto
    then have "import_result (Some g) src = copy_of g"
      by (auto simp: import_result_def copy_of_def split: option.splits if_splits)
    then show ?thesis using 2 g Some by simp
  qed
qed

theorem import_steady_witness:
  "let w' = snd (importServices lazy demo_importer stale_member)
   in map_option copy_of (mem_objs (snd (importServices eager demo_importer w')) nginx_key) =
      map_option copy_of (mem_objs w' nginx_key)"
proof -
  let ?m = "member_of mem_kube (\<lambda>w. (Inr hub_services, w)) True"
  let ?r1 = "importServices lazy ?m stale_member"
  let ?r2 = "importServices eager ?m (snd ?r1)"
  have "fst ?r1 = Inr [None, None]" "fst ?r2 = Inr [None]" by code_simp+
  then have run: "?r1 = (Inr [None, None], snd ?r1)" "?r2 = (Inr [None], snd ?r2)"
    by (metis prod.collapse)+
  have dist: "distinct (map keyFromObject hub_services)" by code_simp
  show ?thesis
    unfolding Let_def demo_importer_def
    by (rule import_steady [OF mem.kube_api_axioms schedules_ok(2,1) refl refl dist run(1) _ refl refl run(2)])
      simp_all
qed

end
