(* ===== verification/HubClient.thy ===== *)
theory HubClient
  imports ApiServer Exporter
begin

text \<open>
  \<open>pkg/service-hub/client/client.go\<close>: the HTTP client with which a cluster in client mode talks to
  the hub.  The transport (\<open>net/http\<close> over TLS) is a function on a world \<open>'n\<close>: it answers or fails.
  The last section closes the loop: over a transport that delivers to the server of \<open>ApiServer\<close>
  and may lose a request or its answer, the client meets the exporter's contract.
\<close>

section \<open>Operations\<close>

record URL =
  uScheme :: string
  uHost :: string
  uPath :: string

text \<open>
  \<open>baseURL.Parse(ref)\<close> for the references the client makes, which are absolute paths: scheme and
  host are the base's, the path is the reference.  \<open>URL_String\<close> is \<open>URL.String\<close>.
\<close>

definition join :: "URL \<Rightarrow> string \<Rightarrow> URL" where
  "join baseURL ref = baseURL\<lparr>uPath := ref\<rparr>"

definition URL_String :: "URL \<Rightarrow> string" where
  "URL_String u = uScheme u @ ''://'' @ uHost u @ uPath u"

text \<open>What arrives: a status and a body, the reading of which may fail.\<close>

record http_response =
  hrStatus :: nat
  hrBody :: "go_error + string"

record http_request =
  hqMethod :: string
  hqURL :: URL
  hqCluster :: string
  hqContentType :: string
  hqBody :: string

type_synonym 'n transport = "http_request \<Rightarrow> 'n \<Rightarrow> (go_error + http_response) \<times> 'n"

record 'n hub_client =
  hcClusterName :: string
  hcBaseURL :: URL
  hcDo :: "'n transport"
  hcJson :: json

text \<open>\<open>parseURL\<close> is \<open>url.Parse\<close>.\<close>

definition NewClient ::
  "(string \<Rightarrow> go_error + URL) \<Rightarrow> json \<Rightarrow> string \<Rightarrow> string \<Rightarrow> 'n transport \<Rightarrow> go_error + 'n hub_client" where
  "NewClient parseURL js apiServerAddr clusterName transport =
     (case parseURL apiServerAddr of
        Inl e \<Rightarrow> Inl e
      | Inr baseURL \<Rightarrow> Inr \<lparr>hcClusterName = clusterName, hcBaseURL = baseURL, hcDo = transport, hcJson = js\<rparr>)"

text \<open>\<open>handleResponse\<close> has two results, the content and the error.\<close>

definition handleResponse :: "http_response \<Rightarrow> string \<times> go_error option" where
  "handleResponse resp =
     (if hrStatus resp \<ge> 400 then
        (case hrBody resp of
           Inl e \<Rightarrow> ([], Some e)
         | Inr content \<Rightarrow> ([], Some (HttpError (hrStatus resp) content)))
      else if hrStatus resp = StatusNoContent then ([], None)
      else (case hrBody resp of Inl e \<Rightarrow> ([], Some e) | Inr content \<Rightarrow> (content, None)))"

definition client_Heartbeat :: "'n hub_client \<Rightarrow> 'n \<Rightarrow> go_error option \<times> 'n" where
  "client_Heartbeat c n =
     (case hcDo c \<lparr>hqMethod = ''GET'', hqURL = join (hcBaseURL c) PathHeartbeat,
                   hqCluster = hcClusterName c, hqContentType = [], hqBody = []\<rparr> n of
        (Inl e, n1) \<Rightarrow> (Some e, n1)
      | (Inr resp, n1) \<Rightarrow> (snd (handleResponse resp), n1))"

definition client_UploadGlobalService :: "'n hub_client \<Rightarrow> GlobalService \<Rightarrow> 'n \<Rightarrow> go_error option \<times> 'n" where
  "client_UploadGlobalService c service n =
     (case marshalService (hcJson c) service of
        Inl e \<Rightarrow> (Some e, n)
      | Inr data \<Rightarrow>
          (case hcDo c \<lparr>hqMethod = ''POST'', hqURL = join (hcBaseURL c) PathGlobalServices,
                        hqCluster = hcClusterName c, hqContentType = ''application/json'', hqBody = data\<rparr> n of
             (Inl e, n1) \<Rightarrow> (Some e, n1)
           | (Inr resp, n1) \<Rightarrow> (snd (handleResponse resp), n1)))"

text \<open>The error of \<open>handleResponse\<close> is overwritten by that of the decoding.\<close>

definition DownloadAllGlobalServices :: "'n hub_client \<Rightarrow> 'n \<Rightarrow> (go_error + GlobalService list) \<times> 'n" where
  "DownloadAllGlobalServices c n =
     (case hcDo c \<lparr>hqMethod = ''GET'', hqURL = join (hcBaseURL c) PathGlobalServices,
                   hqCluster = hcClusterName c, hqContentType = [], hqBody = []\<rparr> n of
        (Inl e, n1) \<Rightarrow> (Inl e, n1)
      | (Inr resp, n1) \<Rightarrow>
          (case handleResponse resp of (data, err) \<Rightarrow> (unmarshalServices (hcJson c) data, n1)))"

definition client_DeleteGlobalService ::
  "'n hub_client \<Rightarrow> string \<Rightarrow> string \<Rightarrow> 'n \<Rightarrow> go_error option \<times> 'n" where
  "client_DeleteGlobalService c namespace name n =
     (let addr = PathGlobalServices @ ''/'' @ namespace @ ''/'' @ name
      in case hcDo c \<lparr>hqMethod = ''DELETE'', hqURL = join (hcBaseURL c) addr,
                      hqCluster = hcClusterName c, hqContentType = [], hqBody = []\<rparr> n of
           (Inl e, n1) \<Rightarrow> (Some e, n1)
         | (Inr resp, n1) \<Rightarrow> (snd (handleResponse resp), n1))"

section \<open>A network to the hub\<close>

text \<open>
  Every request takes the head of a list of deliveries: it reaches the hub at a time and is
  answered, it is lost, or it reaches the hub and the answer is lost.
\<close>

datatype delivery = Delivered time | ReplyLost time | Lost

type_synonym 'w network = "delivery list \<times> 'w hub"

definition request_of :: "http_request \<Rightarrow> request" where
  "request_of q = \<lparr>rqMethod = hqMethod q, rqPath = uPath (hqURL q), rqCluster = hqCluster q,
     rqBody = Inr (hqBody q)\<rparr>"

definition response_of :: "response \<Rightarrow> http_response" where
  "response_of r = \<lparr>hrStatus = rsStatus r, hrBody = Inr (rsBody r)\<rparr>"

fun hub_transport :: "chi \<Rightarrow> 'w Server \<Rightarrow> 'w network transport" where
  "hub_transport chi sv q ([], h) = (Inl (TextError ''no route to host''), [], h)"
| "hub_transport chi sv q (Lost # ds, h) = (Inl (TextError ''timeout''), ds, h)"
| "hub_transport chi sv q (Delivered now # ds, h) =
     (case ServeHTTP chi sv now (request_of q) h of (resp, h1) \<Rightarrow> (Inr (response_of resp), ds, h1))"
| "hub_transport chi sv q (ReplyLost now # ds, h) =
     (case ServeHTTP chi sv now (request_of q) h of (resp, h1) \<Rightarrow> (Inl (TextError ''timeout''), ds, h1))"

definition hub_client_of :: "string \<Rightarrow> URL \<Rightarrow> chi \<Rightarrow> 'w Server \<Rightarrow> 'w network hub_client" where
  "hub_client_of me url chi sv =
     \<lparr>hcClusterName = me, hcBaseURL = url, hcDo = hub_transport chi sv, hcJson = svJson sv\<rparr>"

text \<open>A request has its effect on the hub or none; when it is answered, it has had it.\<close>

lemma hub_transport_cases:
  assumes "hub_transport chi sv q (ds, h) = (res, ds', h')"
  obtains (lost) e where "res = Inl e" and "h' = h"
  | (unanswered) e now resp where "res = Inl e" and "ServeHTTP chi sv now (request_of q) h = (resp, h')"
  | (answered) now resp where "res = Inr (response_of resp)"
      and "ServeHTTP chi sv now (request_of q) h = (resp, h')"
  using assms
  by (cases "(chi, sv, q, ds, h)" rule: hub_transport.cases) (auto split: prod.splits)

lemma handleResponse_error:
  "snd (handleResponse resp) = None \<Longrightarrow> hrStatus resp < 400"
  by (auto simp: handleResponse_def split: if_splits sum.splits)

context api_server_env begin

text \<open>What an upload and a deletion that arrive do to the view of the hub.\<close>

lemma serve_upload:
  assumes chi: "chi_ok chi" and sv: "svMerge sv = merge"
    and rq: "rqMethod r = ''POST''" "rqPath r = PathGlobalServices" "rqBody r = Inr t"
    and body: "unmarshalService (svJson sv) t = Inr g" and own: "own_endpoints g"
    and run: "ServeHTTP chi sv now r (s, w) = (resp, s', w')"
  shows "view w' = view w \<or> view w' = set_view (keyFromObject g) (omClusterName (gsMeta g)) (endpoints_of g) (view w)"
    and "rsStatus resp < 400 \<Longrightarrow>
      view w' = set_view (keyFromObject g) (omClusterName (gsMeta g)) (endpoints_of g) (view w)"
proof -
  obtain s1 where up: "UploadGlobalService sv r (s1, w) = (resp, s', w')"
    using run chi rq
    by (auto simp: ServeHTTP_def updateClusterExpireTime_def chi_ok_def Let_def split: if_splits prod.splits)
  obtain e w1 where merged: "merge g w = (e, w1)" by force
  consider (bad) "upload_invalid g" "w' = w" "rsStatus resp = 400"
    | (good) "w' = w1" "rsStatus resp = (if e = None then 204 else 500)"
    using up rq body merged sv
    by (auto simp: UploadGlobalService_def response_text_def http_status split: if_splits option.splits)
  then have "(view w' = view w \<or> view w' = set_view (keyFromObject g) (omClusterName (gsMeta g)) (endpoints_of g) (view w)) \<and>
    (rsStatus resp < 400 \<longrightarrow>
      view w' = set_view (keyFromObject g) (omClusterName (gsMeta g)) (endpoints_of g) (view w))"
  proof cases
    case good
    then show ?thesis
      using merge_atomic [OF merged own] merge_ok [of g w w1] merged own by (cases e) auto
  qed simp
  then show "view w' = view w \<or> view w' = set_view (keyFromObject g) (omClusterName (gsMeta g)) (endpoints_of g) (view w)"
    and "rsStatus resp < 400 \<Longrightarrow>
      view w' = set_view (keyFromObject g) (omClusterName (gsMeta g)) (endpoints_of g) (view w)" by blast+
qed

lemma serve_delete:
  assumes chi: "chi_ok chi" and sv: "svRevoke sv = revoke"
    and rq: "rqMethod r = ''DELETE''" "rqPath r = PathGlobalServices @ ''/'' @ ns @ ''/'' @ n"
    and seg: "url_segment ns" "url_segment n"
    and run: "ServeHTTP chi sv now r (s, w) = (resp, s', w')"
  shows "view w' = view w \<or> view w' = set_view (ObjectKey ns n) (rqCluster r) [] (view w)"
    and "rsStatus resp < 400 \<Longrightarrow> view w' = set_view (ObjectKey ns n) (rqCluster r) [] (view w)"
proof -
  let ?params = "[(''namespaceDefault'', ns), (''name'', n)]"
  obtain s1 where del: "deleteEndpoints sv ?params r (s1, w) = (resp, s', w')"
    using run chi rq seg
    by (auto simp: ServeHTTP_def updateClusterExpireTime_def chi_ok_def Let_def split: if_splits prod.splits)
  obtain e w1 where call: "revoke (rqCluster r) ns n w = (e, w1)" by force
  have res: "w' = w1 \<and> rsStatus resp = (if e = None then 204 else 500)"
    using del call sv
    by (auto simp: deleteEndpoints_def URLParam_def getClusterName_def response_text_def http_status
        split: option.splits)
  then show "view w' = view w \<or> view w' = set_view (ObjectKey ns n) (rqCluster r) [] (view w)"
    using revoke_atomic [OF call] by simp
  assume "rsStatus resp < 400"
  then have "e = None" using res by (auto split: if_splits)
  then show "view w' = set_view (ObjectKey ns n) (rqCluster r) [] (view w)"
    using revoke_ok call res by simp
qed

end

section \<open>The client meets the exporter's contract\<close>

text \<open>
  What is needed of the JSON codec: a service without labels and annotations, as the exporter
  makes them, is read back as it was written.
\<close>

definition json_ok :: "json \<Rightarrow> bool" where
  "json_ok js \<longleftrightarrow> (\<forall>g t. omLabels (gsMeta g) = None \<and> omAnnotations (gsMeta g) = None \<and>
     marshalService js g = Inr t \<longrightarrow> unmarshalService js t = Inr g)"

lemma json_ok_demo: "json_ok demo_json"
  by (auto simp: json_ok_def demo_json_def split: if_splits)

definition legal_key :: "ObjectKey \<Rightarrow> bool" where
  "legal_key k \<longleftrightarrow> url_segment (okNamespace k) \<and> url_segment (okName k)"

abbreviation hub_of :: "'m \<times> 'w network \<Rightarrow> 'w" where
  "hub_of x \<equiv> snd (snd (snd x))"

text \<open>
  In client mode the world is the member's own API and the network to the hub; a call to the API
  works on the one, a request on the other.
\<close>

definition on_member :: "('m \<Rightarrow> 'r \<times> 'm) \<Rightarrow> 'm \<times> 'n \<Rightarrow> 'r \<times> 'm \<times> 'n" where
  "on_member f = (\<lambda>(m, n). case f m of (r, m1) \<Rightarrow> (r, m1, n))"

definition on_network :: "('n \<Rightarrow> 'r \<times> 'n) \<Rightarrow> 'm \<times> 'n \<Rightarrow> 'r \<times> 'm \<times> 'n" where
  "on_network f = (\<lambda>(m, n). case f n of (r, n1) \<Rightarrow> (r, m, n1))"

definition member_kube :: "'m kube \<Rightarrow> ('m \<times> 'n) kube" where
  "member_kube K =
     \<lparr>kGetGS = (\<lambda>k. on_member (kGetGS K k)), kListGS = on_member (kListGS K),
      kCreateOrUpdateGS = (\<lambda>g f. on_member (kCreateOrUpdateGS K g f)),
      kUpdateGS = (\<lambda>g. on_member (kUpdateGS K g)), kDeleteGS = (\<lambda>g. on_member (kDeleteGS K g)),
      kGetNS = (\<lambda>n. on_member (kGetNS K n)), kCreateNS = (\<lambda>m. on_member (kCreateNS K m)),
      kGetService = (\<lambda>k. on_member (kGetService K k)),
      kListSlices = (\<lambda>n ls. on_member (kListSlices K n ls))\<rparr>"

text \<open>What an answered heartbeat does to the hub.\<close>

lemma client_Heartbeat_registers:
  assumes "chi_ok chi" and "store_inv s" and "me \<noteq> []"
    and "client_Heartbeat (hub_client_of me url chi sv) (ds, s, w) = (None, ds', s', w')"
  shows "w' = w \<and> (\<exists>now. registry s' = (registry s)(me \<mapsto>
    (case registry s me of None \<Rightarrow> {} | Some (ks, _) \<Rightarrow> ks, now + svExpire sv)))"
proof -
  let ?q = "\<lparr>hqMethod = ''GET'', hqURL = join url PathHeartbeat, hqCluster = me, hqContentType = [], hqBody = []\<rparr>"
  obtain res where "hub_transport chi sv ?q (ds, s, w) = (res, ds', s', w')" "\<not> isl res"
    using assms(4) by (auto simp: client_Heartbeat_def hub_client_of_def split: prod.splits sum.splits)
  then obtain now resp where "ServeHTTP chi sv now (request_of ?q) (s, w) = (resp, s', w')"
    by (cases rule: hub_transport_cases) auto
  moreover obtain p s1 where new: "New me s = (p, s1)" by force
  moreover have "chi routes ''GET'' PathHeartbeat = Inr (HeartbeatRoute, [])"
    using assms(1) by (simp add: chi_ok_def)
  ultimately have "s' = SetExpireTime p (now + svExpire sv) s1" "w' = w"
    using assms(3) by (simp_all add: ServeHTTP_def updateClusterExpireTime_def getClusterName_def
        request_of_def join_def Heartbeat_def)
  then show ?thesis using store.refresh_entries(2) [OF assms(2) new] by auto
qed

text \<open>A client whose transport is that of the network beside the member's own API.\<close>

definition lift_client :: "'n hub_client \<Rightarrow> ('m \<times> 'n) hub_client" where
  "lift_client c = \<lparr>hcClusterName = hcClusterName c, hcBaseURL = hcBaseURL c,
     hcDo = (\<lambda>q. on_network (hcDo c q)), hcJson = hcJson c\<rparr>"

lemma client_lift:
  "client_Heartbeat (lift_client c) = on_network (client_Heartbeat c)"
  "client_UploadGlobalService (lift_client c) g = on_network (client_UploadGlobalService c g)"
  "DownloadAllGlobalServices (lift_client c) = on_network (DownloadAllGlobalServices c)"
  "client_DeleteGlobalService (lift_client c) ns n = on_network (client_DeleteGlobalService c ns n)"
  by (auto simp: fun_eq_iff lift_client_def on_network_def client_Heartbeat_def Let_def
      client_UploadGlobalService_def DownloadAllGlobalServices_def client_DeleteGlobalService_def
      split: prod.splits sum.splits)

text \<open>The wiring of client mode (\<open>initClient\<close> and \<open>initManagerRunnables\<close> of \<open>options.go\<close>).\<close>

definition client_config ::
  "'w network hub_client \<Rightarrow> string \<Rightarrow> string \<Rightarrow> string \<Rightarrow> ('m \<times> 'w network) ExporterConfig" where
  "client_config c cluster zone region =
     \<lparr>cfgClusterName = cluster, cfgZone = zone, cfgRegion = region,
      cfgExport = (\<lambda>g. on_network (client_UploadGlobalService c g)),
      cfgRevoke = (\<lambda>clusterName namespace serviceName.
        on_network (client_DeleteGlobalService c namespace serviceName))\<rparr>"

context api_server_env begin

lemma client_upload_view:
  assumes "chi_ok chi" and "svMerge sv = merge" and "json_ok (svJson sv)" and g: "exportable me g"
    and run: "client_UploadGlobalService (hub_client_of me url chi sv) g (ds, s, w) = (r, ds', s', w')"
  shows "(view w' = view w \<or> view w' = set_view (keyFromObject g) me (endpoints_of g) (view w)) \<and>
    (r = None \<longrightarrow> view w' = set_view (keyFromObject g) me (endpoints_of g) (view w))"
proof (cases "marshalService (svJson sv) g")
  case (Inl e)
  then show ?thesis using run by (auto simp: client_UploadGlobalService_def hub_client_of_def)
next
  case (Inr t)
  then have body: "unmarshalService (svJson sv) t = Inr g"
    using assms(3) g by (simp add: json_ok_def exportable_def)
  define q where "q = \<lparr>hqMethod = ''POST'', hqURL = join url PathGlobalServices, hqCluster = me,
    hqContentType = ''application/json'', hqBody = t\<rparr>"
  have rq: "rqMethod (request_of q) = ''POST''" "rqPath (request_of q) = PathGlobalServices"
    "rqBody (request_of q) = Inr t"
    by (simp_all add: request_of_def q_def join_def)
  obtain res where tr: "hub_transport chi sv q (ds, s, w) = (res, ds', s', w')"
    and r: "r = (case res of Inl e \<Rightarrow> Some e | Inr resp \<Rightarrow> snd (handleResponse resp))"
    using run Inr by (auto simp: client_UploadGlobalService_def hub_client_of_def q_def
        split: prod.splits sum.splits)
  have own: "own_endpoints g" and name: "omClusterName (gsMeta g) = me"
    using g by (auto simp: exportable_def)
  note serve = serve_upload [OF assms(1,2) rq body own, unfolded name]
  from tr show ?thesis
  proof (cases rule: hub_transport_cases)
    case (lost e)
    then show ?thesis using r by simp
  next
    case (unanswered e now resp)
    then show ?thesis using r serve(1) by auto
  next
    case (answered now resp)
    then show ?thesis
      using r serve handleResponse_error [of "response_of resp"] by (auto simp: response_of_def)
  qed
qed

lemma client_delete_view:
  assumes "chi_ok chi" and "svRevoke sv = revoke" and "url_segment ns" and "url_segment n"
    and run: "client_DeleteGlobalService (hub_client_of me url chi sv) ns n (ds, s, w) = (r, ds', s', w')"
  shows "(view w' = view w \<or> view w' = set_view (ObjectKey ns n) me [] (view w)) \<and>
    (r = None \<longrightarrow> view w' = set_view (ObjectKey ns n) me [] (view w))"
proof -
  define q where "q = \<lparr>hqMethod = ''DELETE'',
    hqURL = join url (PathGlobalServices @ ''/'' @ ns @ ''/'' @ n), hqCluster = me,
    hqContentType = [], hqBody = []\<rparr>"
  have rq: "rqMethod (request_of q) = ''DELETE''"
    "rqPath (request_of q) = PathGlobalServices @ ''/'' @ ns @ ''/'' @ n"
    "rqCluster (request_of q) = me"
    by (simp_all add: request_of_def q_def join_def)
  obtain res where tr: "hub_transport chi sv q (ds, s, w) = (res, ds', s', w')"
    and r: "r = (case res of Inl e \<Rightarrow> Some e | Inr resp \<Rightarrow> snd (handleResponse resp))"
    using run by (auto simp: client_DeleteGlobalService_def hub_client_of_def q_def Let_def
        split: prod.splits sum.splits)
  note serve = serve_delete [OF assms(1,2) rq(1,2) assms(3,4), unfolded rq(3)]
  from tr show ?thesis
  proof (cases rule: hub_transport_cases)
    case (lost e)
    then show ?thesis using r by simp
  next
    case (unanswered e now resp)
    then show ?thesis using r serve(1) by auto
  next
    case (answered now resp)
    then show ?thesis
      using r serve handleResponse_error [of "response_of resp"] by (auto simp: response_of_def)
  qed
qed

lemma client_export_target:
  assumes "chi_ok chi" and "svMerge sv = merge" and "svRevoke sv = revoke" and "json_ok (svJson sv)"
  shows "export_target me legal_key
    (\<lambda>g. on_network (client_UploadGlobalService (hub_client_of me url chi sv) g))
    (\<lambda>c ns n. on_network (client_DeleteGlobalService (hub_client_of me url chi sv) ns n))
    (\<lambda>x. view (hub_of x))"
proof (unfold_locales, goal_cases)
  case (1 g w w')
  then show ?case
    using client_upload_view [OF assms(1,2,4)] by (fastforce simp: on_network_def split: prod.splits)
next
  case (2 g w r w')
  then show ?case
    using client_upload_view [OF assms(1,2,4)] by (fastforce simp: on_network_def split: prod.splits)
next
  case (3 ns n w w')
  then show ?case
    using client_delete_view [OF assms(1,3)] by (fastforce simp: on_network_def legal_key_def split: prod.splits)
next
  case (4 ns n w r w')
  then show ?case
    using client_delete_view [OF assms(1,3)] by (fastforce simp: on_network_def legal_key_def split: prod.splits)
qed

end

context kube_api begin

lemma client_contract:
  assumes "chi_ok chi" and "svMerge sv = CreateOrMergeGlobalService (NewGlobalServiceManager K a)"
    and "svRevoke sv = RevokeGlobalService (NewGlobalServiceManager K a)" and "json_ok (svJson sv)"
  shows "export_target me legal_key
    (\<lambda>g. on_network (client_UploadGlobalService (hub_client_of me url chi sv) g))
    (\<lambda>c ns n. on_network (client_DeleteGlobalService (hub_client_of me url chi sv) ns n))
    (\<lambda>x. cluster_view objs (hub_of x))"
  by (rule api.client_export_target [OF assms])

end

lemma exporter_env_client:
  fixes K :: "'w kube" and M :: "'m kube"
  assumes "kube_api K objs nss" and "kube_api M mobjs mnss" and "chi_ok chi" and "json_ok js"
  shows "exporter_env me legal_key
    (\<lambda>g. on_network (client_UploadGlobalService (hub_client_of me url chi (hub_server K a d js)) g))
    (\<lambda>c ns n. on_network (client_DeleteGlobalService (hub_client_of me url chi (hub_server K a d js)) ns n))
    (\<lambda>x. cluster_view objs (hub_of x)) (member_kube M)"
proof (intro exporter_env.intro exporter_env_axioms.intro)
  show "export_target me legal_key
    (\<lambda>g. on_network (client_UploadGlobalService (hub_client_of me url chi (hub_server K a d js)) g))
    (\<lambda>c ns n. on_network (client_DeleteGlobalService (hub_client_of me url chi (hub_server K a d js)) ns n))
    (\<lambda>x :: 'm \<times> 'w network. cluster_view objs (hub_of x))"
    by (rule kube_api.client_contract [OF assms(1,3)]) (simp_all add: assms(4))
qed (auto simp: member_kube_def on_member_def split: prod.splits
    dest: kube_api.get_service_keyed [OF assms(2)])

text \<open>The member's API, seen in the world of client mode, keeps the laws it keeps on its own.\<close>

lemma kube_api_member:
  assumes "kube_api M mobjs mnss"
  shows "kube_api (member_kube M) (\<lambda>x. mobjs (fst x)) (\<lambda>x. mnss (fst x))"
proof -
  note laws = kube_api.keyed [OF assms] kube_api.get_ok [OF assms] kube_api.get_missing [OF assms]
    kube_api.get_frame [OF assms] kube_api.list_ok [OF assms] kube_api.list_frame [OF assms]
    kube_api.apply_ok [OF assms] kube_api.apply_frame [OF assms] kube_api.apply_atomic [OF assms]
    kube_api.update_ok [OF assms] kube_api.update_frame [OF assms] kube_api.update_atomic [OF assms]
    kube_api.delete_ok [OF assms] kube_api.delete_frame [OF assms] kube_api.delete_atomic [OF assms]
    kube_api.delete_unnamed [OF assms] kube_api.get_ns_ok [OF assms] kube_api.get_ns_frame [OF assms]
    kube_api.create_ns_ok [OF assms] kube_api.create_ns_frame [OF assms]
    kube_api.get_service_frame [OF assms] kube_api.get_service_keyed [OF assms]
    kube_api.list_slices_frame [OF assms]
  show ?thesis
    by unfold_locales
      (unfold member_kube_def on_member_def kube.simps split_def prod.inject, (elim conjE)?,
        (rule laws; (assumption | (rule prod_eqI; simp)))+)
qed

text \<open>
  And for downloads: a listing of services without labels and annotations is read back, and the
  empty text is no listing.
\<close>

definition json_list_ok :: "json \<Rightarrow> bool" where
  "json_list_ok js \<longleftrightarrow> (\<forall>gs t. (\<forall>g \<in> set gs. omLabels (gsMeta g) = None \<and> omAnnotations (gsMeta g) = None) \<and>
     marshalServices js gs = Inr t \<longrightarrow> unmarshalServices js t = Inr gs) \<and>
     (\<exists>e. unmarshalServices js [] = Inl e)"

lemma listed_differ: "listed ''1'' eps \<noteq> listed ''2'' eps'"
  by (simp add: listed_def zero_meta_def)

lemma json_list_ok_demo: "json_list_ok demo_json"
  using listed_differ by (auto simp: json_list_ok_def demo_json_def split: if_splits)

lemma clean_meta_fields [simp]:
  "keyFromObject (clean_meta g) = keyFromObject g" "gsSpec (clean_meta g) = gsSpec g"
  "omResourceVersion (gsMeta (clean_meta g)) = omResourceVersion (gsMeta g)"
  "omLabels (gsMeta (clean_meta g)) = None" "omAnnotations (gsMeta (clean_meta g)) = None"
  by (simp_all add: clean_meta_def keyFromObject_def zero_meta_def)

text \<open>What a download that succeeds has read from the hub.\<close>

lemma download_lists:
  assumes api: "kube_api K objs nss" and chi: "chi_ok chi" and js: "json_list_ok js"
    and run: "DownloadAllGlobalServices (hub_client_of me url chi (hub_server K a d js)) (ds, s, w)
      = (Inr services, ds', s', w')"
  obtains items where "services = map clean_meta items" and "distinct (map keyFromObject items)"
    and "\<And>g. g \<in> set items \<longleftrightarrow> objs w (keyFromObject g) = Some g" and "objs w' = objs w"
proof -
  let ?sv = "hub_server K a d js"
  define q where "q = \<lparr>hqMethod = ''GET'', hqURL = join url PathGlobalServices, hqCluster = me,
    hqContentType = [], hqBody = []\<rparr>"
  obtain res where tr: "hub_transport chi ?sv q (ds, s, w) = (res, ds', s', w')"
    and resp: "\<exists>resp. res = Inr resp \<and> unmarshalServices js (fst (handleResponse resp)) = Inr services"
    using run by (auto simp: DownloadAllGlobalServices_def hub_client_of_def q_def
        split: prod.splits sum.splits)
  from tr resp obtain now r where res: "res = Inr (response_of r)"
    and serve: "ServeHTTP chi ?sv now (request_of q) (s, w) = (r, s', w')"
    by (cases rule: hub_transport_cases) auto
  have rq: "rqMethod (request_of q) = ''GET''" "rqPath (request_of q) = PathGlobalServices"
    by (simp_all add: request_of_def q_def join_def)
  obtain s1 where get: "GetAllGlobalServices ?sv (request_of q) (s1, w) = (r, s', w')"
    using serve chi rq
    by (auto simp: ServeHTTP_def updateClusterExpireTime_def chi_ok_def Let_def split: if_splits prod.splits)
  have decoded: "unmarshalServices js (fst (handleResponse (response_of r))) = Inr services"
    using resp res by auto
  have not_empty: "fst (handleResponse (response_of r)) \<noteq> []"
    using decoded js by (auto simp: json_list_ok_def)
  obtain lst w1 where lst: "kListGS K w = (lst, w1)" by force
  from get lst not_empty obtain items data where items: "lst = Inr items"
    and data: "marshalServices js (map clean_meta items) = Inr data" and w': "w' = w1"
    and body: "fst (handleResponse (response_of r)) = data"
    by (auto simp: GetAllGlobalServices_def response_text_def response_of_def handleResponse_def
        http_status split: sum.splits)
  have "unmarshalServices js data = Inr (map clean_meta items)"
    using js [unfolded json_list_ok_def, THEN conjunct1, THEN spec, of "map clean_meta items", THEN spec, of data]
      data by simp
  then have "services = map clean_meta items" using decoded body by simp
  then show thesis
    using that kube_api.list_ok [OF api lst [unfolded items]] kube_api.list_frame [OF api lst] w' by blast
qed

section \<open>Properties\<close>

definition download_request :: "'n hub_client \<Rightarrow> http_request" where
  "download_request c = \<lparr>hqMethod = ''GET'', hqURL = join (hcBaseURL c) PathGlobalServices,
     hqCluster = hcClusterName c, hqContentType = [], hqBody = []\<rparr>"

text \<open>
  When the hub refuses a download, with whatever status and message,
  the client knows the error and drops it: what it returns is what the JSON decoder makes of
  the empty text.
\<close>

theorem download_masks_http_error:
  assumes "hcDo c (download_request c) n = (Inr resp, n1)"
    and "hrStatus resp \<ge> 400" and "hrBody resp = Inr msg"
  shows "snd (handleResponse resp) = Some (HttpError (hrStatus resp) msg) \<and>
    DownloadAllGlobalServices c n = (unmarshalServices (hcJson c) [], n1)"
  using assms by (simp add: DownloadAllGlobalServices_def download_request_def handleResponse_def)

definition demo_url :: URL where
  "demo_url = \<lparr>uScheme = ''https'', uHost = ''10.40.20.181:3000'', uPath = []\<rparr>"

definition beijing_client :: "memory network hub_client" where
  "beijing_client = hub_client_of ''beijing'' demo_url std_chi demo_server"

theorem download_masks_http_error_witness:
  "fst (DownloadAllGlobalServices beijing_client
     ([Delivered 10], NewClusterStore, demo_world1\<lparr>memFaults := [Some ''forbidden'']\<rparr>)) =
   Inl (TextError ''unexpected end of JSON input'')"
proof -
  let ?n = "([Delivered 10], NewClusterStore, demo_world1\<lparr>memFaults := [Some ''forbidden'']\<rparr>)"
  let ?call = "hcDo beijing_client (download_request beijing_client) ?n"
  let ?resp = "\<lparr>hrStatus = 500, hrBody = Inr ''forbidden''\<rparr>"
  have "fst ?call = Inr ?resp" by code_simp
  then have call: "?call = (Inr ?resp, snd ?call)" by (metis prod.collapse)
  have "DownloadAllGlobalServices beijing_client ?n = (unmarshalServices (hcJson beijing_client) [], snd ?call)"
    using download_masks_http_error [OF call] by simp
  then show ?thesis by (simp add: beijing_client_def hub_client_of_def demo_server_def demo_json_def)
qed

end
