(* ===== verification/Options.thy ===== *)
theory Options
  imports About GoRegexp HubStartup Cleaner LostServiceRevoker Importer HubClient
begin

text \<open>
  \<open>pkg/service-hub/options.go\<close> and \<open>cmd.go\<close>: the flags of the service hub, their validation, and
  the construction of the process in its two modes.  What the process gets from outside (the
  file system, the cluster configuration, certificates, the controller manager) is the record
  \<open>hub_env\<close> of the calls the code makes.
\<close>

section \<open>Flags\<close>

definition ModeServer :: string where "ModeServer = ''server''"
definition ModeClient :: string where "ModeClient = ''client''"

record Options =
  optCluster :: string
  optZone :: string
  optRegion :: string
  optMode :: string
  optHealthProbeListenAddress :: string
  optAPIServerListenAddress :: string
  optAPIServerAddress :: string
  optTLSKeyFile :: string
  optTLSCertFile :: string
  optTLSCACertFile :: string
  optClusterExpireTime :: time
  optServiceImportInterval :: time
  optRequestTimeout :: time
  optAllowCreateNamespace :: bool

definition Second :: time where "Second = 1000000000"
definition Minute :: time where "Minute = 60 * Second"

text \<open>\<open>AddFlags\<close> registers every flag with its default, which is the value before parsing.\<close>

definition AddFlags :: Options where
  "AddFlags =
     \<lparr>optCluster = '''', optZone = ''default'', optRegion = ''default'', optMode = ''server'',
      optHealthProbeListenAddress = ''0.0.0.0:3001'', optAPIServerListenAddress = ''0.0.0.0:3000'',
      optAPIServerAddress = '''', optTLSKeyFile = '''', optTLSCertFile = '''', optTLSCACertFile = '''',
      optClusterExpireTime = 5 * Minute, optServiceImportInterval = Minute,
      optRequestTimeout = 5 * Second, optAllowCreateNamespace = True\<rparr>"

section \<open>Validation\<close>

definition lower_alnum :: "char \<Rightarrow> bool" where
  "lower_alnum c \<longleftrightarrow> CHR ''a'' \<le> c \<and> c \<le> CHR ''z'' \<or> CHR ''0'' \<le> c \<and> c \<le> CHR ''9''"

definition alnum :: "char \<Rightarrow> bool" where
  "alnum c \<longleftrightarrow> CHR ''A'' \<le> c \<and> c \<le> CHR ''Z'' \<or> lower_alnum c"

text \<open>\<open>[a-z0-9]([-a-z0-9]*[a-z0-9])?\<close>, and the two patterns built from it.\<close>

definition label_re :: regexp where
  "label_re = Seq (Chars lower_alnum)
     (Opt (Seq (Star (Chars (\<lambda>c. c = CHR ''-'' \<or> lower_alnum c))) (Chars lower_alnum)))"

definition dns1123Reg :: pattern where
  "dns1123Reg = Anchored (Seq label_re (Star (Seq (Chars (\<lambda>c. c = CHR ''.'')) label_re)))"

definition zoneNameReg :: pattern where
  "zoneNameReg = Unanchored (Plus (Chars alnum))"

text \<open>
  \<open>os.Stat\<close>: the kind of file, or the error.  \<open>fileExists\<close> asks the error only whether it is
  \<open>IsNotExist\<close>; after any other, \<open>info\<close> is nil and \<open>info.IsDir()\<close> panics.
\<close>

datatype stat_result = StatFile | StatDir | StatNotExist | StatFailed

definition fileExists :: "(string \<Rightarrow> stat_result) \<Rightarrow> string \<Rightarrow> bool outcome" where
  "fileExists stat filename =
     (case stat filename of
        StatNotExist \<Rightarrow> Returned False
      | StatFailed \<Rightarrow> Panicked
      | StatFile \<Rightarrow> Returned True
      | StatDir \<Rightarrow> Returned False)"

fun check_files ::
  "(string \<Rightarrow> stat_result) \<Rightarrow> (string \<times> string) list \<Rightarrow> go_error option outcome" where
  "check_files stat [] = Returned None"
| "check_files stat ((filename, complaint) # rest) =
     bind_outcome (fileExists stat filename)
       (\<lambda>found. if found then check_files stat rest else Returned (Some (TextError complaint)))"

definition Validate :: "(string \<Rightarrow> stat_result) \<Rightarrow> Options \<Rightarrow> go_error option outcome" where
  "Validate stat opts =
     (if \<not> MatchString dns1123Reg (optCluster opts)
      then Returned (Some (TextError (''invalid cluster name: '' @ optCluster opts)))
      else if \<not> MatchString zoneNameReg (optZone opts)
      then Returned (Some (TextError (''invalid zone name: '' @ optZone opts)))
      else if optMode opts \<noteq> ModeServer \<and> optMode opts \<noteq> ModeClient
      then Returned (Some (TextError ''unsupported mode, only server or client is allowed''))
      else if \<not> MatchString zoneNameReg (optRegion opts)
      then Returned (Some (TextError (''invalid region name: '' @ optRegion opts)))
      else check_files stat
        [(optTLSKeyFile opts, ''TLS key file does not exist''),
         (optTLSCertFile opts, ''TLS cert file does not exist''),
         (optTLSCACertFile opts, ''TLS CA cert file does not exist'')])"

section \<open>Construction\<close>

text \<open>
  \<open>'x\<close> is the world the process acts on: the API of its own cluster (\<open>envNewManager\<close> gives its
  client) and, in client mode, the network to the hub.  The rest of \<open>Options\<close>, which \<open>Complete\<close>
  fills in, is the record \<open>wiring\<close>; what is added to the manager holds what its configuration
  copies from it.
\<close>

record 'x wiring =
  optManager :: "'x kube"
  optAPIServer :: "'x Server option"
  optClient :: "'x hub_client option"
  optExportGlobalService :: "GlobalService \<Rightarrow> 'x \<Rightarrow> go_error option \<times> 'x"
  optRevokeGlobalService :: "string \<Rightarrow> string \<Rightarrow> string \<Rightarrow> 'x \<Rightarrow> go_error option \<times> 'x"

datatype 'x runnable =
    APIServerRunnable "'x Server"
  | CleanerRunnable "'x clusterCleaner"
  | ImporterRunnable "'x globalServiceImporter"
  | ExporterRunnable "'x serviceExporter controller"
  | RevokerRunnable "'x lostServiceRevoker controller"

record 'x hub_env =
  envGetConfig :: "go_error option"
  envNewManager :: "go_error + 'x kube"
  envLoadX509KeyPair :: "string \<Rightarrow> string \<Rightarrow> go_error option"
  envReadFile :: "string \<Rightarrow> go_error option"
  envParseURL :: "string \<Rightarrow> go_error + URL"
  envTransport :: "'x transport"
  envJson :: json
  envAdd :: "'x runnable \<Rightarrow> go_error option"

text \<open>
  \<open>NewManager\<close> returns a nil manager with its error, and \<open>AddReadyzCheck\<close> is called on it before
  the error is looked at.
\<close>

definition initManager :: "'x hub_env \<Rightarrow> (go_error + 'x kube) outcome" where
  "initManager env =
     (case envGetConfig env of
        Some e \<Rightarrow> Returned (Inl e)
      | None \<Rightarrow> (case envNewManager env of Inl e \<Rightarrow> Panicked | Inr mgr \<Rightarrow> Returned (Inr mgr)))"

definition getKeyPairAndCACertPool :: "'x hub_env \<Rightarrow> Options \<Rightarrow> go_error option" where
  "getKeyPairAndCACertPool env opts =
     (case envLoadX509KeyPair env (optTLSCertFile opts) (optTLSKeyFile opts) of
        Some e \<Rightarrow> Some e
      | None \<Rightarrow> envReadFile env (optTLSCACertFile opts))"

text \<open>\<open>apiserver.New\<close> does not fail; what is left of \<open>initAPIServer\<close> is the certificates.\<close>

definition initAPIServer :: "'x hub_env \<Rightarrow> Options \<Rightarrow> 'x kube \<Rightarrow> go_error + 'x wiring" where
  "initAPIServer env opts mgr =
     (let globalServiceManager = NewGlobalServiceManager mgr (optAllowCreateNamespace opts);
          export = CreateOrMergeGlobalService globalServiceManager;
          revoke = RevokeGlobalService globalServiceManager
      in case getKeyPairAndCACertPool env opts of
           Some e \<Rightarrow> Inl e
         | None \<Rightarrow> Inr
             \<lparr>optManager = mgr,
              optAPIServer = Some \<lparr>svClient = mgr, svMerge = export, svRevoke = revoke,
                svExpire = optClusterExpireTime opts, svJson = envJson env\<rparr>,
              optClient = None, optExportGlobalService = export, optRevokeGlobalService = revoke\<rparr>)"

definition initClient :: "'x hub_env \<Rightarrow> Options \<Rightarrow> 'x kube \<Rightarrow> 'x \<Rightarrow> (go_error + 'x wiring) \<times> 'x" where
  "initClient env opts mgr x =
     (case getKeyPairAndCACertPool env opts of
        Some e \<Rightarrow> (Inl e, x)
      | None \<Rightarrow>
          (case NewClient (envParseURL env) (envJson env) (optAPIServerAddress opts) (optCluster opts)
                  (envTransport env) of
             Inl e \<Rightarrow> (Inl e, x)
           | Inr c \<Rightarrow>
               (case client_Heartbeat c x of
                  (Some e, x1) \<Rightarrow> (Inl e, x1)
                | (None, x1) \<Rightarrow> (Inr
                    \<lparr>optManager = mgr, optAPIServer = None, optClient = Some c,
                     optExportGlobalService = client_UploadGlobalService c,
                     optRevokeGlobalService = (\<lambda>clusterName namespace serviceName.
                       client_DeleteGlobalService c namespace serviceName)\<rparr>, x1))))"

text \<open>
  The manager holds what was added to it, in the order of the calls; \<open>envAdd\<close> says which calls fail.
  \<open>tryThen\<close> is \<open>if err := f(); err != nil { return err }; return g()\<close>.
\<close>

type_synonym 'x adding = "'x runnable list \<Rightarrow> go_error option \<times> 'x runnable list"

definition managerAdd :: "'x hub_env \<Rightarrow> 'x runnable \<Rightarrow> 'x adding" where
  "managerAdd env r added =
     (case envAdd env r of Some e \<Rightarrow> (Some e, added) | None \<Rightarrow> (None, added @ [r]))"

definition tryThen :: "'x adding \<Rightarrow> 'x adding \<Rightarrow> 'x adding" where
  "tryThen f g added =
     (case f added of (Some e, added1) \<Rightarrow> (Some e, added1) | (None, added1) \<Rightarrow> g added1)"

definition cleaner_AddToManager :: "'x hub_env \<Rightarrow> 'x CleanerConfig \<Rightarrow> 'x adding" where
  "cleaner_AddToManager env cfg = managerAdd env (CleanerRunnable (newClusterCleaner cfg))"

definition importer_AddToManager :: "'x hub_env \<Rightarrow> 'x ImporterConfig \<Rightarrow> 'x adding" where
  "importer_AddToManager env cfg added =
     (case Importer.AddToManager cfg of
        Inl e \<Rightarrow> (Some e, added)
      | Inr im \<Rightarrow> managerAdd env (ImporterRunnable im) added)"

definition exporter_AddToManager :: "'x hub_env \<Rightarrow> 'x kube \<Rightarrow> 'x ExporterConfig \<Rightarrow> 'x adding" where
  "exporter_AddToManager env mgr cfg =
     tryThen (managerAdd env (ExporterRunnable (addExporterToManager (newServiceExporter mgr cfg))))
       (managerAdd env (RevokerRunnable (addDiffCheckerToManager (newLostServiceRevoker mgr cfg))))"

definition mode_runnables :: "'x hub_env \<Rightarrow> Options \<Rightarrow> 'x wiring \<Rightarrow> 'x adding" where
  "mode_runnables env opts wr =
     (if optMode opts = ModeServer then
        tryThen (managerAdd env (APIServerRunnable (the (optAPIServer wr))))
          (cleaner_AddToManager env
            \<lparr>ncManager = optManager wr, ncInterval = optClusterExpireTime opts,
             ncRequestTimeout = optRequestTimeout opts, ncRevokeGlobalService = optRevokeGlobalService wr\<rparr>)
      else
        importer_AddToManager env
          \<lparr>icInterval = optServiceImportInterval opts, icRequestTimeout = optRequestTimeout opts,
           icManager = Some (optManager wr),
           icGetGlobalServices = Some (DownloadAllGlobalServices (the (optClient wr))),
           icAllowCreateNamespace = optAllowCreateNamespace opts\<rparr>)"

definition initManagerRunnables :: "'x hub_env \<Rightarrow> Options \<Rightarrow> 'x wiring \<Rightarrow> 'x adding" where
  "initManagerRunnables env opts wr =
     tryThen (mode_runnables env opts wr)
       (exporter_AddToManager env (optManager wr)
         \<lparr>cfgClusterName = optCluster opts, cfgZone = optZone opts, cfgRegion = optRegion opts,
          cfgExport = optExportGlobalService wr, cfgRevoke = optRevokeGlobalService wr\<rparr>)"

text \<open>After an error the process ends, so what was added before it is not kept.\<close>

definition Complete ::
  "'x hub_env \<Rightarrow> Options \<Rightarrow> 'x \<Rightarrow> (go_error + 'x wiring \<times> 'x runnable list) outcome \<times> 'x" where
  "Complete env opts x =
     (case initManager env of
        Panicked \<Rightarrow> (Panicked, x)
      | Returned (Inl e) \<Rightarrow> (Returned (Inl e), x)
      | Returned (Inr mgr) \<Rightarrow>
          (case (if optMode opts = ModeServer then (initAPIServer env opts mgr, x)
                 else initClient env opts mgr x) of
             (Inl e, x1) \<Rightarrow> (Returned (Inl e), x1)
           | (Inr wr, x1) \<Rightarrow>
               (case initManagerRunnables env opts wr [] of
                  (Some e, _) \<Rightarrow> (Returned (Inl e), x1)
                | (None, rs) \<Rightarrow> (Returned (Inr (wr, rs)), x1))))"

section \<open>Running\<close>

text \<open>
  \<open>runAPIServer\<close> waits for the listener's error or the end of the context; \<open>ErrServerClosed\<close> is
  not passed on.  \<open>None\<close>: it is still running after these events.
\<close>

datatype api_event = ListenReturned go_error | ContextDone go_error

definition ErrServerClosed :: go_error where
  "ErrServerClosed = TextError ''http: Server closed''"

fun runAPIServer :: "api_event list \<Rightarrow> go_error option" where
  "runAPIServer [] = None"
| "runAPIServer (ListenReturned e # es) = (if e = ErrServerClosed then runAPIServer es else Some e)"
| "runAPIServer (ContextDone e # es) = Some e"

text \<open>
  \<open>Run\<close>: in server mode a goroutine waits until the manager is elected and then fills the store.
  \<open>start\<close> is \<open>Manager.Start\<close>, which runs what was added until the context ends; its last but one
  argument is what the goroutine does once the manager is elected.
\<close>

type_synonym 'x manager_start =
  "'x runnable list \<Rightarrow> ('x hub \<Rightarrow> 'x hub) \<Rightarrow> 'x hub \<Rightarrow> go_error option \<times> 'x hub"

definition Run ::
  "'x manager_start \<Rightarrow> (string \<Rightarrow> time) \<Rightarrow> Options \<Rightarrow> 'x wiring \<Rightarrow> 'x runnable list \<Rightarrow> 'x hub
     \<Rightarrow> go_error option \<times> 'x hub" where
  "Run start now opts wr rs h =
     start rs (if optMode opts = ModeServer
               then recordGlobalServicesByCluster (optManager wr) (optCluster opts) (optClusterExpireTime opts) now
               else (\<lambda>h. h)) h"

text \<open>
  \<open>Execute\<close> of \<open>cmd.go\<close>: \<open>flags\<close> is what \<open>pflag.Parse\<close> makes of the defaults and the command line,
  with what \<open>showVersion\<close> points to; the process that is asked for its version prints it and exits.
  The store that \<open>Complete\<close> makes is empty.
\<close>

datatype executed = ExitedWith string | Finished "go_error option"

definition Execute ::
  "(string \<Rightarrow> stat_result) \<Rightarrow> 'x hub_env \<Rightarrow> (Options \<times> bool option \<Rightarrow> Options \<times> bool option) \<Rightarrow> build_info
     \<Rightarrow> 'x manager_start \<Rightarrow> (string \<Rightarrow> time) \<Rightarrow> 'x \<Rightarrow> executed outcome \<times> 'x hub" where
  "Execute stat env flags build start now x =
     (case flags (AddFlags, about_AddFlags) of
        (opts, showVersion) \<Rightarrow>
          (case DisplayAndExitIfRequested build showVersion of
             Panicked \<Rightarrow> (Panicked, NewClusterStore, x)
           | Returned (Some text) \<Rightarrow> (Returned (ExitedWith text), NewClusterStore, x)
           | Returned None \<Rightarrow>
               (case Validate stat opts of
                  Panicked \<Rightarrow> (Panicked, NewClusterStore, x)
                | Returned (Some e) \<Rightarrow> (Returned (Finished (Some e)), NewClusterStore, x)
                | Returned None \<Rightarrow>
                    (case Complete env opts x of
                       (Panicked, x1) \<Rightarrow> (Panicked, NewClusterStore, x1)
                     | (Returned (Inl e), x1) \<Rightarrow> (Returned (Finished (Some e)), NewClusterStore, x1)
                     | (Returned (Inr (wr, rs)), x1) \<Rightarrow>
                         (case Run start now opts wr rs (NewClusterStore, x1) of
                            (r, h) \<Rightarrow> (Returned (Finished r), h))))))"

text \<open>\<open>pflag.Parse\<close> sets what the pointer points to and never makes it nil.\<close>

definition parses_flags :: "(Options \<times> bool option \<Rightarrow> Options \<times> bool option) \<Rightarrow> bool" where
  "parses_flags flags \<longleftrightarrow> (\<forall>opts v. snd (flags (opts, Some v)) \<noteq> None)"

section \<open>The patterns\<close>

text \<open>The names the patterns are meant to accept: labels of RFC 1123 between dots.\<close>

definition dns_label :: "string \<Rightarrow> bool" where
  "dns_label l \<longleftrightarrow> l \<noteq> [] \<and> list_all (\<lambda>c. c = CHR ''-'' \<or> lower_alnum c) l \<and>
     lower_alnum (hd l) \<and> lower_alnum (last l)"

fun dot_labels :: "string \<Rightarrow> string list" where
  "dot_labels [] = [[]]"
| "dot_labels (c # cs) =
     (if c = CHR ''.'' then [] # dot_labels cs
      else case dot_labels cs of [] \<Rightarrow> [[c]] | l # ls \<Rightarrow> (c # l) # ls)"

lemma dot_labels_not_Nil [simp]: "dot_labels s \<noteq> []"
  by (induction s) (auto split: list.splits)

lemma dot_labels_join:
  "s = hd (dot_labels s) @ concat (map (Cons CHR ''.'') (tl (dot_labels s)))"
proof (induction s)
  case (Cons c s)
  then show ?case by (cases "dot_labels s") auto
qed simp

lemma dot_labels_plain: "CHR ''.'' \<notin> set x \<Longrightarrow> dot_labels x = [x]"
  by (induction x) auto

lemma dot_labels_append: "CHR ''.'' \<notin> set x \<Longrightarrow> dot_labels (x @ CHR ''.'' # y) = x # dot_labels y"
  by (induction x) auto

lemma dot_not_alnum [simp]: "\<not> lower_alnum CHR ''.''" "\<not> alnum CHR ''.''"
  by code_simp+

lemma dns_label_no_dot:
  assumes "dns_label l"
  shows "CHR ''.'' \<notin> set l"
proof
  assume "CHR ''.'' \<in> set l"
  moreover have "list_all (\<lambda>c. c = CHR ''-'' \<or> lower_alnum c) l"
    using assms by (simp add: dns_label_def)
  ultimately have "CHR ''.'' = CHR ''-'' \<or> lower_alnum CHR ''.''"
    unfolding list_all_iff by (rule bspec [rotated])
  then show False by simp
qed

lemma dot_labels_of_join:
  "dns_label l \<Longrightarrow> list_all dns_label ls \<Longrightarrow> dot_labels (l @ concat (map (Cons CHR ''.'') ls)) = l # ls"
proof (induction ls arbitrary: l)
  case Nil
  then show ?case using dot_labels_plain dns_label_no_dot by simp
next
  case (Cons k ls)
  then show ?case using dot_labels_append [OF dns_label_no_dot] by simp
qed

lemma lang_label: "l \<in> lang label_re \<longleftrightarrow> dns_label l"
proof -
  have "l \<in> lang label_re \<longleftrightarrow> (\<exists>c y. l = c # y \<and> lower_alnum c \<and>
      (y = [] \<or> (\<exists>z d. y = z @ [d] \<and> list_all (\<lambda>c. c = CHR ''-'' \<or> lower_alnum c) z \<and> lower_alnum d)))"
    unfolding label_re_def lang_shapes ..
  also have "\<dots> \<longleftrightarrow> dns_label l"
  proof (cases l)
    case (Cons c y)
    then show ?thesis by (cases y rule: rev_cases) (auto simp: dns_label_def)
  qed (simp add: dns_label_def)
  finally show ?thesis .
qed

lemma star_labels:
  "s \<in> star_lang {CHR ''.'' # l | l. dns_label l} \<longleftrightarrow>
     (\<exists>ls. list_all dns_label ls \<and> s = concat (map (Cons CHR ''.'') ls))"
proof
  show "s \<in> star_lang {CHR ''.'' # l | l. dns_label l} \<Longrightarrow>
      \<exists>ls. list_all dns_label ls \<and> s = concat (map (Cons CHR ''.'') ls)"
  proof (induction rule: star_lang.induct)
    case none
    then show ?case by (intro exI [of _ "[]"]) simp
  next
    case (more x y)
    then obtain l ls where "x = CHR ''.'' # l" "dns_label l" "list_all dns_label ls"
      "y = concat (map (Cons CHR ''.'') ls)" by auto
    then show ?case by (intro exI [of _ "l # ls"]) simp
  qed
next
  assume "\<exists>ls. list_all dns_label ls \<and> s = concat (map (Cons CHR ''.'') ls)"
  then obtain ls where "list_all dns_label ls" "s = concat (map (Cons CHR ''.'') ls)" by blast
  then show "s \<in> star_lang {CHR ''.'' # l | l. dns_label l}"
  proof (induction ls arbitrary: s)
    case (Cons l ls)
    then show ?case
      using star_lang.more [of "CHR ''.'' # l" "{CHR ''.'' # l | l. dns_label l}"] by simp
  qed (simp add: star_lang.none)
qed

lemma MatchString_dns1123: "MatchString dns1123Reg s \<longleftrightarrow> list_all dns_label (dot_labels s)"
proof -
  have "lang (Seq (Chars (\<lambda>c. c = CHR ''.'')) label_re) = {CHR ''.'' # l | l. dns_label l}"
    using lang_label by auto
  then have "MatchString dns1123Reg s \<longleftrightarrow> (\<exists>l ls. dns_label l \<and> list_all dns_label ls \<and>
      s = l @ concat (map (Cons CHR ''.'') ls))"
    using star_labels lang_label by (auto simp: dns1123Reg_def matches_lang)
  also have "\<dots> \<longleftrightarrow> list_all dns_label (dot_labels s)"
  proof
    assume "\<exists>l ls. dns_label l \<and> list_all dns_label ls \<and> s = l @ concat (map (Cons CHR ''.'') ls)"
    then show "list_all dns_label (dot_labels s)" using dot_labels_of_join by fastforce
  next
    assume "list_all dns_label (dot_labels s)"
    then have "dns_label (hd (dot_labels s)) \<and> list_all dns_label (tl (dot_labels s))"
      by (cases "dot_labels s") simp_all
    then show "\<exists>l ls. dns_label l \<and> list_all dns_label ls \<and> s = l @ concat (map (Cons CHR ''.'') ls)"
      using dot_labels_join [of s] by blast
  qed
  finally show ?thesis .
qed

lemma MatchString_zone: "MatchString zoneNameReg s \<longleftrightarrow> list_ex alnum s"
proof -
  have "MatchString zoneNameReg s \<longleftrightarrow> (\<exists>x c y z. s = x @ (c # y) @ z \<and> alnum c \<and> list_all alnum y)"
    unfolding zoneNameReg_def MatchString_Unanchored lang_shapes by blast
  also have "\<dots> \<longleftrightarrow> list_ex alnum s"
  proof
    assume "list_ex alnum s"
    then obtain c where "c \<in> set s" "alnum c" by (auto simp: list_ex_iff)
    then obtain x z where "s = x @ (c # []) @ z" by (auto dest: split_list)
    then show "\<exists>x c y z. s = x @ (c # y) @ z \<and> alnum c \<and> list_all alnum y"
      using \<open>alnum c\<close> list.pred_inject(1) by blast
  next
    assume "\<exists>x c y z. s = x @ (c # y) @ z \<and> alnum c \<and> list_all alnum y"
    then show "list_ex alnum s" by auto
  qed
  finally show ?thesis .
qed

lemma dot_label_not_Nil: "list_all dns_label (dot_labels s) \<Longrightarrow> s \<noteq> []"
  by (auto simp: dns_label_def)

section \<open>Validation\<close>

lemma check_files_ok:
  "check_files stat fs = Returned None \<longleftrightarrow> list_all (\<lambda>f. fileExists stat (fst f) = Returned True) fs"
proof (induction fs)
  case (Cons f fs)
  then show ?case by (cases f; cases "fileExists stat (fst f)") (auto split: if_splits)
qed simp

text \<open>
  C35 (Validate_accepts): what a service hub starts with.  The cluster name is a DNS name of RFC 1123,
  label by label; a zone or region needs one letter or digit somewhere, whatever else it holds;
  the mode is one of the two; the three files are there.
\<close>

theorem Validate_accepts:
  "Validate stat opts = Returned None \<longleftrightarrow>
     list_all dns_label (dot_labels (optCluster opts)) \<and>
     list_ex alnum (optZone opts) \<and> list_ex alnum (optRegion opts) \<and>
     optMode opts \<in> {ModeServer, ModeClient} \<and>
     list_all (\<lambda>f. fileExists stat f = Returned True) [optTLSKeyFile opts, optTLSCertFile opts, optTLSCACertFile opts]"
  unfolding Validate_def MatchString_dns1123 MatchString_zone check_files_ok by auto

section \<open>What a start sets up\<close>

lemma managerAdd_ok: "managerAdd env r added = (None, added') \<Longrightarrow> added' = added @ [r]"
  by (auto simp: managerAdd_def split: option.splits)

lemma tryThen_ok: "tryThen f g added = (None, added') \<longleftrightarrow> (\<exists>added1. f added = (None, added1) \<and> g added1 = (None, added'))"
  by (auto simp: tryThen_def split: prod.split option.split)

lemma importer_AddToManager_ok:
  "importer_AddToManager env cfg added = (None, added') \<Longrightarrow>
    \<exists>im. Importer.AddToManager cfg = Inr im \<and> added' = added @ [ImporterRunnable im]"
  by (auto simp: importer_AddToManager_def split: sum.splits dest: managerAdd_ok)

text \<open>The two controllers of the exporter.\<close>

definition exporter_controllers :: "'x kube \<Rightarrow> 'x ExporterConfig \<Rightarrow> 'x runnable list" where
  "exporter_controllers mgr cfg =
     [ExporterRunnable (addExporterToManager (newServiceExporter mgr cfg)),
      RevokerRunnable (addDiffCheckerToManager (newLostServiceRevoker mgr cfg))]"

lemma initManagerRunnables_ok:
  assumes "initManagerRunnables env opts wr [] = (None, added)"
  shows "\<exists>rs. (if optMode opts = ModeServer
      then rs = [APIServerRunnable (the (optAPIServer wr)),
        CleanerRunnable \<lparr>ccInterval = optClusterExpireTime opts, ccRevoke = optRevokeGlobalService wr\<rparr>]
      else \<exists>im. rs = [ImporterRunnable im] \<and> Importer.AddToManager
        \<lparr>icInterval = optServiceImportInterval opts, icRequestTimeout = optRequestTimeout opts,
         icManager = Some (optManager wr),
         icGetGlobalServices = Some (DownloadAllGlobalServices (the (optClient wr))),
         icAllowCreateNamespace = optAllowCreateNamespace opts\<rparr> = Inr im) \<and>
    added = rs @ exporter_controllers (optManager wr)
      \<lparr>cfgClusterName = optCluster opts, cfgZone = optZone opts, cfgRegion = optRegion opts,
       cfgExport = optExportGlobalService wr, cfgRevoke = optRevokeGlobalService wr\<rparr>"
  using assms
  by (auto simp: initManagerRunnables_def mode_runnables_def exporter_AddToManager_def cleaner_AddToManager_def
      newClusterCleaner_def exporter_controllers_def tryThen_ok split: if_splits
      dest!: managerAdd_ok importer_AddToManager_ok)

lemma initManager_ok: "initManager env = Returned (Inr K) \<longleftrightarrow> envGetConfig env = None \<and> envNewManager env = Inr K"
  by (auto simp: initManager_def split: option.splits sum.splits)

lemma Complete_ok:
  assumes "Complete env opts x = (Returned (Inr (wr, rs)), x')"
  shows "\<exists>K. envNewManager env = Inr K \<and> initManagerRunnables env opts wr [] = (None, rs) \<and>
    (if optMode opts = ModeServer then initAPIServer env opts K = Inr wr \<and> x' = x
     else initClient env opts K x = (Inr wr, x'))"
proof -
  from assms obtain K where K: "initManager env = Returned (Inr K)"
    unfolding Complete_def by (auto split: outcome.splits sum.splits)
  let ?init = "if optMode opts = ModeServer then (initAPIServer env opts K, x) else initClient env opts K x"
  from assms K obtain x1 where "?init = (Inr wr, x1)" "initManagerRunnables env opts wr [] = (None, rs)" "x' = x1"
    unfolding Complete_def by (simp split: prod.splits sum.splits option.splits)
  then show ?thesis using K by (auto simp: initManager_ok split: if_splits)
qed


text \<open>
  A hub that starts in server mode serves its API, sweeps at the expiry
  interval, and exports its own services, all through one global service manager on the API of
  its cluster; the start itself changes nothing there.
\<close>

theorem server_start_wiring:
  assumes "Complete env opts x = (Returned (Inr (wr, rs)), x')" and "optMode opts = ModeServer"
  shows "\<exists>K. envNewManager env = Inr K \<and> x' = x \<and>
    rs = [APIServerRunnable (hub_server K (optAllowCreateNamespace opts) (optClusterExpireTime opts) (envJson env)),
          CleanerRunnable \<lparr>ccInterval = optClusterExpireTime opts,
            ccRevoke = RevokeGlobalService (NewGlobalServiceManager K (optAllowCreateNamespace opts))\<rparr>] @
      exporter_controllers K (server_config K (optAllowCreateNamespace opts) (optCluster opts) (optZone opts) (optRegion opts))"
  using Complete_ok [OF assms(1)] assms(2)
  by (auto simp: initAPIServer_def Let_def hub_server_def server_config_def
      dest!: initManagerRunnables_ok split: option.splits)

definition demo_env :: "'x kube \<Rightarrow> 'x transport \<Rightarrow> 'x hub_env" where
  "demo_env K t = \<lparr>envGetConfig = None, envNewManager = Inr K, envLoadX509KeyPair = (\<lambda>_ _. None),
     envReadFile = (\<lambda>_. None), envParseURL = (\<lambda>_. Inr demo_url), envTransport = t, envJson = demo_json,
     envAdd = (\<lambda>_. None)\<rparr>"

definition demo_options :: Options where
  "demo_options = AddFlags\<lparr>optCluster := ''beijing'', optTLSKeyFile := ''tls.key'', optTLSCertFile := ''tls.crt'',
     optTLSCACertFile := ''ca.crt''\<rparr>"

definition demo_stat :: "string \<Rightarrow> stat_result" where
  "demo_stat f = (if f \<in> set [''tls.key'', ''tls.crt'', ''ca.crt''] then StatFile
     else if f = ''/'' then StatDir else if f = ''/root/tls.key'' then StatFailed else StatNotExist)"

definition demo_start :: "memory \<Rightarrow> (go_error + memory wiring \<times> memory runnable list) outcome \<times> memory" where
  "demo_start = Complete (demo_env mem_kube (\<lambda>q m. (Inl (TextError ''unused''), m))) demo_options"

lemma demo_start_run:
  "demo_start m = (Returned (Inr (
     \<lparr>optManager = mem_kube, optAPIServer = Some (hub_server mem_kube True 300000000000 demo_json), optClient = None,
      optExportGlobalService = CreateOrMergeGlobalService (NewGlobalServiceManager mem_kube True),
      optRevokeGlobalService = RevokeGlobalService (NewGlobalServiceManager mem_kube True)\<rparr>,
     [APIServerRunnable (hub_server mem_kube True 300000000000 demo_json),
      CleanerRunnable \<lparr>ccInterval = 300000000000, ccRevoke = RevokeGlobalService (NewGlobalServiceManager mem_kube True)\<rparr>] @
     exporter_controllers mem_kube (server_config mem_kube True ''beijing'' ''default'' ''default''))), m)"
  by (simp add: demo_start_def demo_env_def demo_options_def AddFlags_def Minute_def Second_def Complete_def
      initManager_def ModeServer_def initAPIServer_def Let_def getKeyPairAndCACertPool_def
      initManagerRunnables_def mode_runnables_def cleaner_AddToManager_def newClusterCleaner_def exporter_AddToManager_def
      tryThen_def managerAdd_def exporter_controllers_def hub_server_def server_config_def)

lemma demo_options_fields [simp]:
  "optMode demo_options = ModeServer" "optCluster demo_options = ''beijing''"
  "optAllowCreateNamespace demo_options" "optClusterExpireTime demo_options = 300000000000"
  by (simp_all add: demo_options_def AddFlags_def ModeServer_def Minute_def Second_def)

theorem server_start_wiring_witness:
  "\<exists>wr rs m. demo_start empty_memory =
     (Returned (Inr (wr, APIServerRunnable (hub_server mem_kube True 300000000000 demo_json) # rs)), m)"
proof -
  obtain wr rs m where run: "demo_start empty_memory = (Returned (Inr (wr, rs)), m)"
    using demo_start_run by blast
  note run [unfolded demo_start_def]
  from server_start_wiring [OF this] obtain K rs' where
    "envNewManager (demo_env mem_kube (\<lambda>q m. (Inl (TextError ''unused''), m)) :: memory hub_env) = Inr K"
    "rs = APIServerRunnable (hub_server K True 300000000000 demo_json) # rs'"
    by (auto simp: demo_env_def)
  then show ?thesis using run by (auto simp: demo_env_def)
qed

text \<open>
  C23 (client_start_registers): a hub member that starts in client mode has reached the hub: its
  heartbeat was answered, so the hub knows the cluster under its name and expects it back within
  the expiry time; nothing else of the hub has changed.  From then on it imports what it
  downloads and exports its services through the same client.
\<close>

theorem client_start_registers:
  fixes K :: "('m \<times> 'w network) kube"
  assumes "Validate stat opts = Returned None" and "optMode opts = ModeClient" and "chi_ok chi"
    and "envNewManager env = Inr K" and "envTransport env = (\<lambda>q. on_network (hub_transport chi sv q))"
    and "envJson env = svJson sv" and "store_inv s"
    and "Complete env opts (m, ds, s, w) = (Returned (Inr (wr, rs)), m', ds', s', w')"
  shows "m' = m \<and> w' = w \<and> (\<exists>now. registry s' = (registry s)(optCluster opts \<mapsto>
      (case registry s (optCluster opts) of None \<Rightarrow> {} | Some (ks, _) \<Rightarrow> ks, now + svExpire sv))) \<and>
    (\<exists>url. let c = hub_client_of (optCluster opts) url chi sv;
          cfg = client_config c (optCluster opts) (optZone opts) (optRegion opts)
      in rs = [ImporterRunnable \<lparr>imInterval = optServiceImportInterval opts, imClient = K,
                 imGet = on_network (DownloadAllGlobalServices c),
                 imAllowCreateNamespace = optAllowCreateNamespace opts\<rparr>] @ exporter_controllers K cfg)"
proof -
  have mode: "optMode opts \<noteq> ModeServer" using assms(2) by (simp add: ModeServer_def ModeClient_def)
  have named: "optCluster opts \<noteq> []"
    using assms(1) by (auto simp: Validate_def MatchString_dns1123 dest!: dot_label_not_Nil split: if_splits)
  from Complete_ok [OF assms(8)] assms(4) mode have
    init: "initClient env opts K (m, ds, s, w) = (Inr wr, m', ds', s', w')"
    and added: "initManagerRunnables env opts wr [] = (None, rs)" by auto
  from init obtain url where
    beat: "client_Heartbeat (lift_client (hub_client_of (optCluster opts) url chi sv)) (m, ds, s, w) =
      (None, m', ds', s', w')"
    and wr: "optManager wr = K" "optClient wr = Some (lift_client (hub_client_of (optCluster opts) url chi sv))"
      "optExportGlobalService wr = client_UploadGlobalService (lift_client (hub_client_of (optCluster opts) url chi sv))"
      "optRevokeGlobalService wr = (\<lambda>cl. client_DeleteGlobalService (lift_client (hub_client_of (optCluster opts) url chi sv)))"
    by (auto simp: initClient_def NewClient_def lift_client_def hub_client_of_def assms(5,6)
        split: option.splits sum.splits prod.splits)
  have m: "m' = m" and beat: "client_Heartbeat (hub_client_of (optCluster opts) url chi sv) (ds, s, w) =
      (None, ds', s', w')"
    using beat by (auto simp: client_lift on_network_def split: prod.splits)
  have registered: "w' = w \<and> (\<exists>now. registry s' = (registry s)(optCluster opts \<mapsto>
      (case registry s (optCluster opts) of None \<Rightarrow> {} | Some (ks, _) \<Rightarrow> ks, now + svExpire sv)))"
    by (rule client_Heartbeat_registers [OF assms(3,7) named beat])
  let ?c = "hub_client_of (optCluster opts) url chi sv"
  have cfg: "\<lparr>cfgClusterName = optCluster opts, cfgZone = optZone opts, cfgRegion = optRegion opts,
      cfgExport = optExportGlobalService wr, cfgRevoke = optRevokeGlobalService wr\<rparr> =
      client_config ?c (optCluster opts) (optZone opts) (optRegion opts)"
    by (simp add: wr client_lift client_config_def fun_eq_iff)
  obtain im where im: "im = \<lparr>imInterval = optServiceImportInterval opts, imClient = K,
       imGet = on_network (DownloadAllGlobalServices ?c), imAllowCreateNamespace = optAllowCreateNamespace opts\<rparr>"
    and rs: "rs = [ImporterRunnable im] @ exporter_controllers K
      (client_config ?c (optCluster opts) (optZone opts) (optRegion opts))"
    using initManagerRunnables_ok [OF added, unfolded cfg] mode
    by (auto simp: Importer.AddToManager_def wr(1,2) client_lift split: if_splits)
  then show ?thesis using registered m by (auto simp: Let_def)
qed

definition demo_client_options :: Options where
  "demo_client_options = demo_options\<lparr>optMode := ModeClient\<rparr>"

definition demo_client_start ::
  "(go_error + (memory \<times> memory network) wiring \<times> (memory \<times> memory network) runnable list) outcome
     \<times> memory \<times> memory network" where
  "demo_client_start = Complete
     (demo_env (member_kube mem_kube) (\<lambda>q. on_network (hub_transport std_chi demo_server q)))
     demo_client_options (empty_memory, [Delivered 10], NewClusterStore, empty_memory)"

theorem client_start_registers_witness:
  "\<exists>now. registry (fst (snd (snd (snd demo_client_start)))) ''beijing'' = Some ({}, now + 300)"
proof -
  let ?env = "demo_env (member_kube mem_kube) (\<lambda>q. on_network (hub_transport std_chi demo_server q))"
  have valid: "Validate demo_stat demo_client_options = Returned None" by code_simp
  have mode: "optMode demo_client_options = ModeClient" by (simp add: demo_client_options_def)
  have "case fst demo_client_start of Returned (Inr _) \<Rightarrow> True | _ \<Rightarrow> False" by code_simp
  then obtain wr rs where "fst demo_client_start = Returned (Inr (wr, rs))"
    by (auto split: outcome.splits sum.splits)
  moreover obtain m ds s w where "snd demo_client_start = (m, ds, s, w)" by (metis prod_cases4)
  ultimately have run: "Complete ?env demo_client_options (empty_memory, [Delivered 10], NewClusterStore, empty_memory)
      = (Returned (Inr (wr, rs)), m, ds, s, w)" and s: "s = fst (snd (snd (snd demo_client_start)))"
    by (simp_all add: prod_eq_iff flip: demo_client_start_def)
  have named: "optCluster demo_client_options = ''beijing''" by (simp add: demo_client_options_def)
  have expire: "svExpire demo_server = 300" by (simp add: demo_server_def)
  from client_start_registers [OF valid mode chi_ok_std _ _ _ store_inv_New_empty run] named expire
  show ?thesis unfolding s [symmetric] by (fastforce simp: demo_env_def demo_server_def)
qed


section \<open>Panics of a start\<close>

text \<open>A file whose state cannot be told, and that is looked at because those before it are there.\<close>

definition unreadable_file :: "(string \<Rightarrow> stat_result) \<Rightarrow> Options \<Rightarrow> bool" where
  "unreadable_file stat opts \<longleftrightarrow>
     stat (optTLSKeyFile opts) = StatFailed \<or>
     stat (optTLSKeyFile opts) = StatFile \<and>
       (stat (optTLSCertFile opts) = StatFailed \<or>
        stat (optTLSCertFile opts) = StatFile \<and> stat (optTLSCACertFile opts) = StatFailed)"

definition names_ok :: "Options \<Rightarrow> bool" where
  "names_ok opts \<longleftrightarrow> list_all dns_label (dot_labels (optCluster opts)) \<and>
     list_ex alnum (optZone opts) \<and> list_ex alnum (optRegion opts) \<and> optMode opts \<in> {ModeServer, ModeClient}"

lemma check_three_panics:
  "check_files stat [(a, x), (b, y), (c, z)] = Panicked \<longleftrightarrow>
     stat a = StatFailed \<or> stat a = StatFile \<and> (stat b = StatFailed \<or> stat b = StatFile \<and> stat c = StatFailed)"
  by (cases "stat a"; cases "stat b"; cases "stat c") (simp_all add: fileExists_def ex_bool_eq)

lemma Validate_panics: "Validate stat opts = Panicked \<longleftrightarrow> names_ok opts \<and> unreadable_file stat opts"
proof -
  let ?files = "check_files stat
    [(optTLSKeyFile opts, ''TLS key file does not exist''), (optTLSCertFile opts, ''TLS cert file does not exist''),
     (optTLSCACertFile opts, ''TLS CA cert file does not exist'')]"
  have "Validate stat opts = Panicked \<longleftrightarrow> names_ok opts \<and> ?files = Panicked"
    unfolding Validate_def MatchString_dns1123 MatchString_zone names_ok_def
    by (simp del: check_files.simps)
  then show ?thesis by (simp only: check_three_panics unreadable_file_def)
qed

lemma initManager_panics:
  "initManager env = Panicked \<longleftrightarrow> envGetConfig env = None \<and> isl (envNewManager env)"
  by (auto simp: initManager_def split: option.split sum.split)

lemma Complete_panics: "fst (Complete env opts x) = Panicked \<longleftrightarrow> initManager env = Panicked"
  by (auto simp: Complete_def split: outcome.split sum.split prod.split option.split)

text \<open>
  C36 (start_panics): when the process panics before it runs: a file of the options exists or not,
  that cannot be told (a directory on its path may not be searched, say), or the manager cannot be
  made.  In both cases the code goes on with a nil value where it has an error to report.
\<close>

theorem start_panics:
  assumes "parses_flags flags" and "flags (AddFlags, about_AddFlags) = (opts, showVersion)"
  shows "fst (Execute stat env flags build start now x) = Panicked \<longleftrightarrow>
    showVersion = Some False \<and>
    (names_ok opts \<and> unreadable_file stat opts \<or>
     Validate stat opts = Returned None \<and> envGetConfig env = None \<and> isl (envNewManager env))"
proof -
  obtain version where v: "showVersion = Some version"
    using assms by (metis parses_flags_def about_AddFlags_def not_None_eq snd_conv)
  show ?thesis
  proof (cases version)
    case True
    then show ?thesis using assms(2) v by (simp add: Execute_def DisplayAndExitIfRequested_def)
  next
    case False
    then show ?thesis
      using assms(2) v Validate_panics [of stat opts] Complete_panics [of env opts x] initManager_panics [of env]
      by (auto simp: Execute_def DisplayAndExitIfRequested_def split: outcome.split option.split sum.split prod.split)
  qed
qed

text \<open>A command line that gives the options of the samples.\<close>

definition demo_flags :: "Options \<Rightarrow> bool \<Rightarrow> Options \<times> bool option \<Rightarrow> Options \<times> bool option" where
  "demo_flags opts asked = (\<lambda>_. (opts, Some asked))"

definition broken_options :: Options where
  "broken_options = demo_options\<lparr>optTLSKeyFile := ''/root/tls.key''\<rparr>"

theorem start_panics_witness:
  "fst (Execute demo_stat (demo_env mem_kube (\<lambda>q m. (Inl (TextError ''unused''), m))) (demo_flags broken_options False)
     default_build (\<lambda>rs f h. (None, f h)) (\<lambda>_. 0) empty_memory) = Panicked"
proof -
  have parses: "parses_flags (demo_flags broken_options False)" by (simp add: parses_flags_def demo_flags_def)
  have "names_ok broken_options" and "unreadable_file demo_stat broken_options" by code_simp+
  then show ?thesis
    by (intro start_panics [THEN iffD2, OF parses]) (auto simp: demo_flags_def)
qed

text \<open>
  What nothing before the tickers checks.  The runnable that sweeps
  panics when the expiry duration is not positive, the one that imports when its interval is
  negative; the flags allow both, and \<open>Complete\<close> succeeds.
\<close>

theorem start_interval_unchecked:
  assumes "Complete env opts x = (Returned (Inr (wr, rs)), x')"
  shows "(CleanerRunnable cl \<in> set rs \<longrightarrow>
      (Cleaner.Start cl ticks h = Panicked \<longleftrightarrow> optClusterExpireTime opts \<le> 0)) \<and>
    (ImporterRunnable im \<in> set rs \<longrightarrow>
      (Importer.Start im first ticks' y = Panicked \<longleftrightarrow> optServiceImportInterval opts < 0))"
  using Complete_ok [OF assms]
  by (auto simp: Cleaner.Start_def Importer.Start_def exporter_controllers_def Importer.AddToManager_def
      dest!: initManagerRunnables_ok split: if_splits)

theorem start_interval_unchecked_witness:
  "\<exists>wr rs cl. demo_start empty_memory = (Returned (Inr (wr, rs)), empty_memory) \<and> CleanerRunnable cl \<in> set rs \<and>
     Cleaner.Start cl [] (NewClusterStore, empty_memory) \<noteq> Panicked"
proof -
  define cl where "cl = \<lparr>ccInterval = 300000000000, ccRevoke = RevokeGlobalService (NewGlobalServiceManager mem_kube True)\<rparr>"
  obtain wr rs where run: "demo_start empty_memory = (Returned (Inr (wr, rs)), empty_memory)"
    and cl: "CleanerRunnable cl \<in> set rs"
    unfolding demo_start_run cl_def by simp
  from start_interval_unchecked [OF run [unfolded demo_start_def], THEN conjunct1, THEN mp, OF cl] run cl
  show ?thesis by auto
qed

end
