(* ===== verification/EntryPoints.thy ===== *)
theory EntryPoints
  imports Options
begin

text \<open>
  The two programs: \<open>cmd/service-hub/main.go\<close>, which turns the outcome of \<open>Execute\<close> into the status
  of the process, and \<open>cmd/fabdns/main.go\<close>, a CoreDNS with a list of plugins of its own, in which
  \<open>fabdns\<close> has a place.  \<open>coremain.Run\<close> and the way CoreDNS builds a chain of plugins are arguments.
\<close>

section \<open>The service hub\<close>

text \<open>The status of the process (2 for a panic), what it printed, and what it left of the world.\<close>

definition service_hub_main ::
  "(string \<Rightarrow> stat_result) \<Rightarrow> 'x hub_env \<Rightarrow> (Options \<times> bool option \<Rightarrow> Options \<times> bool option) \<Rightarrow> build_info
     \<Rightarrow> 'x manager_start \<Rightarrow> (string \<Rightarrow> time) \<Rightarrow> 'x \<Rightarrow> nat \<times> string \<times> 'x hub" where
  "service_hub_main stat env flags build start now x =
     (case Execute stat env flags build start now x of
        (Panicked, h) \<Rightarrow> (2, [], h)
      | (Returned (ExitedWith text), h) \<Rightarrow> (0, text, h)
      | (Returned (Finished err), h) \<Rightarrow> (if err \<noteq> None then 1 else 0, [], h))"

text \<open>
  C37 (main_exit_status): a service hub in server mode runs, and then its status is 0 exactly when
  the manager ended without an error; or it does not get that far, and then it has not touched the
  API of its cluster, and its status is 0 only when it printed its version because it was asked to.
\<close>

theorem main_exit_status:
  assumes "parses_flags flags" and "flags (AddFlags, about_AddFlags) = (opts, showVersion)"
    and "optMode opts = ModeServer"
    and "service_hub_main stat env flags build start now x = (status, out, h)"
  shows "(\<exists>wr rs r. showVersion = Some False \<and> Validate stat opts = Returned None \<and>
      Complete env opts x = (Returned (Inr (wr, rs)), x) \<and>
      Run start now opts wr rs (NewClusterStore, x) = (r, h) \<and> (status = 0 \<longleftrightarrow> r = None) \<and> out = []) \<or>
    h = (NewClusterStore, x) \<and> (status = 0 \<longleftrightarrow> showVersion = Some True) \<and>
      out = (if showVersion = Some True then DisplayVersion build else [])"
proof -
  obtain asked where v: "showVersion = Some asked"
    using assms(1,2) by (metis parses_flags_def about_AddFlags_def not_None_eq snd_conv)
  have still: "x' = x" if "Complete env opts x = (r, x')" for r x'
    using that assms(3) by (auto simp: Complete_def split: outcome.splits sum.splits option.splits prod.splits)
  show ?thesis
  proof (cases asked)
    case True
    then show ?thesis
      using assms(2,4) v by (simp add: service_hub_main_def Execute_def DisplayAndExitIfRequested_def)
  next
    case False
    obtain r x' where run: "Complete env opts x = (r, x')" by force
    then show ?thesis
      using assms(2,4) v False still [OF run]
      by (auto simp: service_hub_main_def Execute_def DisplayAndExitIfRequested_def
          split: outcome.splits option.splits sum.splits prod.splits if_splits)
  qed
qed

theorem main_exit_status_witness:
  "fst (service_hub_main demo_stat (demo_env mem_kube (\<lambda>q m. (Inl (TextError ''unused''), m)))
      (demo_flags demo_options False) default_build (\<lambda>rs f h. (Some (TextError ''lost''), f h)) (\<lambda>_. 0) empty_memory) \<noteq> 0"
proof -
  let ?env = "demo_env mem_kube (\<lambda>q m. (Inl (TextError ''unused''), m))"
  let ?start = "\<lambda>rs f h. (Some (TextError ''lost''), f h)"
  let ?main = "service_hub_main demo_stat ?env (demo_flags demo_options False) default_build ?start (\<lambda>_. 0) empty_memory"
  have parses: "parses_flags (demo_flags demo_options False)" by (simp add: parses_flags_def demo_flags_def)
  have flags: "demo_flags demo_options False (AddFlags, about_AddFlags) = (demo_options, Some False)"
    by (simp add: demo_flags_def)
  have mode: "optMode demo_options = ModeServer" by simp
  have "?main = (fst ?main, fst (snd ?main), snd (snd ?main))" by simp
  from main_exit_status [OF parses flags mode this] show ?thesis
    by (auto simp: Run_def)
qed

section \<open>The DNS server\<close>

text \<open>The packages imported for the plugin they register, by their import paths.\<close>

definition coredns_plugin :: "string \<Rightarrow> string" where
  "coredns_plugin p = ''github.com/coredns/coredns/plugin/'' @ p"

definition coredns_plugins :: "string list" where
  "coredns_plugins =
     [''any'', ''auto'', ''autopath'', ''bind'', ''cache'', ''cancel'', ''chaos'', ''debug'', ''dnssec'',
      ''dnstap'', ''erratic'', ''errors'', ''etcd'', ''file'', ''forward'', ''grpc'', ''health'', ''hosts'',
      ''k8s_external'', ''loadbalance'', ''log'', ''loop'', ''metadata'', ''metrics'', ''nsid'', ''pprof'', ''ready'',
      ''reload'', ''rewrite'', ''root'', ''route53'', ''secondary'', ''template'', ''tls'', ''trace'', ''whoami'']"

definition plugin_imports :: "string list" where
  "plugin_imports = ''github.com/caddyserver/caddy/onevent'' # map coredns_plugin coredns_plugins @
     [''github.com/fabedge/fab-dns/pkg/fabdns'']"

definition directives :: "string list" where
  "directives =
     [''metadata'', ''cancel'', ''tls'', ''reload'', ''nsid'', ''root'', ''bind'', ''debug'', ''trace'', ''ready'',
      ''health'', ''pprof'', ''prometheus'', ''errors'', ''log'', ''dnstap'', ''any'', ''chaos'', ''loadbalance'',
      ''cache'', ''rewrite'', ''dnssec'', ''autopath'', ''template'', ''hosts'', ''route53'', ''k8s_external'',
      ''fabdns'', ''file'', ''auto'', ''secondary'', ''etcd'', ''loop'', ''forward'', ''grpc'', ''erratic'',
      ''whoami'', ''on'']"

text \<open>
  The directive a package registers a plugin for with \<open>github.com/coredns/caddy\<close>, where CoreDNS 1.8.6
  looks for it: a plugin of CoreDNS its own name, but for \<open>metrics\<close>; \<open>onevent\<close> of
  \<open>github.com/caddyserver/caddy\<close> none, as it registers with that other module.  A chain holds the
  plugins of a server block in the order of \<open>dnsserver.Directives\<close>, which \<open>init\<close> sets, whatever the
  order in the block.
\<close>

definition documented_registry :: "(string \<Rightarrow> string option) \<Rightarrow> bool" where
  "documented_registry reg \<longleftrightarrow>
     (\<forall>p. reg (coredns_plugin p) = Some (if p = ''metrics'' then ''prometheus'' else p)) \<and>
     reg ''github.com/fabedge/fab-dns/pkg/fabdns'' = Some ''fabdns'' \<and>
     reg ''github.com/caddyserver/caddy/onevent'' = None"

definition documented_chain :: "(string list \<Rightarrow> string list \<Rightarrow> string list) \<Rightarrow> bool" where
  "documented_chain chain \<longleftrightarrow> (\<forall>dirs block. chain dirs block = filter (\<lambda>d. d \<in> set block) dirs)"

definition fabdns_main :: "(string list \<Rightarrow> 'r) \<Rightarrow> 'r" where
  "fabdns_main coremain_Run = coremain_Run directives"

text \<open>What a query that \<open>fabdns\<close> does not answer can still reach.\<close>

definition behind_fabdns :: "string list" where
  "behind_fabdns = [''file'', ''auto'', ''secondary'', ''etcd'', ''loop'', ''forward'', ''grpc'', ''erratic'', ''whoami'', ''on'']"

lemma directives_split: "directives = takeWhile (\<lambda>d. d \<noteq> ''fabdns'') directives @ ''fabdns'' # behind_fabdns"
  by code_simp

text \<open>
  Every directive of the server has its plugin but \<open>on\<close>, which the configuration may contain and for
  which nothing is compiled in: the import in \<open>cmd/fabdns/main.go\<close> is of the other caddy.
\<close>

definition registered :: "(string \<Rightarrow> string option) \<Rightarrow> string set" where
  "registered reg = {d. \<exists>p \<in> set plugin_imports. reg p = Some d}"

definition registered_name :: "string \<Rightarrow> string" where
  "registered_name p = (if p = ''metrics'' then ''prometheus'' else p)"

lemma registered_documented:
  assumes "documented_registry reg"
  shows "registered reg = insert ''fabdns'' (registered_name ` set coredns_plugins)"
proof -
  have reg: "reg (coredns_plugin p) = Some (registered_name p)"
    "reg ''github.com/fabedge/fab-dns/pkg/fabdns'' = Some ''fabdns''"
    "reg ''github.com/caddyserver/caddy/onevent'' = None" for p
    using assms by (simp_all add: documented_registry_def registered_name_def)
  have "set plugin_imports = {''github.com/caddyserver/caddy/onevent'', ''github.com/fabedge/fab-dns/pkg/fabdns''} \<union>
      coredns_plugin ` set coredns_plugins"
    unfolding plugin_imports_def set_append list.set_map list.set by blast
  then show ?thesis using reg by (auto simp: registered_def)
qed

theorem directive_without_plugin:
  assumes "documented_registry reg"
  shows "distinct directives \<and> set directives = insert ''on'' (registered reg) \<and> ''on'' \<notin> registered reg"
proof -
  have "distinct directives" by code_simp
  moreover have "set directives = insert ''on'' (insert ''fabdns'' (registered_name ` set coredns_plugins))" by code_simp
  moreover have "''on'' \<notin> insert ''fabdns'' (registered_name ` set coredns_plugins)" by code_simp
  ultimately show ?thesis unfolding registered_documented [OF assms] by blast
qed

text \<open>A registry that is as documented.\<close>

definition std_registry :: "string \<Rightarrow> string option" where
  "std_registry path =
     (if path = ''github.com/fabedge/fab-dns/pkg/fabdns'' then Some ''fabdns''
      else if path = ''github.com/caddyserver/caddy/onevent'' then None
      else Some (registered_name (drop (length (coredns_plugin [])) path)))"

theorem directive_without_plugin_witness: "''on'' \<notin> registered std_registry \<and> ''on'' \<in> set directives"
proof -
  have "documented_registry std_registry"
    by (simp add: documented_registry_def std_registry_def coredns_plugin_def registered_name_def)
  from directive_without_plugin [OF this] show ?thesis by blast
qed

text \<open>
  In every chain built from a server block with \<open>fabdns\<close>, a query passes the block's cache, rewriting and
  static hosts before \<open>fabdns\<close>, and what \<open>fabdns\<close> passes on goes to the block's zone files and
  forwarders and to none of those before it.
\<close>

theorem fabdns_chain:
  assumes "documented_chain chain" and "''fabdns'' \<in> set block"
  shows "\<exists>before. fabdns_main (\<lambda>dirs. chain dirs block) = before @ ''fabdns'' # filter (\<lambda>d. d \<in> set block) behind_fabdns \<and>
    set before \<inter> set behind_fabdns = {} \<and>
    {''cache'', ''rewrite'', ''hosts'', ''k8s_external''} \<inter> set block \<subseteq> set before"
proof -
  let ?before = "takeWhile (\<lambda>d. d \<noteq> ''fabdns'') directives"
  have apart: "set ?before \<inter> set behind_fabdns = {}"
    and ahead: "{''cache'', ''rewrite'', ''hosts'', ''k8s_external''} \<subseteq> set ?before" by code_simp+
  moreover have "fabdns_main (\<lambda>dirs. chain dirs block) =
      filter (\<lambda>d. d \<in> set block) ?before @ ''fabdns'' # filter (\<lambda>d. d \<in> set block) behind_fabdns"
    using arg_cong [OF directives_split, of "filter (\<lambda>d. d \<in> set block)"] assms
    by (simp add: fabdns_main_def documented_chain_def)
  ultimately show ?thesis
    by (intro exI [of _ "filter (\<lambda>d. d \<in> set block) ?before"]) auto
qed

definition std_chain :: "string list \<Rightarrow> string list \<Rightarrow> string list" where
  "std_chain dirs block = filter (\<lambda>d. d \<in> set block) dirs"

theorem fabdns_chain_witness:
  "\<exists>before. fabdns_main (\<lambda>dirs. std_chain dirs [''forward'', ''fabdns'', ''log'', ''cache'']) = before @ [''fabdns'', ''forward''] \<and>
     ''cache'' \<in> set before"
proof -
  have chain: "documented_chain std_chain" by (simp add: documented_chain_def std_chain_def)
  have block: "''fabdns'' \<in> set [''forward'', ''fabdns'', ''log'', ''cache'']" by simp
  from fabdns_chain [OF chain block] show ?thesis by (auto simp: behind_fabdns_def)
qed

end
