(* ===== verification/HubSystem.thy ===== *)
theory HubSystem
  imports Cleaner LostServiceRevoker HubStartup
begin

text \<open>
  The hub as it runs: requests, sweeps of the cleaner, the two controllers and the rest of the world
  interleave.  A handler holds no lock between its call to the global service manager and its
  update of the cluster store, so a request is three steps: the middleware, the handler up to
  the manager, and the bookkeeping after it.  The steps are taken from the functions of the
  other theories; \<open>handle_in_two_steps\<close> shows that they make up the handlers.
\<close>

section \<open>A request in steps\<close>

datatype pending = Arrived request | Record string ObjectKey | Forget string ObjectKey

definition refresh :: "'w Server \<Rightarrow> time \<Rightarrow> request \<Rightarrow> ClusterStore \<Rightarrow> ClusterStore" where
  "refresh sv now r s =
     (if getClusterName r = '''' then s
      else case New (getClusterName r) s of (p, s1) \<Rightarrow> SetExpireTime p (now + svExpire sv) s1)"

text \<open>The service an upload is for, when the handler gets as far as the manager.\<close>

definition uploaded :: "'w Server \<Rightarrow> request \<Rightarrow> GlobalService option" where
  "uploaded sv r =
     (case rqBody r of
        Inl _ \<Rightarrow> None
      | Inr b \<Rightarrow> (case unmarshalService (svJson sv) b of
            Inl _ \<Rightarrow> None
          | Inr gs \<Rightarrow> if upload_invalid gs then None else Some gs))"

definition deleted_key :: "(string \<times> string) list \<Rightarrow> ObjectKey" where
  "deleted_key params = ObjectKey (URLParam params ''namespaceDefault'') (URLParam params ''name'')"

text \<open>
  What a handler does to the world of the API, and what it has still to do to the store.  None of
  them reads the store before it writes to it.
\<close>

fun handle_world ::
  "'w Server \<Rightarrow> response + route \<times> (string \<times> string) list \<Rightarrow> request \<Rightarrow> 'w \<Rightarrow> response \<times> pending option \<times> 'w" where
  "handle_world sv (Inl answer) r w = (answer, None, w)"
| "handle_world sv (Inr (HeartbeatRoute, params)) r w = (fst (Heartbeat r (NewClusterStore, w)), None, w)"
| "handle_world sv (Inr (GetAllRoute, params)) r w =
     (case GetAllGlobalServices sv r (NewClusterStore, w) of (resp, _, w1) \<Rightarrow> (resp, None, w1))"
| "handle_world sv (Inr (UploadRoute, params)) r w =
     (case UploadGlobalService sv r (NewClusterStore, w) of
        (resp, _, w1) \<Rightarrow> (resp, map_option (\<lambda>gs. Record (getClusterName r) (upload_key gs)) (uploaded sv r), w1))"
| "handle_world sv (Inr (DeleteRoute, params)) r w =
     (case deleteEndpoints sv params r (NewClusterStore, w) of
        (resp, _, w1) \<Rightarrow>
          (resp, if rsStatus resp = StatusNoContent then Some (Forget (getClusterName r) (deleted_key params)) else None, w1))"

fun settle :: "pending \<Rightarrow> ClusterStore \<Rightarrow> ClusterStore" where
  "settle (Arrived r) s = s"
| "settle (Record c k) s = (case New c s of (p, s1) \<Rightarrow> AddServiceKey p k s1)"
| "settle (Forget c k) s = (case Get c s of None \<Rightarrow> s | Some p \<Rightarrow> RemoveServiceKey p k s)"

lemma uploaded_iff: "uploaded sv r = Some gs \<longleftrightarrow> uploads sv r gs"
  by (auto simp: uploaded_def uploads_def split: sum.split)

lemma handle_in_two_steps:
  "handle sv rt r (s, w) =
     (case handle_world sv rt r w of
        (resp, p, w1) \<Rightarrow> (resp, (case p of None \<Rightarrow> s | Some x \<Rightarrow> settle x s), w1))"
proof (cases "(sv, rt, r, w)" rule: handle_world.cases)
  case (3 sv params r w)
  then show ?thesis by (auto simp: GetAllGlobalServices_def split: prod.splits sum.splits)
next
  case (4 sv params r w)
  then show ?thesis
    by (auto simp: UploadGlobalService_def uploaded_def record_upload_def upload_key_def
        simp del: upload_key_keyFromObject split: prod.splits sum.splits option.splits)
next
  case (5 sv params r w)
  then show ?thesis
    by (auto simp: deleteEndpoints_def deleted_key_def Let_def response_text_def http_status
        split: prod.splits option.splits)
qed (auto simp: Heartbeat_def)

lemma ServeHTTP_in_steps:
  "ServeHTTP chi sv now r (s, w) =
     (case handle_world sv (chi routes (rqMethod r) (rqPath r)) r w of
        (resp, p, w1) \<Rightarrow>
          (resp, (case p of None \<Rightarrow> refresh sv now r s | Some x \<Rightarrow> settle x (refresh sv now r s)), w1))"
  by (auto simp: ServeHTTP_def updateClusterExpireTime_def refresh_def handle_in_two_steps Let_def
      split: prod.split option.split)

section \<open>The system\<close>

text \<open>Where the cleaner is: between sweeps, between clusters, in the keys of one, past the check.\<close>

datatype sweep =
    Idle
  | AtClusters "ptr list"
  | AtKeys ptr "ObjectKey list" "ptr list"
  | AtRevoke ptr ObjectKey "ObjectKey list" "ptr list"

record 'w system =
  sysStore :: ClusterStore
  sysWorld :: 'w
  sysClock :: time
  sysPending :: "pending list"
  sysKeys :: ObjectKeySet
  sysSweep :: sweep

text \<open>
  What the hub is made of, and two things it does not control: which requests may be handled while
  others are under way, and what others do to the world.
\<close>

record 'w hub_setup =
  hsChi :: chi
  hsServer :: "'w Server"
  hsKube :: "'w kube"
  hsRuntime :: go_runtime
  hsConfig :: "'w ExporterConfig"
  hsAllowed :: "pending list \<Rightarrow> request \<Rightarrow> bool"
  hsOutside :: "'w \<Rightarrow> 'w \<Rightarrow> bool"

inductive hub_step :: "'w hub_setup \<Rightarrow> 'w system \<Rightarrow> 'w system \<Rightarrow> bool" for S where
  pass: "sysClock st \<le> t \<Longrightarrow> hub_step S st (st\<lparr>sysClock := t\<rparr>)"
| outside: "hsOutside S (sysWorld st) w \<Longrightarrow> hub_step S st (st\<lparr>sysWorld := w\<rparr>)"
| arrive: "honest (hsServer S) r \<Longrightarrow>
    hub_step S st (st\<lparr>sysStore := refresh (hsServer S) (sysClock st) r (sysStore st),
      sysPending := Arrived r # sysPending st\<rparr>)"
| handle: "sysPending st = ps @ Arrived r # qs \<Longrightarrow> hsAllowed S (ps @ qs) r \<Longrightarrow>
    handle_world (hsServer S) (hsChi S routes (rqMethod r) (rqPath r)) r (sysWorld st) = (resp, p, w) \<Longrightarrow>
    hub_step S st (st\<lparr>sysWorld := w, sysPending := ps @ (case p of None \<Rightarrow> [] | Some x \<Rightarrow> [x]) @ qs\<rparr>)"
| settle: "sysPending st = ps @ x # qs \<Longrightarrow> \<forall>r. x \<noteq> Arrived r \<Longrightarrow>
    hub_step S st (st\<lparr>sysStore := settle x (sysStore st), sysPending := ps @ qs\<rparr>)"
| export: "Reconcile (hsRuntime S) (hsKube S) (hsConfig S) k (sysKeys st, sysWorld st) = (res, ks, w) \<Longrightarrow>
    hub_step S st (st\<lparr>sysKeys := ks, sysWorld := w\<rparr>)"
| lost: "lostServiceRevoker_Reconcile (hsKube S) (hsConfig S) k (sysWorld st) = (res', w) \<Longrightarrow>
    hub_step S st (st\<lparr>sysWorld := w\<rparr>)"
| sweep_start: "sysSweep st = Idle \<Longrightarrow>
    hub_step S st (st\<lparr>sysSweep := AtClusters (GetExpiredClusters cord (\<lambda>_. sysClock st) (sysStore st))\<rparr>)"
| sweep_end: "sysSweep st = AtClusters [] \<Longrightarrow> hub_step S st (st\<lparr>sysSweep := Idle\<rparr>)"
| sweep_cluster: "sysSweep st = AtClusters (q # rest) \<Longrightarrow>
    hub_step S st (st\<lparr>sysSweep := AtKeys q (GetAllServiceKeys ord (sysStore st) q) rest\<rparr>)"
| sweep_next: "sysSweep st = AtKeys q keys rest \<Longrightarrow> keys = [] \<or> \<not> IsExpired (sysClock st) (sysStore st) q \<Longrightarrow>
    hub_step S st (st\<lparr>sysSweep := AtClusters rest\<rparr>)"
| sweep_check: "sysSweep st = AtKeys q (k # keys) rest \<Longrightarrow> IsExpired (sysClock st) (sysStore st) q \<Longrightarrow>
    hub_step S st (st\<lparr>sysSweep := AtRevoke q k keys rest\<rparr>)"
| sweep_revoke: "sysSweep st = AtRevoke q k keys rest \<Longrightarrow>
    svRevoke (hsServer S) (Name (sysStore st) q) (okNamespace k) (okName k) (sysWorld st) = (res'', w) \<Longrightarrow>
    hub_step S st (st\<lparr>sysWorld := w, sysSweep := AtKeys q keys rest\<rparr>)"

section \<open>The invariant\<close>

text \<open>
  Between its two halves an upload has endpoints in the hub that are not recorded yet, and a
  deletion a record it is about to drop.
\<close>

definition known :: "ClusterStore \<Rightarrow> string \<Rightarrow> bool" where
  "known s c \<longleftrightarrow> (\<exists>ks t. registry s c = Some (ks, t) \<and> t \<noteq> 0)"

definition traced :: "'w system \<Rightarrow> string \<Rightarrow> ObjectKey \<Rightarrow> bool" where
  "traced st c k \<longleftrightarrow> Forget c k \<notin> set (sysPending st) \<and>
     (\<exists>ks t. registry (sysStore st) c = Some (ks, t) \<and> t \<noteq> 0 \<and>
        (k \<in> ks \<or> Record c k \<in> set (sysPending st)))"

definition system_inv ::
  "('w \<Rightarrow> ObjectKey \<Rightarrow> string \<Rightarrow> Endpoint list) \<Rightarrow> string \<Rightarrow> 'w hub_setup \<Rightarrow> 'w system \<Rightarrow> bool" where
  "system_inv view me S st \<longleftrightarrow>
     store_inv (sysStore st) \<and> 0 < sysClock st \<and>
     (\<forall>k c. view (sysWorld st) k c \<noteq> [] \<and> c \<noteq> me \<longrightarrow> traced st c k) \<and>
     (\<forall>r. Arrived r \<in> set (sysPending st) \<longrightarrow>
        honest (hsServer S) r \<and> known (sysStore st) (rqCluster r)) \<and>
     (\<forall>c k. Record c k \<in> set (sysPending st) \<longrightarrow> known (sysStore st) c)"

text \<open>
  What others may do to the world in between: anything, to GlobalServices too, but give a cluster other
  than \<open>me\<close> endpoints in a service in which it had none, for which only the hub keeps books.
\<close>

definition brings_nothing ::
  "('w \<Rightarrow> ObjectKey \<Rightarrow> string \<Rightarrow> Endpoint list) \<Rightarrow> string \<Rightarrow> 'w \<Rightarrow> 'w \<Rightarrow> bool" where
  "brings_nothing view me w w' \<longleftrightarrow> (\<forall>k c. c \<noteq> me \<longrightarrow> view w' k c \<noteq> [] \<longrightarrow> view w k c \<noteq> [])"

text \<open>
  The discipline under which it holds: no upload is handled while a deletion of the same service
  by the same cluster is between its two halves.
\<close>

definition serial :: "'w Server \<Rightarrow> pending list \<Rightarrow> request \<Rightarrow> bool" where
  "serial sv ps r \<longleftrightarrow>
     (case uploaded sv r of None \<Rightarrow> True | Some gs \<Rightarrow> Forget (rqCluster r) (upload_key gs) \<notin> set ps)"

lemma known_refresh:
  assumes "store_inv s" and "rqCluster r \<noteq> []" and "now + svExpire sv \<noteq> 0"
  shows "store_inv (refresh sv now r s)"
    and "registry (refresh sv now r s) = refreshed (rqCluster r) (now + svExpire sv) (registry s)"
proof -
  obtain p s1 where new: "New (rqCluster r) s = (p, s1)" by force
  show "store_inv (refresh sv now r s)"
    "registry (refresh sv now r s) = refreshed (rqCluster r) (now + svExpire sv) (registry s)"
    using store.refresh_entries [OF assms(1) new] assms(2) new
    by (simp_all add: refresh_def getClusterName_def refreshed_def)
qed

lemma settle_registry:
  assumes "store_inv s"
  shows "store_inv (settle x s)"
    and "registry (settle (Record c k) s) = (registry s)(c \<mapsto>
      (case registry s c of None \<Rightarrow> ({k}, 0) | Some (ks, t) \<Rightarrow> (insert k ks, t)))"
    and "registry (settle (Forget c k) s) = (registry s)(c := map_option (\<lambda>(ks, t). (ks - {k}, t)) (registry s c))"
proof -
  show rec: "registry (settle (Record c k) s) = (registry s)(c \<mapsto>
      (case registry s c of None \<Rightarrow> ({k}, 0) | Some (ks, t) \<Rightarrow> (insert k ks, t)))" for c k
    using store.record_entries(2) [OF assms, of c _ _ k] by (auto split: prod.split)
  show "registry (settle (Forget c k) s) = (registry s)(c := map_option (\<lambda>(ks, t). (ks - {k}, t)) (registry s c))"
    using deleteEndpoints_store(2) [OF assms, where c = c and k = k] by simp
  show "store_inv (settle x s)"
  proof (cases x)
    case (Record c k)
    then show ?thesis using store.record_entries(1) [OF assms, of c _ _ k] by (auto split: prod.split)
  next
    case (Forget c k)
    then show ?thesis using deleteEndpoints_store(1) [OF assms, where c = c and k = k] by simp
  qed (simp add: assms)
qed

text \<open>
  Steps that leave store and requests alone and bring no other cluster into a service in which it
  has no endpoints.
\<close>

lemma inv_shrink:
  assumes "system_inv view me S st" and "sysStore st' = sysStore st" and "sysPending st' = sysPending st"
    and "sysClock st \<le> sysClock st'"
    and "\<And>k c. c \<noteq> me \<Longrightarrow> view (sysWorld st') k c \<noteq> [] \<Longrightarrow> view (sysWorld st) k c \<noteq> []"
  shows "system_inv view me S st'"
proof -
  have "traced st' = traced st" by (simp add: traced_def fun_eq_iff assms(2,3))
  then show ?thesis
    using assms unfolding system_inv_def by (metis order_less_le_trans)
qed

lemma known_mono:
  assumes "registry s' c = Some (ks', t')" and "t' \<noteq> 0" shows "known s' c"
  using assms by (auto simp: known_def)

lemma inv_arrive:
  assumes inv: "system_inv view me S st" and honest: "honest (hsServer S) r" and d: "0 \<le> svExpire (hsServer S)"
  shows "system_inv view me S (st\<lparr>sysStore := refresh (hsServer S) (sysClock st) r (sysStore st),
    sysPending := Arrived r # sysPending st\<rparr>)" (is "system_inv view me S ?st'")
proof -
  have named: "rqCluster r \<noteq> []" using honest by (simp add: honest_def)
  have t: "sysClock st + svExpire (hsServer S) \<noteq> 0" using inv d by (simp add: system_inv_def)
  have s: "store_inv (sysStore st)" using inv by (simp add: system_inv_def)
  note fresh = known_refresh [OF s named t]
  let ?reg = "registry (sysStore ?st')"
  have reg: "?reg = refreshed (rqCluster r) (sysClock st + svExpire (hsServer S)) (registry (sysStore st))"
    using fresh(2) by simp
  have keep: "\<exists>t'. ?reg c = Some (ks, t') \<and> t' \<noteq> 0"
    if "registry (sysStore st) c = Some (ks, t)" "t \<noteq> 0" for c ks t
    using that t named unfolding reg refreshed_def by auto
  have known: "known (sysStore ?st') c" if "known (sysStore st) c" for c
    using that keep unfolding known_def by blast
  have self: "known (sysStore ?st') (rqCluster r)"
    unfolding known_def reg refreshed_def using t named by (auto split: option.split)
  have traced: "traced ?st' c k" if "traced st c k" for c k
    using that keep unfolding traced_def by fastforce
  show ?thesis
    unfolding system_inv_def
  proof (intro conjI allI impI)
    fix k c
    assume "view (sysWorld ?st') k c \<noteq> [] \<and> c \<noteq> me"
    then show "traced ?st' c k" using inv traced by (simp add: system_inv_def)
  qed (use inv fresh(1) honest known self in \<open>auto simp: system_inv_def\<close>)
qed

text \<open>The two halves of a handler.\<close>

context api_server_env begin

lemma handle_world_cases:
  assumes sv: "svMerge sv = merge" "svRevoke sv = revoke" "svClient sv = cli"
    and honest: "honest sv r" and run: "handle_world sv rt r w = (resp, p, w')"
  obtains (read) "p = None" and "\<And>k c. view w' k c = view w k c \<or> view w' k c = []"
  | (upload) gs where "uploaded sv r = Some gs" and "p = Some (Record (rqCluster r) (upload_key gs))"
      and "view w' = view w \<or>
        (\<exists>eps. view w' = set_view (upload_key gs) (rqCluster r) eps (view w))"
  | (delete) k where "p = Some (Forget (rqCluster r) k)" and "view w' = set_view k (rqCluster r) [] (view w)"
proof (cases "(sv, rt, r, w)" rule: handle_world.cases)
  case (1 sv0 answer r0 w0)
  then show thesis using read run by simp
next
  case (2 sv0 params r0 w0)
  then show thesis using read run by simp
next
  case (3 sv0 params r0 w0)
  obtain items w1 where list: "kListGS cli w = (items, w1)" by force
  then have "p = None" "w' = w1"
    using run sv 3 by (auto simp: GetAllGlobalServices_def split: sum.splits prod.splits)
  then show thesis using read list_view [OF list] by simp
next
  case (4 sv0 params r0 w0)
  show thesis
  proof (cases "uploaded sv r")
    case None
    then have "p = None" "w' = w"
      using run 4 by (auto simp: UploadGlobalService_def uploaded_def split: sum.splits if_splits prod.splits)
    then show thesis using read by simp
  next
    case (Some gs)
    obtain e w1 where merged: "merge gs w = (e, w1)" by force
    have own: "own_endpoints gs" "omClusterName (gsMeta gs) = rqCluster r"
      using Some honest by (auto simp: honest_def uploaded_iff)
    have "p = Some (Record (rqCluster r) (upload_key gs))" "w' = w1"
      using run 4 Some merged sv
      by (auto simp: UploadGlobalService_def uploaded_def getClusterName_def
          split: sum.splits if_splits prod.splits option.splits)
    then show thesis using upload [OF Some] merge_atomic [OF merged own(1)] own(2) by auto
  qed
next
  case (5 sv0 params r0 w0)
  obtain e w1 where call: "revoke (rqCluster r) (okNamespace (deleted_key params)) (okName (deleted_key params)) w = (e, w1)"
    by force
  show thesis
  proof (cases e)
    case None
    then have "p = Some (Forget (rqCluster r) (deleted_key params))" "w' = w1"
      using run 5 call sv by (auto simp: deleteEndpoints_def getClusterName_def deleted_key_def Let_def response_text_def)
    then show thesis using delete revoke_ok [OF call [unfolded None]] by simp
  next
    case (Some e')
    then have "p = None" "w' = w1"
      using run 5 call sv by (auto simp: deleteEndpoints_def getClusterName_def deleted_key_def Let_def
          response_text_def http_status)
    then show thesis using read revoke_atomic [OF call] by (auto simp: set_view_apply)
  qed
qed

lemma inv_handle:
  assumes inv: "system_inv view me S st"
    and sv: "svMerge (hsServer S) = merge" "svRevoke (hsServer S) = revoke" "svClient (hsServer S) = cli"
    and P: "sysPending st = ps @ Arrived r # qs" and serial: "serial (hsServer S) (ps @ qs) r"
    and run: "handle_world (hsServer S) rt r (sysWorld st) = (resp, p, w)"
  shows "system_inv view me S
    (st\<lparr>sysWorld := w, sysPending := ps @ (case p of None \<Rightarrow> [] | Some x \<Rightarrow> [x]) @ qs\<rparr>)" (is "system_inv view me S ?st'")
proof -
  have honest: "honest (hsServer S) r" and known: "known (sysStore st) (rqCluster r)"
    using inv P by (auto simp: system_inv_def)
  have new: "set (sysPending ?st') = set ps \<union> set qs \<union> set_option p" by (auto split: option.split)
  have rest: "store_inv (sysStore ?st')" "0 < sysClock ?st'"
    "\<forall>r. Arrived r \<in> set ps \<union> set qs \<longrightarrow> honest (hsServer S) r \<and> known (sysStore ?st') (rqCluster r)"
    "\<forall>c k. Record c k \<in> set ps \<union> set qs \<longrightarrow> known (sysStore ?st') c"
    using inv P by (auto simp: system_inv_def)
  have kept: "traced ?st' c k"
    if "view (sysWorld st) k c \<noteq> []" "c \<noteq> me" "Forget c k \<notin> set_option p" for c k
  proof -
    have "traced st c k" using inv that by (simp add: system_inv_def)
    then show ?thesis using that(3) P unfolding traced_def new by auto
  qed
  show ?thesis
    using sv honest run
  proof (cases rule: handle_world_cases)
    case read
    then show ?thesis using kept rest unfolding system_inv_def new by (auto split: option.splits) metis
  next
    case (upload gs)
    have "Forget (rqCluster r) (upload_key gs) \<notin> set ps \<union> set qs" using serial upload(1) by (simp add: serial_def)
    then have "traced ?st' (rqCluster r) (upload_key gs)"
      using known upload(2) unfolding traced_def new known_def by auto
    moreover have "view w k c = view (sysWorld st) k c" if "(c, k) \<noteq> (rqCluster r, upload_key gs)" for c k
      using upload(3) that by (auto simp: set_view_apply)
    ultimately have "traced ?st' c k" if "view w k c \<noteq> []" "c \<noteq> me" for c k
      using that kept [of k c] upload(2) by (cases "(c, k) = (rqCluster r, upload_key gs)") auto
    then show ?thesis using rest known upload(2) unfolding system_inv_def new by auto
  next
    case (delete k0)
    then have "traced ?st' c k" if "view w k c \<noteq> []" "c \<noteq> me" for c k
      using that kept [of k c] by (auto simp: set_view_apply split: if_splits)
    then show ?thesis using rest delete(1) unfolding system_inv_def new by auto
  qed
qed

end

lemma inv_settle:
  assumes inv: "system_inv view me S st" and P: "sysPending st = ps @ x # qs" and x: "\<forall>r. x \<noteq> Arrived r"
  shows "system_inv view me S (st\<lparr>sysStore := settle x (sysStore st), sysPending := ps @ qs\<rparr>)"
    (is "system_inv view me S ?st'")
proof -
  have s: "store_inv (sysStore st)" and pos: "0 < sysClock st"
    and endpoints: "\<And>k c. view (sysWorld st) k c \<noteq> [] \<Longrightarrow> c \<noteq> me \<Longrightarrow> traced st c k"
    and arrived: "\<And>r. Arrived r \<in> set (sysPending st) \<Longrightarrow>
      honest (hsServer S) r \<and> known (sysStore st) (rqCluster r)"
    and recording: "\<And>c k. Record c k \<in> set (sysPending st) \<Longrightarrow> known (sysStore st) c"
    using inv by (auto simp: system_inv_def)
  note reg = settle_registry [OF s]
  have known: "known (settle x (sysStore st)) c" if "known (sysStore st) c" for c
    using that by (cases x) (auto simp: known_def reg simp del: settle.simps(2,3) split: option.split)
  have traced: "traced ?st' c k" if old: "traced st c k" for c k
  proof -
    obtain ks t where here: "registry (sysStore st) c = Some (ks, t)" "t \<noteq> 0"
      and in_ks: "k \<in> ks \<or> Record c k \<in> set (sysPending st)" using old by (auto simp: traced_def)
    have free: "Forget c k \<notin> set (sysPending st)" using old by (simp add: traced_def)
    show ?thesis
    proof (cases x)
      case (Record c0 k0)
      then show ?thesis using here in_ks free P
        by (auto simp: traced_def reg simp del: settle.simps(2,3))
    next
      case (Forget c0 k0)
      then have "c = c0 \<Longrightarrow> k \<noteq> k0" using free P by auto
      then show ?thesis using here in_ks free P Forget
        by (auto simp: traced_def reg simp del: settle.simps(2,3))
    qed (use x in simp)
  qed
  have "known (settle x (sysStore st)) c" if "Record c k \<in> set ps \<union> set qs" for c k
    using recording [of c k] known that P by auto
  moreover have "honest (hsServer S) r \<and> known (settle x (sysStore st)) (rqCluster r)"
    if "Arrived r \<in> set ps \<union> set qs" for r
    using arrived [of r] known that P by auto
  ultimately show ?thesis
    unfolding system_inv_def using reg(1) pos endpoints traced by auto
qed

section \<open>All steps\<close>

definition server_setup ::
  "'w kube \<Rightarrow> bool \<Rightarrow> time \<Rightarrow> json \<Rightarrow> chi \<Rightarrow> go_runtime \<Rightarrow> string \<Rightarrow> string \<Rightarrow> string
     \<Rightarrow> (pending list \<Rightarrow> request \<Rightarrow> bool) \<Rightarrow> ('w \<Rightarrow> 'w \<Rightarrow> bool) \<Rightarrow> 'w hub_setup" where
  "server_setup K a d js chi rt me z reg allowed out =
     \<lparr>hsChi = chi, hsServer = hub_server K a d js, hsKube = K, hsRuntime = rt,
      hsConfig = server_config K a me z reg, hsAllowed = allowed, hsOutside = out\<rparr>"

lemma server_setup_fields [simp]:
  "hsChi (server_setup K a d js chi rt me z reg al out) = chi"
  "hsServer (server_setup K a d js chi rt me z reg al out) = hub_server K a d js"
  "hsKube (server_setup K a d js chi rt me z reg al out) = K"
  "hsRuntime (server_setup K a d js chi rt me z reg al out) = rt"
  "hsConfig (server_setup K a d js chi rt me z reg al out) = server_config K a me z reg"
  "hsAllowed (server_setup K a d js chi rt me z reg al out) = al"
  "hsOutside (server_setup K a d js chi rt me z reg al out) = out"
  by (simp_all add: server_setup_def)

context kube_api begin

lemma lost_service_shrinks:
  assumes "lostServiceRevoker_Reconcile K (server_config K a me z reg) k w = (r, w')"
  shows "cluster_view objs w' = cluster_view objs w \<or>
    cluster_view objs w' = set_view k me [] (cluster_view objs w)"
proof -
  obtain res w1 where get: "kGetGS K k w = (res, w1)" by force
  obtain rs w2 where svc: "kGetService K k w1 = (rs, w2)" by force
  show ?thesis
  proof (cases "\<exists>gs. res = Inr gs \<and> (case rs of Inl e \<Rightarrow> IsNotFound e | Inr svc \<Rightarrow> \<not> isGlobalService (omLabels (svcMeta svc)))")
    case True
    then obtain gs where gs: "res = Inr gs"
      and lost: "case rs of Inl e \<Rightarrow> IsNotFound e | Inr svc \<Rightarrow> \<not> isGlobalService (omLabels (svcMeta svc))"
      by (elim exE conjE)
    show ?thesis by (rule lost_service_loop [OF get [unfolded gs] svc lost assms])
  next
    case False
    then have "w' = w1 \<or> w' = w2"
      using assms get svc
      by (cases res; cases rs) (auto simp: lostServiceRevoker_Reconcile_def split: if_splits)
    moreover have "objs w1 = objs w" "objs w2 = objs w"
      using get_frame [OF get] get_service_frame [OF svc] by simp_all
    ultimately have "objs w' = objs w" by metis
    then show ?thesis by (intro disjI1 cluster_view_objs)
  qed
qed

lemma step_inv:
  assumes step: "hub_step S st st'" and S: "S = server_setup K a d js chi rt me z reg allowed out"
    and d: "0 \<le> d" and rt: "go_runtime_ok rt"
    and allowed: "\<And>ps r. allowed ps r \<Longrightarrow> serial (hub_server K a d js) ps r"
    and out: "\<And>w w'. out w w' \<Longrightarrow> brings_nothing (cluster_view objs) me w w'"
    and inv: "system_inv (cluster_view objs) me S st"
  shows "system_inv (cluster_view objs) me S st'"
  using step
proof cases
  case (outside w)
  have "brings_nothing (cluster_view objs) me (sysWorld st) w" using outside out S by simp
  then show ?thesis unfolding outside(1) by (intro inv_shrink [OF inv]) (simp_all add: brings_nothing_def)
next
  case (arrive r)
  show ?thesis unfolding arrive(1) by (rule inv_arrive [OF inv]) (use arrive d S in simp_all)
next
  case (handle ps r qs resp p w)
  show ?thesis unfolding handle(1)
    by (rule api.inv_handle [OF inv, where a = a]) (use handle allowed S in simp_all)
next
  case (settle ps x qs)
  then show ?thesis using inv_settle [OF inv] by simp
next
  case (export k res ks w)
  then have run: "Reconcile rt K (server_config K a me z reg) k (sysKeys st, sysWorld st) = (res, ks, w)"
    using S by simp
  have "cluster_view objs w = cluster_view objs (sysWorld st) \<or>
      (\<exists>eps. cluster_view objs w = set_view k me eps (cluster_view objs (sysWorld st)))"
    using server_atomic [OF rt _ _ _ _ run] by auto
  then show ?thesis unfolding export(1) by (intro inv_shrink [OF inv]) (auto simp: set_view_apply)
next
  case (lost k res w)
  then have "cluster_view objs w = cluster_view objs (sysWorld st) \<or>
      cluster_view objs w = set_view k me [] (cluster_view objs (sysWorld st))"
    using lost_service_shrinks S by simp
  then show ?thesis unfolding lost(1) by (intro inv_shrink [OF inv]) (auto simp: set_view_apply)
next
  case (sweep_revoke q k keys rest res w)
  then have "RevokeGlobalService (NewGlobalServiceManager K a) (Name (sysStore st) q) (okNamespace k) (okName k)
      (sysWorld st) = (res, w)" using S by simp
  from gsm.revoke_atomic [OF this] show ?thesis
    unfolding sweep_revoke(1) by (intro inv_shrink [OF inv]) (auto simp: set_view_apply split: if_splits)
qed (auto intro!: inv_shrink [OF inv])

lemma merged_view:
  assumes "CreateOrMergeGlobalService (NewGlobalServiceManager K a) g w = (None, w')" and "own_endpoints g"
  shows "cluster_view objs w' (keyFromObject g) (omClusterName (gsMeta g)) = endpoints_of g"
  using gsm.merge_ok [OF assms] by (simp add: set_view_apply)

lemma reachable_inv:
  assumes "(hub_step S)\<^sup>*\<^sup>* st st'" and "S = server_setup K a d js chi rt me z reg allowed out"
    and "0 \<le> d" and "go_runtime_ok rt"
    and "\<And>ps r. allowed ps r \<Longrightarrow> serial (hub_server K a d js) ps r"
    and "\<And>w w'. out w w' \<Longrightarrow> brings_nothing (cluster_view objs) me w w'"
    and "system_inv (cluster_view objs) me S st"
  shows "system_inv (cluster_view objs) me S st'"
  using assms(1,7) by induction (auto intro: step_inv [OF _ assms(2-6)])

end

lemma inv_recorded:
  "store_inv (sysStore st) \<Longrightarrow> 0 < sysClock st \<Longrightarrow> sysPending st = [] \<Longrightarrow>
     recorded view me (sysStore st) (sysWorld st) \<Longrightarrow> system_inv view me S st"
  by (fastforce simp: system_inv_def recorded_def traced_def)

lemma recorded_inv:
  "system_inv view me S st \<Longrightarrow> sysPending st = [] \<Longrightarrow> recorded view me (sysStore st) (sysWorld st)"
  by (fastforce simp: system_inv_def recorded_def traced_def)

section \<open>Runs for the witnesses\<close>

text \<open>The steps of requests as a function, and a list of them.\<close>

datatype action = DoArrive request | DoHandle nat | DoSettle nat

fun exec :: "'w hub_setup \<Rightarrow> action \<Rightarrow> 'w system \<Rightarrow> 'w system option" where
  "exec S (DoArrive r) st = Some (st\<lparr>sysStore := refresh (hsServer S) (sysClock st) r (sysStore st),
     sysPending := Arrived r # sysPending st\<rparr>)"
| "exec S (DoHandle i) st =
     (let P = sysPending st; rest = take i P @ drop (Suc i) P
      in if i < length P then
           (case P ! i of
              Arrived r \<Rightarrow>
                if hsAllowed S rest r then
                  (case handle_world (hsServer S) (hsChi S routes (rqMethod r) (rqPath r)) r (sysWorld st) of
                     (resp, p, w) \<Rightarrow> Some (st\<lparr>sysWorld := w,
                       sysPending := take i P @ (case p of None \<Rightarrow> [] | Some x \<Rightarrow> [x]) @ drop (Suc i) P\<rparr>))
                else None
            | _ \<Rightarrow> None)
         else None)"
| "exec S (DoSettle i) st =
     (let P = sysPending st
      in if i < length P then
           (case P ! i of
              Arrived r \<Rightarrow> None
            | x \<Rightarrow> Some (st\<lparr>sysStore := settle x (sysStore st), sysPending := take i P @ drop (Suc i) P\<rparr>))
         else None)"

fun exec_all :: "'w hub_setup \<Rightarrow> action list \<Rightarrow> 'w system \<Rightarrow> 'w system option" where
  "exec_all S [] st = Some st"
| "exec_all S (act # acts) st = (case exec S act st of None \<Rightarrow> None | Some st1 \<Rightarrow> exec_all S acts st1)"

lemma exec_sound:
  assumes "exec S act st = Some st'" and "\<And>r. act = DoArrive r \<Longrightarrow> honest (hsServer S) r"
  shows "hub_step S st st'"
proof (cases act)
  case (DoArrive r)
  then show ?thesis using assms hub_step.arrive by auto
next
  case (DoHandle i)
  let ?P = "sysPending st"
  from assms(1) DoHandle obtain r where i: "i < length ?P" and r: "?P ! i = Arrived r"
    and al: "hsAllowed S (take i ?P @ drop (Suc i) ?P) r"
    by (auto simp: Let_def split: if_splits pending.splits)
  obtain resp p w where run: "handle_world (hsServer S) (hsChi S routes (rqMethod r) (rqPath r)) r (sysWorld st)
      = (resp, p, w)" by (metis prod_cases3)
  have "?P = take i ?P @ Arrived r # drop (Suc i) ?P" using id_take_nth_drop [OF i] r by simp
  from hub_step.handle [OF this al run] show ?thesis using assms(1) DoHandle i r al run by (simp add: Let_def)
next
  case (DoSettle i)
  let ?P = "sysPending st"
  from assms(1) DoSettle have i: "i < length ?P" and x: "\<forall>r. ?P ! i \<noteq> Arrived r"
    by (auto simp: Let_def split: if_splits pending.splits)
  have "?P = take i ?P @ ?P ! i # drop (Suc i) ?P" using id_take_nth_drop [OF i] by simp
  from hub_step.settle [OF this x] show ?thesis
    using assms(1) DoSettle i x by (cases "?P ! i") (simp_all add: Let_def)
qed

lemma exec_all_sound:
  "exec_all S acts st = Some st' \<Longrightarrow> list_all (\<lambda>act. \<forall>r. act = DoArrive r \<longrightarrow> honest (hsServer S) r) acts \<Longrightarrow>
     (hub_step S)\<^sup>*\<^sup>* st st'"
proof (induction acts arbitrary: st)
  case (Cons act acts)
  then obtain st1 where "exec S act st = Some st1" "exec_all S acts st1 = Some st'"
    by (auto split: option.splits)
  moreover have "hub_step S st st1" using exec_sound calculation(1) Cons.prems(2) by auto
  ultimately show ?case
    using Cons.IH Cons.prems(2) by (intro converse_rtranclp_into_rtranclp [of "hub_step S" st st1]) simp_all
qed simp

section \<open>Properties\<close>

definition started :: "time \<Rightarrow> ClusterStore \<Rightarrow> 'w \<Rightarrow> ObjectKeySet \<Rightarrow> 'w system" where
  "started t s w ks = \<lparr>sysStore = s, sysWorld = w, sysClock = t, sysPending = [], sysKeys = ks, sysSweep = Idle\<rparr>"

text \<open>
  C4 (hub_traces_endpoints): the hub in server mode, with these premises on what is around it.  It
  starts with a store in which every service of every other cluster is recorded (so with a new hub,
  or after a start in which \<open>recordGlobalServicesByCluster\<close> found at most one service of each other
  cluster, theory \<open>HubStartup\<close>).  Every request names its cluster in the header and an upload carries
  the endpoints of that cluster only (\<open>honest\<close>).  No upload is handled while a deletion of the same
  service by the same cluster is between its two halves (\<open>serial\<close>).  Nobody but the hub gives
  another cluster endpoints in a service in which it has none (\<open>brings_nothing\<close>; other changes of
  GlobalServices are allowed).  Then, whatever order requests, sweeps, the hub's own two controllers
  and changes by others come in, and whichever calls fail, every service in which another cluster
  has endpoints is recorded for that cluster with a time of expiry, or is about to be by the request
  that brought them.  The theorems \<open>delete_upload_race\<close> and \<open>startup_records_first_service\<close> show what
  happens without the premises on deletions and on the start.
\<close>

theorem hub_traces_endpoints:
  assumes "kube_api K objs nss" and "go_runtime_ok rt" and "0 \<le> d"
    and "\<forall>w w'. out w w' \<longrightarrow> brings_nothing (cluster_view objs) me w w'"
    and "S = server_setup K a d js chi rt me z reg (serial (hub_server K a d js)) out"
    and "store_inv s0" and "recorded (cluster_view objs) me s0 w0" and "0 < t0"
    and "(hub_step S)\<^sup>*\<^sup>* (started t0 s0 w0 ks) st"
    and "cluster_view objs (sysWorld st) k c \<noteq> []" and "c \<noteq> me"
  shows "\<exists>keys t. registry (sysStore st) c = Some (keys, t) \<and> t \<noteq> 0 \<and>
    (k \<in> keys \<or> Record c k \<in> set (sysPending st))"
proof -
  have "system_inv (cluster_view objs) me S (started t0 s0 w0 ks)"
    by (rule inv_recorded) (use assms(6-8) in \<open>simp_all add: started_def\<close>)
  then have "system_inv (cluster_view objs) me S st"
    using kube_api.reachable_inv [OF assms(1,9,5,3,2)] assms(4) by blast
  then show ?thesis using assms(10,11) by (auto simp: system_inv_def traced_def)
qed

text \<open>In the demonstration others change the rest of the API and delete GlobalServices.\<close>

definition demo_outside :: "memory \<Rightarrow> memory \<Rightarrow> bool" where
  "demo_outside m m' \<longleftrightarrow> memGS m' = memGS m \<or>
     (\<exists>g \<in> set (memGS m). memGS m' = memGS (mem_delete (keyFromObject g) m))"

lemma demo_outside_ok: "\<forall>w w'. demo_outside w w' \<longrightarrow> brings_nothing (cluster_view mem_objs) me w w'"
proof -
  have "mem_objs m' k = mem_objs m k \<or> mem_objs m' k = None" if "demo_outside m m'" for m m' k
    using that by (auto simp: demo_outside_def mem_objs_def mem_delete_def mem_lookup_filter split: if_splits)
  then show ?thesis
    unfolding brings_nothing_def cluster_view_def by (metis option.simps(4))
qed

definition demo_system :: "(pending list \<Rightarrow> request \<Rightarrow> bool) \<Rightarrow> memory hub_setup" where
  "demo_system al = server_setup mem_kube True 300 demo_json std_chi demo_runtime ''cloud'' ''bj'' ''north'' al demo_outside"

definition demo_begin :: "memory system" where
  "demo_begin = started 10 NewClusterStore empty_memory NewObjectKeySet"

definition beijing_upload :: request where "beijing_upload = upload_request ''beijing'' ''B''"
definition beijing_delete :: request where "beijing_delete = delete_request ''beijing'' ''default'' ''nginx''"

lemma beijing_honest: "honest demo_server beijing_upload" "honest demo_server beijing_delete"
  using demo_requests_honest by (auto simp: demo_requests_def beijing_upload_def beijing_delete_def)

definition race :: "action list" where
  "race = [DoArrive beijing_upload, DoHandle 0, DoSettle 0, DoArrive beijing_delete, DoHandle 0,
     DoArrive beijing_upload, DoHandle 0, DoSettle 0, DoSettle 0]"

lemma beijing_actions:
  "list_all (\<lambda>act. \<forall>r. act = DoArrive r \<longrightarrow> honest (hsServer (demo_system al)) r) [DoArrive beijing_upload, DoHandle 0]"
  "list_all (\<lambda>act. \<forall>r. act = DoArrive r \<longrightarrow> honest (hsServer (demo_system al)) r) race"
  using beijing_honest by (simp_all add: race_def demo_system_def demo_server_def)

definition between_halves :: "memory system" where
  "between_halves = the (exec_all (demo_system (serial demo_server)) [DoArrive beijing_upload, DoHandle 0] demo_begin)"

theorem hub_traces_endpoints_witness:
  "\<exists>keys t. registry (sysStore between_halves) ''beijing'' = Some (keys, t) \<and> t \<noteq> 0 \<and>
     (nginx_key \<in> keys \<or> Record ''beijing'' nginx_key \<in> set (sysPending between_halves))"
proof -
  let ?S = "demo_system (serial demo_server)"
  have "exec_all ?S [DoArrive beijing_upload, DoHandle 0] demo_begin \<noteq> None" by code_simp
  then have "exec_all ?S [DoArrive beijing_upload, DoHandle 0] demo_begin = Some between_halves"
    by (auto simp: between_halves_def)
  from exec_all_sound [OF this beijing_actions(1)]
  have run: "(hub_step ?S)\<^sup>*\<^sup>* (started 10 NewClusterStore empty_memory NewObjectKeySet) between_halves"
    by (simp add: demo_begin_def)
  have view: "cluster_view mem_objs (sysWorld between_halves) nginx_key ''beijing'' \<noteq> []" by code_simp
  have empty: "recorded (cluster_view mem_objs) ''cloud'' NewClusterStore empty_memory"
    by (simp add: recorded_def cluster_view_def mem_objs_def mem_lookup_def empty_memory_def)
  have S: "?S = server_setup mem_kube True 300 demo_json std_chi demo_runtime ''cloud'' ''bj'' ''north''
      (serial (hub_server mem_kube True 300 demo_json)) demo_outside"
    by (simp add: demo_system_def demo_server_def)
  note out = demo_outside_ok
  show ?thesis
    by (rule hub_traces_endpoints [OF mem.kube_api_axioms demo_runtimes_ok(1) _ out S store_inv_New_empty empty _ run view])
      simp_all
qed

text \<open>
  C15 (lost_cluster_cleared): what becomes of a cluster that stays away.  After a run as in
  \<open>hub_traces_endpoints\<close> - from a store in which every service of every other cluster is recorded,
  with honest requests, no upload handled between the two halves of the deletion of the same service
  by the same cluster, and nobody else bringing another cluster into a service - once no request
  is under way, the next sweep that nobody disturbs and in which no call fails leaves the cluster without
  an endpoint anywhere, and takes nothing from a cluster that is not due by then.
\<close>

theorem lost_cluster_cleared:
  assumes "kube_api K objs nss" and "go_runtime_ok rt" and "0 \<le> d"
    and "\<forall>w w'. out w w' \<longrightarrow> brings_nothing (cluster_view objs) me w w'"
    and "S = server_setup K a d js chi rt me z reg (serial (hub_server K a d js)) out"
    and "store_inv s0" and "recorded (cluster_view objs) me s0 w0" and "0 < t0"
    and "(hub_step S)\<^sup>*\<^sup>* (started t0 s0 w0 ks0) st" and "sysPending st = []"
    and "range_order cord" and "range_order ord"
    and "\<forall>p. sysClock st \<le> now p \<and> now p \<le> T1" and "\<forall>i. sysClock st \<le> clock i"
    and "cleanExpiredClusterEndpoints cord now ord (quiet clock) (svRevoke (hsServer S)) (sysStore st, sysWorld st)
      = (log, j, s', w')"
    and "\<forall>(c, k, r) \<in> set log. r = None" and "registry (sysStore st) c = Some (ks, t)"
  shows "(c \<noteq> me \<and> t \<noteq> 0 \<and> t < sysClock st \<longrightarrow> (\<forall>k. cluster_view objs w' k c = [])) \<and>
    (T1 \<le> t \<longrightarrow> (\<forall>k. cluster_view objs w' k c = cluster_view objs (sysWorld st) k c))"
proof -
  have "system_inv (cluster_view objs) me S (started t0 s0 w0 ks0)"
    by (rule inv_recorded) (use assms(6-8) in \<open>simp_all add: started_def\<close>)
  then have inv: "system_inv (cluster_view objs) me S st"
    using kube_api.reachable_inv [OF assms(1,9,5,3,2)] assms(4) by blast
  have store: "store_inv (sysStore st)" using inv by (simp add: system_inv_def)
  have run: "cleanExpiredClusterEndpoints cord now ord (quiet clock) (RevokeGlobalService (NewGlobalServiceManager K a))
      (sysStore st, sysWorld st) = (log, j, s', w')" using assms(15) by (simp add: assms(5))
  show ?thesis
    by (rule kube_api.sweep_clears [OF assms(1) store assms(11-14) run recorded_inv [OF inv assms(10)] assms(16,17)])
qed

definition uploaded_system :: "memory system" where
  "uploaded_system = (the (exec_all (demo_system (serial demo_server)) (take 3 race) demo_begin))"

text \<open>Beijing has uploaded at time 10 and has not been heard of since.\<close>

definition abandoned :: "memory system" where
  "abandoned = uploaded_system\<lparr>sysClock := 400\<rparr>"

definition abandoned_sweep :: "call_log \<times> nat \<times> memory hub" where
  "abandoned_sweep = cleanExpiredClusterEndpoints rev (\<lambda>_. 400) rev (quiet (\<lambda>_. 400)) (svRevoke demo_server)
     (sysStore abandoned, sysWorld abandoned)"

theorem lost_cluster_cleared_witness:
  "\<forall>k. cluster_view mem_objs (snd (snd (snd abandoned_sweep))) k ''beijing'' = []"
proof -
  let ?S = "demo_system (serial demo_server)"
  have S: "?S = server_setup mem_kube True 300 demo_json std_chi demo_runtime ''cloud'' ''bj'' ''north''
      (serial (hub_server mem_kube True 300 demo_json)) demo_outside"
    by (simp add: demo_system_def demo_server_def)
  have "exec_all ?S (take 3 race) demo_begin \<noteq> None" by code_simp
  then have "exec_all ?S (take 3 race) demo_begin = Some uploaded_system" by (auto simp: uploaded_system_def)
  moreover have "list_all (\<lambda>act. \<forall>r. act = DoArrive r \<longrightarrow> honest (hsServer ?S) r) (take 3 race)"
    using beijing_actions(2) by (simp add: race_def)
  ultimately have "(hub_step ?S)\<^sup>*\<^sup>* demo_begin uploaded_system" by (rule exec_all_sound)
  moreover have "sysClock uploaded_system \<le> 400" by code_simp
  then have "hub_step ?S uploaded_system abandoned" unfolding abandoned_def by (rule hub_step.pass)
  ultimately have run: "(hub_step ?S)\<^sup>*\<^sup>* (started 10 NewClusterStore empty_memory NewObjectKeySet) abandoned"
    unfolding demo_begin_def by (rule rtranclp.rtrancl_into_rtrancl)
  have empty: "recorded (cluster_view mem_objs) ''cloud'' NewClusterStore empty_memory"
    by (simp add: recorded_def cluster_view_def mem_objs_def mem_lookup_def empty_memory_def)
  note out = demo_outside_ok
  have idle: "sysPending abandoned = []" and clock: "sysClock abandoned = 400" by code_simp+
  have sweep: "cleanExpiredClusterEndpoints rev (\<lambda>_. 400) rev (quiet (\<lambda>_. 400)) (svRevoke (hsServer ?S))
      (sysStore abandoned, sysWorld abandoned) = (fst abandoned_sweep, fst (snd abandoned_sweep),
        fst (snd (snd abandoned_sweep)), snd (snd (snd abandoned_sweep)))"
    by (simp add: abandoned_sweep_def demo_system_def demo_server_def)
  have log: "\<forall>(c, k, r) \<in> set (fst abandoned_sweep). r = None" by code_simp
  have "system_inv (cluster_view mem_objs) ''cloud'' ?S (started 10 NewClusterStore empty_memory NewObjectKeySet)"
    by (rule inv_recorded) (use empty in \<open>simp_all add: started_def\<close>)
  then have "system_inv (cluster_view mem_objs) ''cloud'' ?S abandoned"
    by (intro mem.reachable_inv [OF run S]) (simp_all add: demo_runtimes_ok demo_outside_ok)
  then have inv: "store_inv (sysStore abandoned)" by (simp add: system_inv_def)
  have "map_of (csClusters (sysStore abandoned)) ''beijing'' = Some 0" by code_simp
  then have "points_to (sysStore abandoned) 0 ''beijing''" by (simp add: points_to_def)
  from GetAllServiceKeys_registry [OF inv this range_order_rev]
  obtain keys where "registry (sysStore abandoned) ''beijing'' = Some (keys, ExpireTime (sysStore abandoned) 0)" by blast
  moreover have "ExpireTime (sysStore abandoned) 0 = 310" by code_simp
  ultimately have reg: "registry (sysStore abandoned) ''beijing'' = Some (keys, 310)" by simp
  show ?thesis
    using lost_cluster_cleared [OF mem.kube_api_axioms demo_runtimes_ok(1) _ out S store_inv_New_empty empty _ run idle
        range_order_rev range_order_rev _ _ sweep log reg, of 400] clock by simp
qed

text \<open>An upload whose merge succeeds, handled while a deletion of its service is between its halves.\<close>

lemma store_inv_refresh: "store_inv s \<Longrightarrow> store_inv (refresh sv now r s)"
  by (auto simp: refresh_def store.refresh_entries split: prod.split)

lemma reachable_store_inv: "(hub_step S)\<^sup>*\<^sup>* st st' \<Longrightarrow> store_inv (sysStore st) \<Longrightarrow> store_inv (sysStore st')"
proof (induction rule: rtranclp_induct)
  case (step st1 st2)
  from step(2) show ?case
    by cases (use step(3,4) in \<open>simp_all add: store_inv_refresh settle_registry(1)\<close>)
qed

lemma settle_forgets:
  assumes "store_inv s"
  shows "\<exists>ks t. registry (settle (Forget c k) (settle (Record c k) s)) c = Some (ks, t) \<and> k \<notin> ks"
  using settle_registry(2,3) [OF assms] settle_registry(3) [OF settle_registry(1) [OF assms]]
  by (auto simp del: settle.simps(2,3) split: option.split)

lemma race_steps:
  assumes sv: "hsServer S = hub_server K a d js" and st: "sysPending st = ps @ Arrived r # qs"
    and mid: "Forget (rqCluster r) (keyFromObject gs) \<in> set (ps @ qs)" and al: "hsAllowed S (ps @ qs) r"
    and route: "hsChi S routes (rqMethod r) (rqPath r) = Inr (UploadRoute, params)"
    and up: "uploaded (hub_server K a d js) r = Some gs"
    and merged: "CreateOrMergeGlobalService (NewGlobalServiceManager K a) gs (sysWorld st) = (None, w)"
  shows "(hub_step S)\<^sup>*\<^sup>* st (st\<lparr>sysWorld := w,
    sysStore := settle (Forget (rqCluster r) (keyFromObject gs)) (settle (Record (rqCluster r) (keyFromObject gs)) (sysStore st)),
    sysPending := remove1 (Forget (rqCluster r) (keyFromObject gs)) (ps @ qs)\<rparr>)"
proof -
  let ?R = "Record (rqCluster r) (keyFromObject gs)" and ?F = "Forget (rqCluster r) (keyFromObject gs)"
  let ?st1 = "st\<lparr>sysWorld := w, sysPending := ps @ [?R] @ qs\<rparr>"
  let ?st2 = "?st1\<lparr>sysStore := settle ?R (sysStore st), sysPending := ps @ qs\<rparr>"
  obtain resp where run: "handle_world (hub_server K a d js) (Inr (UploadRoute, params)) r (sysWorld st) = (resp, Some ?R, w)"
    using up merged by (auto simp: UploadGlobalService_def uploaded_def getClusterName_def
        split: sum.splits if_splits prod.splits)
  let ?st3 = "st\<lparr>sysWorld := w, sysStore := settle ?F (settle ?R (sysStore st)),
    sysPending := remove1 ?F (ps @ qs)\<rparr>"
  have 1: "hub_step S st ?st1"
    using hub_step.handle [OF st al] run route sv by fastforce
  have 2: "hub_step S ?st1 ?st2"
    using hub_step.settle [of ?st1 ps ?R qs S] by simp
  obtain xs ys where split: "ps @ qs = xs @ ?F # ys" "?F \<notin> set xs"
    using split_list_first [OF mid] by blast
  then have "remove1 ?F (ps @ qs) = xs @ ys" by (simp add: remove1_append)
  then have 3: "hub_step S ?st2 ?st3"
    using hub_step.settle [of ?st2 xs ?F ys S] split(1) by (simp del: settle.simps)
  show ?thesis
    by (rule converse_rtranclp_into_rtranclp, rule 1, rule converse_rtranclp_into_rtranclp, rule 2,
        rule r_into_rtranclp, rule 3)
qed

text \<open>
  C33 (delete_upload_race): why \<open>hub_traces_endpoints\<close> needs its premise on deletions.  Whenever a
  cluster's upload of a service is waiting while its deletion of the same service is between the
  revocation and the bookkeeping (its exporter and its revoker of lost services send such requests
  for one key), then, if the upload is handled now and its merge succeeds, the hub gets to a state
  with the two requests done in which the cluster has the uploaded endpoints, but not the record of the
  service: a sweep nobody disturbs, whenever it runs, in whatever order and whichever of its calls fail,
  makes no call for this service and leaves the endpoints where they are.
\<close>

theorem delete_upload_race:
  assumes "kube_api K objs nss" and "S = server_setup K a d js chi rt me z reg allowed out"
    and "store_inv (sysStore st)" and "sysPending st = ps @ Arrived r # qs"
    and "Forget (rqCluster r) (keyFromObject gs) \<in> set (ps @ qs)" and "allowed (ps @ qs) r"
    and "honest (hub_server K a d js) r" and "uploaded (hub_server K a d js) r = Some gs"
    and "chi routes (rqMethod r) (rqPath r) = Inr (UploadRoute, params)"
    and "CreateOrMergeGlobalService (NewGlobalServiceManager K a) gs (sysWorld st) = (None, w)"
  shows "\<exists>st'. (hub_step S)\<^sup>*\<^sup>* st st' \<and>
    sysPending st' = remove1 (Forget (rqCluster r) (keyFromObject gs)) (ps @ qs) \<and>
    cluster_view objs (sysWorld st') (keyFromObject gs) (rqCluster r) = endpoints_of gs \<and> endpoints_of gs \<noteq> [] \<and>
    (\<forall>cord now ord clock log j s' w'. range_order cord \<longrightarrow> range_order ord \<longrightarrow>
      cleanExpiredClusterEndpoints cord now ord (quiet clock) (svRevoke (hsServer S)) (sysStore st', sysWorld st')
        = (log, j, s', w') \<longrightarrow>
      (\<forall>e. (rqCluster r, keyFromObject gs, e) \<notin> set log) \<and>
      cluster_view objs w' (keyFromObject gs) (rqCluster r) = endpoints_of gs)"
proof -
  let ?c = "rqCluster r" and ?k = "keyFromObject gs"
  let ?s = "settle (Forget ?c ?k) (settle (Record ?c ?k) (sysStore st))"
  let ?st' = "st\<lparr>sysWorld := w, sysStore := ?s, sysPending := remove1 (Forget ?c ?k) (ps @ qs)\<rparr>"
  have own: "own_endpoints gs" "omClusterName (gsMeta gs) = ?c" and some: "endpoints_of gs \<noteq> []"
    using assms(7,8) by (auto simp: honest_def uploaded_iff uploads_def upload_invalid_def)
  have view: "cluster_view objs w ?k ?c = endpoints_of gs"
    using kube_api.merged_view [OF assms(1,10) own(1)] own(2) by simp
  have inv: "store_inv ?s" by (intro settle_registry(1) assms(3))
  obtain ks t where reg: "registry ?s ?c = Some (ks, t)" "?k \<notin> ks" using settle_forgets [OF assms(3)] by blast
  have run: "(hub_step S)\<^sup>*\<^sup>* st ?st'"
    by (rule race_steps [OF _ assms(4,5) _ _ assms(8,10)]) (simp_all add: assms(2,6,9))
  have unseen: "(\<forall>e. (?c, ?k, e) \<notin> set log) \<and> cluster_view objs w' ?k ?c = endpoints_of gs"
    if "range_order cord" "range_order ord"
      "cleanExpiredClusterEndpoints cord now ord (quiet clock) (svRevoke (hsServer S)) (?s, w) = (log, j, s', w')"
    for cord now ord clock log j s' w'
  proof -
    have "cleanExpiredClusterEndpoints cord now ord (quiet clock)
        (RevokeGlobalService (NewGlobalServiceManager K a)) (?s, w) = (log, j, s', w')"
      using that(3) by (simp add: assms(2))
    from kube_api.sweep_unrecorded [OF assms(1) inv that(1,2) this reg] view show ?thesis by simp
  qed
  show ?thesis
    by (rule exI [of _ ?st']) (use run view some unseen in simp)
qed

text \<open>Beijing deletes its service; its upload is handled before the deletion has done its bookkeeping.\<close>

definition mid_deletion :: "memory system" where
  "mid_deletion = the (exec_all (demo_system (\<lambda>_ _. True)) (take 6 race) demo_begin)"

theorem delete_upload_race_witness:
  "\<exists>st. (hub_step (demo_system (\<lambda>_ _. True)))\<^sup>*\<^sup>* demo_begin st \<and> sysPending st = [] \<and>
     cluster_view mem_objs (sysWorld st) nginx_key ''beijing'' = endpoints_of beijing"
proof -
  let ?S = "demo_system (\<lambda>_ _. True)"
  let ?m = "CreateOrMergeGlobalService (NewGlobalServiceManager mem_kube True) beijing (sysWorld mid_deletion)"
  have S: "?S = server_setup mem_kube True 300 demo_json std_chi demo_runtime ''cloud'' ''bj'' ''north''
      (\<lambda>_ _. True) demo_outside" by (simp add: demo_system_def)
  have "exec_all ?S (take 6 race) demo_begin \<noteq> None" by code_simp
  then have "exec_all ?S (take 6 race) demo_begin = Some mid_deletion" by (auto simp: mid_deletion_def)
  moreover have "list_all (\<lambda>act. \<forall>r. act = DoArrive r \<longrightarrow> honest (hsServer ?S) r) (take 6 race)"
    using beijing_actions(2) by (simp add: race_def)
  ultimately have start: "(hub_step ?S)\<^sup>*\<^sup>* demo_begin mid_deletion" by (rule exec_all_sound)
  from reachable_store_inv [OF this] have inv: "store_inv (sysStore mid_deletion)"
    by (simp add: demo_begin_def started_def)
  have key: "keyFromObject beijing = nginx_key" "rqCluster beijing_upload = ''beijing''" by code_simp+
  have pending: "sysPending mid_deletion = [] @ Arrived beijing_upload # [Forget ''beijing'' nginx_key]" by code_simp
  have mid: "Forget (rqCluster beijing_upload) (keyFromObject beijing) \<in> set ([] @ [Forget ''beijing'' nginx_key])"
    by (simp add: key)
  have up: "uploaded (hub_server mem_kube True 300 demo_json) beijing_upload = Some beijing" by code_simp
  have route: "std_chi routes (rqMethod beijing_upload) (rqPath beijing_upload) = Inr (UploadRoute, [])" by code_simp
  have "fst ?m = None" by code_simp
  then have merged: "?m = (None, snd ?m)" by (metis prod.collapse)
  have honest: "honest (hub_server mem_kube True 300 demo_json) beijing_upload"
    using beijing_honest(1) by (simp add: demo_server_def)
  from delete_upload_race [OF mem.kube_api_axioms S inv pending mid _ honest up route merged]
  obtain st where "(hub_step ?S)\<^sup>*\<^sup>* mid_deletion st" "sysPending st = []"
    "cluster_view mem_objs (sysWorld st) nginx_key ''beijing'' = endpoints_of beijing"
    by (auto simp: key)
  then show ?thesis using start by (meson rtranclp_trans)
qed

end
