(* ===== verification/ExportLoop.thy ===== *)
theory ExportLoop
  imports LostServiceRevoker HubClient
begin

text \<open>
  The exporter as the controller manager runs it.  The manager keeps a set of keys to reconcile: it
  adds the key of a service when the service or an endpoint slice it owns changes
  (\<open>For(&corev1.Service{}).Owns(&discoveryv1.EndpointSlice{})\<close> of \<open>addExporterToManager\<close>), takes one
  key after the other, and keeps a key whose \<open>Reconcile\<close> fails.  When the process starts it adds
  every service there is.  The theory shows what that gives: what is not waiting is in sync, but
  for what changes without the exporter hearing of it: \<open>Reconcile\<close> reads the slices by their label, and
  a slice with the label of a service need not be owned by it (slices mirrored from Endpoints or made
  by hand); and nothing tells it when the cleaner of the hub takes the cluster's endpoints.
\<close>

section \<open>What the cluster's API holds\<close>

text \<open>
  The endpoints a service should have in the hub, going by what the API holds; undefined when the
  code panics on it.
\<close>

definition service_name_label :: string where
  "service_name_label = ''kubernetes.io/service-name''"

definition source ::
  "go_runtime \<Rightarrow> 'w ExporterConfig \<Rightarrow> ('w \<Rightarrow> ObjectKey \<Rightarrow> Service option)
     \<Rightarrow> ('w \<Rightarrow> string \<Rightarrow> (string, string) gomap \<Rightarrow> EndpointSlice list) \<Rightarrow> 'w \<Rightarrow> ObjectKey \<Rightarrow> Endpoint list option" where
  "source rt cfg services slices w k =
     (case services w k of
        None \<Rightarrow> Some []
      | Some svc \<Rightarrow>
          if shouldSkipService svc then Some []
          else if svcClusterIP svc = ClusterIPNone then
            (case endpoints_of_slices rt
                    \<lparr>ecName = cfgClusterName cfg, ecRegion = cfgRegion cfg, ecZone = cfgZone cfg\<rparr>
                    (slices w (okNamespace k) [(service_name_label, okName k)]) of
               Returned eps \<Rightarrow> Some eps
             | Panicked \<Rightarrow> None)
          else Some [clusterIP_endpoint cfg svc])"

text \<open>
  The reads tell the truth, and neither they nor the exports and revocations change services or
  slices.
\<close>

locale exporter_source = exporter_env me legal export revoke view K
  for me :: string and legal export revoke and view :: "'w \<Rightarrow> ObjectKey \<Rightarrow> string \<Rightarrow> Endpoint list" and K +
  fixes services :: "'w \<Rightarrow> ObjectKey \<Rightarrow> Service option"
    and slices :: "'w \<Rightarrow> string \<Rightarrow> (string, string) gomap \<Rightarrow> EndpointSlice list"
  assumes service_found: "kGetService K k w = (Inr svc, w') \<Longrightarrow> services w k = Some svc"
    and service_missing: "kGetService K k w = (Inl e, w') \<Longrightarrow> IsNotFound e \<Longrightarrow> services w k = None"
    and get_service_source: "kGetService K k w = (rs, w') \<Longrightarrow> services w' = services w \<and> slices w' = slices w"
    and slices_listed: "kListSlices K n ls w = (Inr xs, w') \<Longrightarrow> xs = slices w n ls"
    and list_slices_source: "kListSlices K n ls w = (rl, w') \<Longrightarrow> services w' = services w \<and> slices w' = slices w"
    and export_source: "export g w = (r, w') \<Longrightarrow> services w' = services w \<and> slices w' = slices w"
    and revoke_source: "revoke c ns n w = (r, w') \<Longrightarrow> services w' = services w \<and> slices w' = slices w"
begin

lemma source_cong:
  assumes "services w' k = services w k"
    and "slices w' (okNamespace k) [(service_name_label, okName k)] = slices w (okNamespace k) [(service_name_label, okName k)]"
  shows "source rt cfg services slices w' k = source rt cfg services slices w k"
  unfolding source_def assms ..

lemma wanted_source:
  assumes "wanted_endpoints rt K cfg k w = Some eps"
  shows "source rt cfg services slices w k = Some eps"
proof -
  obtain res w1 where get: "kGetService K k w = (res, w1)" by force
  note same = get_service_source [OF get]
  show ?thesis
  proof (cases res)
    case (Inl e)
    then show ?thesis
      using assms get service_missing [of k w e w1]
      by (simp add: wanted_endpoints_def source_def split: if_splits)
  next
    case (Inr svc)
    then have found: "services w k = Some svc" using service_found get by simp
    have key: "ObjectKey (omNamespace (svcMeta svc)) (omName (svcMeta svc)) = k"
      using get_service_key get Inr by simp
    obtain rl w2 where list: "kListSlices K (okNamespace k) [(service_name_label, okName k)] w1 = (rl, w2)" by force
    show ?thesis
      using assms get Inr found list slices_listed [of "okNamespace k" "[(service_name_label, okName k)]" w1] same
      unfolding key [symmetric]
      by (cases rl) (auto simp: wanted_endpoints_def source_def service_endpoints_def service_name_label_def
          GetEndpointsOfHeadlessService_def split: if_splits outcome.splits)
  qed
qed

lemma service_endpoints_source:
  "service_endpoints rt K cfg svc w = (r, w') \<Longrightarrow> services w' = services w \<and> slices w' = slices w"
  by (auto simp: service_endpoints_def GetEndpointsOfHeadlessService_def
      split: if_splits prod.splits sum.splits dest: list_slices_source)

lemma revokeGlobalService_source:
  assumes "cfgRevoke cfg = revoke" and "revokeGlobalService cfg k ks w = (r, ks', w')"
  shows "services w' = services w \<and> slices w' = slices w"
  using assms(2) unfolding revokeGlobalService_def assms(1)
  by (auto split: if_splits prod.splits option.splits dest: revoke_source)

lemma Reconcile_source:
  assumes cfg: "cfgExport cfg = export" "cfgRevoke cfg = revoke"
    and run: "Reconcile rt K cfg k (ks, w) = (r, ks', w')"
  shows "services w' = services w \<and> slices w' = slices w"
proof -
  obtain res w1 where get: "kGetService K k w = (res, w1)" by force
  note same = get_service_source [OF get]
  show ?thesis
  proof (cases "\<exists>svc. res = Inr svc \<and> \<not> shouldSkipService svc")
    case False
    then have "w' = w1 \<or> (\<exists>r0. revokeGlobalService cfg k ks w1 = (r0, ks', w'))"
      using run get by (cases res) (auto simp: Reconcile_def map_prod_def split: if_splits prod.splits)
    then show ?thesis using same revokeGlobalService_source [OF cfg(2)] by metis
  next
    case True
    then obtain svc where svc: "res = Inr svc" "\<not> shouldSkipService svc" by blast
    obtain x w2 where eps: "service_endpoints rt K cfg svc w1 = (x, w2)" by force
    have "w' = w2 \<or> (\<exists>g e. export g w2 = (e, w'))"
      using run get svc eps unfolding Reconcile_def cfg(1)
      by (auto split: outcome.splits sum.splits prod.splits option.splits)
    then show ?thesis using same service_endpoints_source [OF eps] export_source by metis
  qed
qed

end

section \<open>What the exporter is told\<close>

abbreviation listed_slices ::
  "('w \<Rightarrow> string \<Rightarrow> (string, string) gomap \<Rightarrow> EndpointSlice list) \<Rightarrow> 'w \<Rightarrow> ObjectKey \<Rightarrow> EndpointSlice list" where
  "listed_slices slices w k \<equiv> slices w (okNamespace k) [(service_name_label, okName k)]"

definition owned_by :: "EndpointSlice \<Rightarrow> ObjectKey \<Rightarrow> bool" where
  "owned_by es k \<longleftrightarrow> esNamespace es = okNamespace k \<and> esOwner es = Some (okName k)"

text \<open>
  The keys the manager adds for a change of the API from \<open>w\<close> to \<open>w'\<close>, going by what the builder was
  told: that of a changed object of the \<open>For\<close> type; for the types under \<open>Owns\<close> that of the owner of
  an object that came, went or changed.
\<close>

definition notified ::
  "'r controller \<Rightarrow> ('w \<Rightarrow> ObjectKey \<Rightarrow> Service option)
     \<Rightarrow> ('w \<Rightarrow> string \<Rightarrow> (string, string) gomap \<Rightarrow> EndpointSlice list) \<Rightarrow> 'w \<Rightarrow> 'w \<Rightarrow> ObjectKey \<Rightarrow> bool" where
  "notified ctl services slices w w' k \<longleftrightarrow>
     ctlFor ctl = ServiceObjects \<and> services w' k \<noteq> services w k \<or>
     EndpointSliceObjects \<in> set (ctlOwns ctl) \<and>
       (\<exists>es. (es \<in> set (listed_slices slices w k) \<longleftrightarrow> es \<notin> set (listed_slices slices w' k)) \<and> owned_by es k)"

text \<open>
  What a change leaves out of date without a notice: keys in \<open>Q\<close> are queued, the others are not.
\<close>

definition unheard ::
  "string \<Rightarrow> ('w \<Rightarrow> ObjectKey \<Rightarrow> string \<Rightarrow> Endpoint list) \<Rightarrow> ('w \<Rightarrow> ObjectKey \<Rightarrow> Service option)
     \<Rightarrow> ('w \<Rightarrow> string \<Rightarrow> (string, string) gomap \<Rightarrow> EndpointSlice list) \<Rightarrow> 'w \<Rightarrow> 'w \<Rightarrow> ObjectKey set \<Rightarrow> ObjectKey set" where
  "unheard me view services slices w w' Q = {k. view w' k me \<noteq> view w k me \<or> k \<notin> Q \<and>
     (services w' k \<noteq> services w k \<or> listed_slices slices w' k \<noteq> listed_slices slices w k)}"

text \<open>
  A change with which this does not happen: nobody else writes the cluster's endpoints in the hub, and
  the slices with the label of a service are those it owns, as the slice controller of Kubernetes makes
  them (listed in a fixed order).
\<close>

definition ordinary ::
  "string \<Rightarrow> ('w \<Rightarrow> ObjectKey \<Rightarrow> string \<Rightarrow> Endpoint list)
     \<Rightarrow> ('w \<Rightarrow> string \<Rightarrow> (string, string) gomap \<Rightarrow> EndpointSlice list) \<Rightarrow> 'w \<Rightarrow> 'w \<Rightarrow> bool" where
  "ordinary me view slices w w' \<longleftrightarrow> (\<forall>k. view w' k me = view w k me \<and>
     (\<forall>es \<in> set (listed_slices slices w k) \<union> set (listed_slices slices w' k). owned_by es k) \<and>
     (set (listed_slices slices w k) = set (listed_slices slices w' k) \<longrightarrow>
        listed_slices slices w k = listed_slices slices w' k))"

lemma ordinary_heard:
  assumes "ordinary me view slices w w'"
    and "\<And>k. notified (addExporterToManager ex) services slices w w' k \<Longrightarrow> k \<in> Q"
  shows "unheard me view services slices w w' Q = {}"
proof -
  have "listed_slices slices w' k = listed_slices slices w k" if "k \<notin> Q" for k
  proof -
    have "set (listed_slices slices w k) = set (listed_slices slices w' k)"
      using assms(2) [of k] assms(1) that
      by (auto simp: notified_def addExporterToManager_def ordinary_def)
    then show ?thesis using assms(1) unfolding ordinary_def by metis
  qed
  moreover have "services w' k = services w k" if "k \<notin> Q" for k
    using assms(2) [of k] that by (auto simp: notified_def addExporterToManager_def)
  ultimately show ?thesis using assms(1) by (auto simp: unheard_def ordinary_def)
qed

section \<open>The loop\<close>

text \<open>\<open>elStale\<close> is not in the program: the keys changed without notice since they were last reconciled.\<close>

record 'w export_loop =
  elQueue :: "ObjectKey set"
  elKeys :: ObjectKeySet
  elStale :: "ObjectKey set"
  elWorld :: 'w

text \<open>
  \<open>change\<close> is what others may do, \<open>others\<close>: any change of services and slices, and of the endpoints
  in the hub.  It queues at least the keys the manager is to be notified of; the names of services
  are \<open>legal\<close> for the API.  \<open>panic\<close> is a crash and the start that follows it.
\<close>

inductive loop_step ::
  "go_runtime \<Rightarrow> 'w kube \<Rightarrow> 'w ExporterConfig \<Rightarrow> ('w \<Rightarrow> ObjectKey \<Rightarrow> string \<Rightarrow> Endpoint list)
     \<Rightarrow> ('w \<Rightarrow> ObjectKey \<Rightarrow> Service option) \<Rightarrow> ('w \<Rightarrow> string \<Rightarrow> (string, string) gomap \<Rightarrow> EndpointSlice list)
     \<Rightarrow> (ObjectKey \<Rightarrow> bool) \<Rightarrow> ('w \<Rightarrow> 'w \<Rightarrow> bool) \<Rightarrow> 'w export_loop \<Rightarrow> 'w export_loop \<Rightarrow> bool"
  for rt K cfg view services slices legal others where
  reconcile: "k \<in> elQueue st \<Longrightarrow> Reconcile rt K cfg k (elKeys st, elWorld st) = (Returned e, ks, w) \<Longrightarrow>
    loop_step rt K cfg view services slices legal others st
      \<lparr>elQueue = (if e = None then elQueue st - {k} else elQueue st), elKeys = ks,
       elStale = (if e = None then elStale st - {k} else elStale st), elWorld = w\<rparr>"
| change: "others (elWorld st) w \<Longrightarrow>
    \<forall>k. notified (addExporterToManager (newServiceExporter K cfg)) services slices (elWorld st) w k \<longrightarrow> k \<in> Q \<Longrightarrow>
    Q \<subseteq> Collect legal \<Longrightarrow>
    loop_step rt K cfg view services slices legal others st
      \<lparr>elQueue = elQueue st \<union> Q, elKeys = elKeys st,
       elStale = elStale st \<union> unheard (cfgClusterName cfg) view services slices (elWorld st) w Q, elWorld = w\<rparr>"
| restart: "Q \<subseteq> Collect legal \<Longrightarrow> \<forall>k. services (elWorld st) k \<noteq> None \<longrightarrow> k \<in> Q \<Longrightarrow>
    loop_step rt K cfg view services slices legal others st
      \<lparr>elQueue = Q, elKeys = seServiceKeySet (newServiceExporter K cfg), elStale = {}, elWorld = elWorld st\<rparr>"
| panic: "k \<in> elQueue st \<Longrightarrow> Reconcile rt K cfg k (elKeys st, elWorld st) = (Panicked, ks, w) \<Longrightarrow>
    Q \<subseteq> Collect legal \<Longrightarrow> \<forall>k. services w k \<noteq> None \<longrightarrow> k \<in> Q \<Longrightarrow>
    loop_step rt K cfg view services slices legal others st
      \<lparr>elQueue = Q, elKeys = seServiceKeySet (newServiceExporter K cfg), elStale = {}, elWorld = w\<rparr>"

text \<open>The state in which a process starts.\<close>

definition loop_start :: "'w kube \<Rightarrow> 'w ExporterConfig \<Rightarrow> ObjectKey set \<Rightarrow> 'w \<Rightarrow> 'w export_loop" where
  "loop_start K cfg Q w =
     \<lparr>elQueue = Q, elKeys = seServiceKeySet (newServiceExporter K cfg), elStale = {}, elWorld = w\<rparr>"

text \<open>
  What holds of a key that is neither waiting nor stale: the cluster has in the hub what its service should
  have; or the service is gone or not for export, and nobody remembers that it was.
\<close>

definition settled ::
  "go_runtime \<Rightarrow> 'w ExporterConfig \<Rightarrow> ('w \<Rightarrow> ObjectKey \<Rightarrow> string \<Rightarrow> Endpoint list)
     \<Rightarrow> ('w \<Rightarrow> ObjectKey \<Rightarrow> Service option) \<Rightarrow> ('w \<Rightarrow> string \<Rightarrow> (string, string) gomap \<Rightarrow> EndpointSlice list)
     \<Rightarrow> ObjectKeySet \<Rightarrow> 'w \<Rightarrow> ObjectKey \<Rightarrow> bool" where
  "settled rt cfg view services slices ks w k \<longleftrightarrow>
     source rt cfg services slices w k = Some (view w k (cfgClusterName cfg)) \<or>
     source rt cfg services slices w k = Some [] \<and> \<not> Has ks k"

context exporter_source begin

lemma Reconcile_settles:
  assumes "go_runtime_ok rt"
    and cfg: "cfgClusterName cfg = me" "cfgExport cfg = export" "cfgRevoke cfg = revoke"
    and legal: "legal k"
    and run: "Reconcile rt K cfg k (ks, w) = (Returned None, ks', w')"
  shows "settled rt cfg view services slices ks' w' k"
  using assms(1) run
proof (cases rule: Reconcile_cases)
  case (revoked w1 r0)
  note same = Reconcile_source [OF cfg(2,3) run]
  have src: "source rt cfg services slices w' k = Some []"
    using wanted_source [OF revoked(3)] source_cong [of w' k w rt cfg] same by simp
  show ?thesis
    using cfg(3,1) revoked(4)
  proof (cases rule: revokeGlobalService_cases)
    case untracked
    then show ?thesis using src by (simp add: settled_def)
  next
    case called
    then have "view w' k me = []"
      using revoke_me_ok [of "okNamespace k" "okName k" w1 w'] revoked(5) legal by (simp add: set_view_apply)
    then show ?thesis using src cfg(1) by (simp add: settled_def)
  qed
next
  case (exported g w2 e)
  note same = Reconcile_source [OF cfg(2,3) run]
  have "view w' = set_view k me (endpoints_of g) (view w2)"
    using export_ok [of g w2 w'] exported cfg by simp
  moreover have "source rt cfg services slices w' k = Some (endpoints_of g)"
    using wanted_source [OF exported(3)] source_cong [of w' k w rt cfg] same by simp
  ultimately show ?thesis using cfg(1) by (simp add: settled_def set_view_apply)
qed simp

lemma Reconcile_keeps_settled:
  assumes "go_runtime_ok rt"
    and cfg: "cfgClusterName cfg = me" "cfgExport cfg = export" "cfgRevoke cfg = revoke"
    and legal: "legal k" and other: "k' \<noteq> k"
    and run: "Reconcile rt K cfg k (ks, w) = (r, ks', w')"
    and old: "settled rt cfg view services slices ks w k'"
  shows "settled rt cfg view services slices ks' w' k'"
proof -
  note atomic = Reconcile_atomic [OF assms(1) cfg legal run]
  have "view w' k' me = view w k' me" "Has ks' k' = Has ks k'"
    using atomic other by (auto simp: set_view_apply)
  then show ?thesis
    using old source_cong [of w' k' w rt cfg] Reconcile_source [OF cfg(2,3) run] cfg(1)
    by (simp add: settled_def)
qed

lemma new_settled:
  assumes "services w k = None"
  shows "settled rt cfg view services slices (seServiceKeySet (newServiceExporter K0 cfg0)) w k"
  using assms by (simp add: settled_def source_def keys.has_new newServiceExporter_def)

definition loop_inv :: "go_runtime \<Rightarrow> 'w ExporterConfig \<Rightarrow> 'w export_loop \<Rightarrow> bool" where
  "loop_inv rt cfg st \<longleftrightarrow> elQueue st \<subseteq> Collect legal \<and>
     (\<forall>k. k \<notin> elQueue st \<and> k \<notin> elStale st \<longrightarrow> settled rt cfg view services slices (elKeys st) (elWorld st) k)"

lemma loop_step_inv:
  assumes step: "loop_step rt K cfg view services slices legal others st st'" and rt: "go_runtime_ok rt"
    and cfg: "cfgClusterName cfg = me" "cfgExport cfg = export" "cfgRevoke cfg = revoke"
    and inv: "loop_inv rt cfg st"
  shows "loop_inv rt cfg st'"
  using step
proof cases
  case (reconcile k e ks w)
  have legal: "legal k" using inv reconcile(2) by (auto simp: loop_inv_def)
  have "settled rt cfg view services slices ks w k" if "e = None"
    using Reconcile_settles [OF rt cfg legal] reconcile(3) that by simp
  moreover have "settled rt cfg view services slices ks w k'" if "k' \<notin> elQueue st" "k' \<notin> elStale st" for k'
  proof -
    have "k' \<noteq> k" using that(1) reconcile(2) by blast
    from Reconcile_keeps_settled [OF rt cfg legal this reconcile(3)] inv that
    show ?thesis by (simp add: loop_inv_def)
  qed
  ultimately show ?thesis using inv reconcile(1,2) by (auto simp: loop_inv_def split: if_splits)
next
  case (change w Q)
  have "settled rt cfg view services slices (elKeys st) w k"
    if "k \<notin> elQueue st" "k \<notin> Q" "k \<notin> elStale st"
      "k \<notin> unheard (cfgClusterName cfg) view services slices (elWorld st) w Q" for k
    using inv that source_cong [of w k "elWorld st" rt cfg] by (simp add: loop_inv_def settled_def unheard_def)
  then show ?thesis using change inv by (auto simp: loop_inv_def)
qed (auto simp: loop_inv_def intro!: new_settled)

lemma loop_reachable_inv:
  assumes "(loop_step rt K cfg view services slices legal others)\<^sup>*\<^sup>* st st'" and "go_runtime_ok rt"
    and "cfgClusterName cfg = me" "cfgExport cfg = export" "cfgRevoke cfg = revoke"
    and "loop_inv rt cfg st"
  shows "loop_inv rt cfg st'"
  using assms(1,6) by induction (auto intro: loop_step_inv [OF _ assms(2-5)])

lemma loop_start_inv:
  assumes "Q \<subseteq> Collect legal" and "\<forall>k. services w k \<noteq> None \<longrightarrow> k \<in> Q"
  shows "loop_inv rt cfg (loop_start K0 cfg0 Q w)"
  using assms by (auto simp: loop_inv_def loop_start_def intro!: new_settled)

end

text \<open>With ordinary changes only, nothing is ever stale.\<close>

lemma loop_ordinary:
  assumes "(loop_step rt K cfg view services slices legal others)\<^sup>*\<^sup>* st st'"
    and "\<And>w w'. others w w' \<Longrightarrow> ordinary (cfgClusterName cfg) view slices w w'" and "elStale st = {}"
  shows "elStale st' = {}"
  using assms(1)
proof (induction rule: rtranclp_induct)
  case (step st1 st2)
  from step(2) show ?case
  proof cases
    case (change w Q)
    then have "unheard (cfgClusterName cfg) view services slices (elWorld st1) w Q = {}"
      using ordinary_heard [OF assms(2)] by blast
    then show ?thesis using change(1) step(3) by simp
  qed (use step(3) in simp_all)
qed (rule assms(3))

section \<open>The two modes\<close>

text \<open>An API whose reads of services and slices are true, and whose other calls leave them alone.\<close>

locale kube_source = kube_api K objs nss
  for K :: "'w kube" and objs nss +
  fixes services :: "'w \<Rightarrow> ObjectKey \<Rightarrow> Service option"
    and slices :: "'w \<Rightarrow> string \<Rightarrow> (string, string) gomap \<Rightarrow> EndpointSlice list"
  assumes found: "kGetService K k w = (Inr svc, w') \<Longrightarrow> services w k = Some svc"
    and missing: "kGetService K k w = (Inl e, w') \<Longrightarrow> IsNotFound e \<Longrightarrow> services w k = None"
    and get_service_same: "kGetService K k w = (rs, w') \<Longrightarrow> services w' = services w \<and> slices w' = slices w"
    and listed: "kListSlices K n ls w = (Inr xs, w') \<Longrightarrow> xs = slices w n ls"
    and list_slices_same: "kListSlices K n ls w = (rl, w') \<Longrightarrow> services w' = services w \<and> slices w' = slices w"
    and get_same: "kGetGS K k w = (rg, w') \<Longrightarrow> services w' = services w \<and> slices w' = slices w"
    and apply_same: "kCreateOrUpdateGS K obj f w = (r, w') \<Longrightarrow> services w' = services w \<and> slices w' = slices w"
    and update_same: "kUpdateGS K g w = (r, w') \<Longrightarrow> services w' = services w \<and> slices w' = slices w"
    and delete_same: "kDeleteGS K g w = (r, w') \<Longrightarrow> services w' = services w \<and> slices w' = slices w"
    and get_ns_same: "kGetNS K m w = (r, w') \<Longrightarrow> services w' = services w \<and> slices w' = slices w"
    and create_ns_same: "kCreateNS K om w = (r, w') \<Longrightarrow> services w' = services w \<and> slices w' = slices w"
begin

lemma Ensure_same: "Ensure K n w = (r, w') \<Longrightarrow> services w' = services w \<and> slices w' = slices w"
  by (auto simp: Ensure_def Exists_def split: prod.splits option.splits if_splits
      dest!: get_ns_same create_ns_same)

lemma CreateOrMerge_same:
  "CreateOrMergeGlobalService (NewGlobalServiceManager K a) g w = (r, w') \<Longrightarrow>
     services w' = services w \<and> slices w' = slices w"
  by (auto simp: CreateOrMergeGlobalService_def NewGlobalServiceManager_def
      split: prod.splits option.splits if_splits dest!: Ensure_same apply_same)

lemma Revoke_same:
  "RevokeGlobalService (NewGlobalServiceManager K a) c ns n w = (r, w') \<Longrightarrow>
     services w' = services w \<and> slices w' = slices w"
  by (auto simp: RevokeGlobalService_def NewGlobalServiceManager_def Let_def
      split: prod.splits if_splits dest!: get_same update_same delete_same)

end

text \<open>In server mode the exporter reads and writes the same API.\<close>

sublocale kube_source \<subseteq> server_loop: exporter_source me "\<lambda>_. True"
  "CreateOrMergeGlobalService (NewGlobalServiceManager K a)"
  "RevokeGlobalService (NewGlobalServiceManager K a)" "cluster_view objs" K services slices for me a
  by unfold_locales
    (auto dest: found missing get_service_same listed list_slices_same CreateOrMerge_same Revoke_same)

text \<open>In client mode it reads its own API and writes to the network.\<close>

lemma exporter_source_client:
  fixes K :: "'w kube" and M :: "'m kube"
  assumes "kube_api K objs nss" and "kube_source M mobjs mnss services slices" and "chi_ok chi" and "json_ok js"
  shows "exporter_source me legal_key
    (\<lambda>g. on_network (client_UploadGlobalService (hub_client_of me url chi (hub_server K a d js)) g))
    (\<lambda>c ns n. on_network (client_DeleteGlobalService (hub_client_of me url chi (hub_server K a d js)) ns n))
    (\<lambda>x. cluster_view objs (hub_of x)) (member_kube M) (\<lambda>x. services (fst x)) (\<lambda>x. slices (fst x))"
proof (intro exporter_source.intro exporter_source_axioms.intro)
  have api: "kube_api M mobjs mnss" by (rule kube_source.axioms(1) [OF assms(2)])
  show "exporter_env me legal_key
    (\<lambda>g. on_network (client_UploadGlobalService (hub_client_of me url chi (hub_server K a d js)) g))
    (\<lambda>c ns n. on_network (client_DeleteGlobalService (hub_client_of me url chi (hub_server K a d js)) ns n))
    (\<lambda>x :: 'm \<times> 'w network. cluster_view objs (hub_of x)) (member_kube M)"
    by (rule exporter_env_client [OF assms(1) api assms(3,4)])
qed (auto simp: member_kube_def on_member_def on_network_def split: prod.splits
    dest: kube_source.found [OF assms(2)] kube_source.missing [OF assms(2)]
      kube_source.get_service_same [OF assms(2)] kube_source.listed [OF assms(2)]
      kube_source.list_slices_same [OF assms(2)])

text \<open>The API server in memory.\<close>

definition mem_services :: "memory \<Rightarrow> ObjectKey \<Rightarrow> Service option" where
  "mem_services m k = find (\<lambda>s. ObjectKey (omNamespace (svcMeta s)) (omName (svcMeta s)) = k) (memServices m)"

definition mem_slices :: "memory \<Rightarrow> string \<Rightarrow> (string, string) gomap \<Rightarrow> EndpointSlice list" where
  "mem_slices m ns ls = filter (\<lambda>es. esNamespace es = ns \<and>
     list_all (\<lambda>(k, v). label_value (esLabels es) k = v) ls) (memSlices m)"

lemma mem_source_same [simp]:
  "mem_services (m\<lparr>memFaults := fs\<rparr>) = mem_services m" "mem_slices (m\<lparr>memFaults := fs\<rparr>) = mem_slices m"
  "mem_services (m\<lparr>memNS := ns\<rparr>) = mem_services m" "mem_slices (m\<lparr>memNS := ns\<rparr>) = mem_slices m"
  "mem_services (mem_write g m) = mem_services m" "mem_slices (mem_write g m) = mem_slices m"
  "mem_services (mem_delete k m) = mem_services m" "mem_slices (mem_delete k m) = mem_slices m"
  by (simp_all add: mem_services_def mem_slices_def fun_eq_iff mem_write_def mem_delete_def)

lemmas mem_splits = list.splits option.splits sum.splits if_splits

lemma mem_reads:
  "mem_get_service k w = (rs, w') \<Longrightarrow> (\<forall>svc. rs = Inr svc \<longrightarrow> mem_services w k = Some svc) \<and>
     (\<forall>e. rs = Inl e \<and> IsNotFound e \<longrightarrow> mem_services w k = None) \<and>
     mem_services w' = mem_services w \<and> mem_slices w' = mem_slices w"
  "mem_list_slices n ls w = (rl, w') \<Longrightarrow> (\<forall>xs. rl = Inr xs \<longrightarrow> xs = mem_slices w n ls) \<and>
     mem_services w' = mem_services w \<and> mem_slices w' = mem_slices w"
  by (auto simp: mem_calls mem_services_def mem_slices_def fun_eq_iff split: mem_splits)

lemma mem_others:
  "mem_get_gs k w = (rg, w') \<Longrightarrow> mem_services w' = mem_services w \<and> mem_slices w' = mem_slices w"
  "mem_create_or_update obj f w = (r, w') \<Longrightarrow> mem_services w' = mem_services w \<and> mem_slices w' = mem_slices w"
  "mem_update g w = (r, w') \<Longrightarrow> mem_services w' = mem_services w \<and> mem_slices w' = mem_slices w"
  "mem_delete_gs g w = (r, w') \<Longrightarrow> mem_services w' = mem_services w \<and> mem_slices w' = mem_slices w"
  "mem_get_ns m w = (r, w') \<Longrightarrow> mem_services w' = mem_services w \<and> mem_slices w' = mem_slices w"
  "mem_create_ns om w = (r, w') \<Longrightarrow> mem_services w' = mem_services w \<and> mem_slices w' = mem_slices w"
  by (auto simp: mem_calls split: mem_splits)

interpretation mem_source: kube_source mem_kube mem_objs mem_nss mem_services mem_slices
  by unfold_locales (simp_all add: mem_kube_def, (auto dest: mem_reads mem_others)+)

end
