(* ===== verification/Restart.thy ===== *)
theory Restart
  imports ExportLoop
begin

text \<open>
  The two controllers of \<open>pkg/service-hub/exporter\<close> together: \<open>serviceExporter\<close>, which remembers what
  it exported since the process started, and \<open>lostServiceRevoker\<close>, which looks at the global services
  in the cluster's own API (in server mode the hub's, in client mode what was imported) and is there
  for what was lost while the process was down.  After a start every service and every global
  service is reconciled once, in whatever order; the theory shows what that achieves, in both modes,
  and the race it leaves.
\<close>

section \<open>Runs of the two controllers\<close>

datatype controller_task = ExportTask ObjectKey | RevokeTask ObjectKey

text \<open>
  The revoker drops the errors of its calls; they did their work when one of them succeeded or none
  was needed.
\<close>

definition revocations_pass :: "'w kube \<Rightarrow> 'w ExporterConfig \<Rightarrow> ObjectKey \<Rightarrow> 'w \<Rightarrow> bool" where
  "revocations_pass cli cfg k w =
     (case kGetGS cli k w of
        (Inl e, _) \<Rightarrow> True
      | (Inr gs, w1) \<Rightarrow>
          (case kGetService cli k w1 of
             (_, w2) \<Rightarrow> (let rs = fst (revoke_matching cfg gs (endpoints_of gs) w2) in rs = [] \<or> None \<in> set rs)))"

text \<open>
  A run of the controllers, with the tasks that succeeded; between them any number of attempts may
  have failed, and are tried again or not.  The names of services are \<open>legal\<close> for the API.
\<close>

inductive controllers_run ::
  "go_runtime \<Rightarrow> 'w kube \<Rightarrow> 'w ExporterConfig \<Rightarrow> (ObjectKey \<Rightarrow> bool) \<Rightarrow> ObjectKeySet \<times> 'w
     \<Rightarrow> controller_task list \<Rightarrow> ObjectKeySet \<times> 'w \<Rightarrow> bool"
  for rt K cfg legal where
  stop: "controllers_run rt K cfg legal st [] st"
| exported: "legal k \<Longrightarrow> Reconcile rt K cfg k (ks, w) = (Returned None, ks1, w1) \<Longrightarrow>
    controllers_run rt K cfg legal (ks1, w1) ts st \<Longrightarrow> controllers_run rt K cfg legal (ks, w) (ExportTask k # ts) st"
| export_failed: "legal k \<Longrightarrow> Reconcile rt K cfg k (ks, w) = (Returned (Some e), ks1, w1) \<Longrightarrow>
    controllers_run rt K cfg legal (ks1, w1) ts st \<Longrightarrow> controllers_run rt K cfg legal (ks, w) ts st"
| revoked: "legal k \<Longrightarrow> lostServiceRevoker_Reconcile K cfg k w = (None, w1) \<Longrightarrow> revocations_pass K cfg k w \<Longrightarrow>
    controllers_run rt K cfg legal (ks, w1) ts st \<Longrightarrow> controllers_run rt K cfg legal (ks, w) (RevokeTask k # ts) st"
| revoke_failed: "legal k \<Longrightarrow> lostServiceRevoker_Reconcile K cfg k w = (r, w1) \<Longrightarrow>
    controllers_run rt K cfg legal (ks, w1) ts st \<Longrightarrow> controllers_run rt K cfg legal (ks, w) ts st"

section \<open>What the tasks do\<close>

text \<open>A service the exporter exports, and one that is lost: gone or not labelled.\<close>

definition for_export :: "('w \<Rightarrow> ObjectKey \<Rightarrow> Service option) \<Rightarrow> 'w \<Rightarrow> ObjectKey \<Rightarrow> bool" where
  "for_export services w k \<longleftrightarrow> (case services w k of None \<Rightarrow> False | Some svc \<Rightarrow> \<not> shouldSkipService svc)"

definition lost :: "('w \<Rightarrow> ObjectKey \<Rightarrow> Service option) \<Rightarrow> 'w \<Rightarrow> ObjectKey \<Rightarrow> bool" where
  "lost services w k \<longleftrightarrow> (case services w k of None \<Rightarrow> True | Some svc \<Rightarrow> \<not> isGlobalService (omLabels (svcMeta svc)))"

text \<open>
  The global service the revoker reads shows an endpoint of the cluster when the hub has one.
\<close>

definition informed ::
  "('w \<Rightarrow> ObjectKey \<Rightarrow> string \<Rightarrow> Endpoint list) \<Rightarrow> ('w \<Rightarrow> ObjectKey \<Rightarrow> GlobalService option) \<Rightarrow> string
     \<Rightarrow> 'w \<Rightarrow> ObjectKey \<Rightarrow> bool" where
  "informed view local me w k \<longleftrightarrow> (view w k me \<noteq> [] \<longrightarrow>
     (case local w k of None \<Rightarrow> False | Some g \<Rightarrow> \<exists>e \<in> set (endpoints_of g). epCluster e = me))"

locale two_controllers = exporter_source me legal export revoke view K services slices
  for me :: string and legal export revoke and view :: "'w \<Rightarrow> ObjectKey \<Rightarrow> string \<Rightarrow> Endpoint list"
    and K services slices +
  fixes local :: "'w \<Rightarrow> ObjectKey \<Rightarrow> GlobalService option"
  assumes get_local: "kGetGS K k w = (Inr g, w') \<Longrightarrow> local w k = Some g \<and> keyFromObject g = k"
    and get_local_missing: "kGetGS K k w = (Inl e, w') \<Longrightarrow> IsNotFound e \<Longrightarrow> local w k = None"
    and get_gs_frame: "kGetGS K k w = (r, w') \<Longrightarrow>
      view w' = view w \<and> local w' = local w \<and> services w' = services w \<and> slices w' = slices w"
    and get_service_local: "kGetService K k w = (rs, w') \<Longrightarrow> local w' = local w"
    and list_slices_local: "kListSlices K n ls w = (rl, w') \<Longrightarrow> local w' = local w"
    and export_local: "export g w = (r', w') \<Longrightarrow> local w' = local w \<or> (\<forall>k. informed view local me w' k)"
    and revoke_informed: "revoke me ns n w = (r', w') \<Longrightarrow> legal (ObjectKey ns n) \<Longrightarrow>
      informed view local me w k \<Longrightarrow> informed view local me w' k"
begin

definition synced :: "go_runtime \<Rightarrow> 'w ExporterConfig \<Rightarrow> 'w \<Rightarrow> ObjectKey \<Rightarrow> bool" where
  "synced rt cfg w k \<longleftrightarrow> source rt cfg services slices w k = Some (view w k me)"

lemma lost_source: "lost services w k \<Longrightarrow> source rt cfg services slices w k = Some []"
  by (auto simp: lost_def source_def shouldSkipService_def split: option.splits)

lemma informed_cong:
  "view w' k me = view w k me \<Longrightarrow> local w' = local w \<Longrightarrow> informed view local me w' k = informed view local me w k"
  by (simp add: informed_def)

lemma synced_cong:
  assumes "services w' = services w \<and> slices w' = slices w" and "view w' k me = view w k me"
  shows "synced rt cfg w' k = synced rt cfg w k"
  using assms source_cong [of w' k w rt cfg] by (simp add: synced_def)

lemma service_endpoints_local: "service_endpoints rt K cfg svc w = (r, w') \<Longrightarrow> local w' = local w"
  by (auto simp: service_endpoints_def GetEndpointsOfHeadlessService_def
      split: if_splits prod.splits sum.splits dest: list_slices_local)

lemma Reconcile_informed:
  assumes "go_runtime_ok rt"
    and cfg: "cfgClusterName cfg = me" "cfgExport cfg = export" "cfgRevoke cfg = revoke"
    and legal: "legal k'" and run: "Reconcile rt K cfg k' (ks, w) = (r, ks', w')"
    and gone: "lost services w k" and old: "informed view local me w k"
  shows "informed view local me w' k"
proof -
  obtain res w1 where get: "kGetService K k' w = (res, w1)" by force
  have same1: "view w1 = view w" "local w1 = local w"
    using get_service_view [OF get] get_service_local [OF get] by simp_all
  have inf1: "informed view local me w1 k" using old by (simp add: informed_def same1)
  show ?thesis
  proof (cases "\<exists>svc. res = Inr svc \<and> \<not> shouldSkipService svc")
    case False
    then have "w' = w1 \<or> (\<exists>r0. revokeGlobalService cfg k' ks w1 = (r0, ks', w'))"
      using run get by (cases res) (auto simp: Reconcile_def map_prod_def split: if_splits prod.splits)
    then show ?thesis
    proof (elim disjE exE)
      fix r0
      assume "revokeGlobalService cfg k' ks w1 = (r0, ks', w')"
      with cfg(3,1) show ?thesis
        by (rule revokeGlobalService_cases) (use inf1 legal in \<open>auto intro: revoke_informed\<close>)
    qed (simp add: inf1)
  next
    case True
    then obtain svc where svc: "res = Inr svc" "\<not> shouldSkipService svc" by blast
    obtain x w2 where eps: "service_endpoints rt K cfg svc w1 = (x, w2)" by force
    have same2: "view w2 = view w" "local w2 = local w"
      using service_endpoints_view [OF eps] service_endpoints_local [OF eps] same1 by simp_all
    have "w' = w2 \<or> (\<exists>g e. export g w2 = (e, w'))"
      using run get svc eps unfolding Reconcile_def cfg(2)
      by (auto split: outcome.splits sum.splits prod.splits option.splits)
    then show ?thesis
    proof (elim disjE exE)
      assume "w' = w2"
      then show ?thesis using old by (simp add: informed_def same2)
    next
      fix g e
      assume ex: "export g w2 = (e, w')"
      have "services w k' = Some svc" using service_found get svc(1) by simp
      then have "k' \<noteq> k" using gone svc(2) by (auto simp: lost_def shouldSkipService_def)
      then have "view w' k me = view w k me"
        using Reconcile_atomic [OF assms(1) cfg legal run] by (auto simp: set_view_apply)
      then show ?thesis using export_local [OF ex] same2(2) old informed_cong [of w' k w] by auto
    qed
  qed
qed

lemma export_keeps:
  assumes "go_runtime_ok rt"
    and cfg: "cfgClusterName cfg = me" "cfgExport cfg = export" "cfgRevoke cfg = revoke"
    and legal: "legal k" and run: "Reconcile rt K cfg k (ks, w) = (r, ks', w')"
    and old: "synced rt cfg w k'"
  shows "synced rt cfg w' k'"
proof -
  note same = Reconcile_source [OF cfg(2,3) run]
  have "view w' = view w \<or> (\<exists>eps. wanted_endpoints rt K cfg k w = Some eps \<and> view w' = set_view k me eps (view w))"
    using Reconcile_atomic [OF assms(1) cfg legal run] by blast
  then show ?thesis
  proof (elim disjE exE conjE)
    assume "view w' = view w"
    then show ?thesis using old synced_cong [OF same] by simp
  next
    fix eps
    assume eps: "wanted_endpoints rt K cfg k w = Some eps" "view w' = set_view k me eps (view w)"
    have "source rt cfg services slices w' k = Some eps"
      using wanted_source [OF eps(1)] source_cong [of w' k w rt cfg] same by simp
    then show ?thesis
      using eps(2) old synced_cong [OF same, of k' rt cfg]
      by (cases "k' = k") (simp_all add: synced_def set_view_apply)
  qed
qed

lemma export_syncs:
  assumes "go_runtime_ok rt"
    and cfg: "cfgClusterName cfg = me" "cfgExport cfg = export" "cfgRevoke cfg = revoke"
    and run: "Reconcile rt K cfg k (ks, w) = (Returned None, ks', w')"
    and live: "for_export services w k"
  shows "synced rt cfg w' k"
proof -
  note same = Reconcile_source [OF cfg(2,3) run]
  from assms(1) run show ?thesis
  proof (cases rule: Reconcile_cases)
    case (revoked w1 r0)
    obtain res w2 where get: "kGetService K k w = (res, w2)" by force
    have "\<not> for_export services w k"
      using revoked(2,3) get service_found [of k w _ w2] service_missing [of k w _ w2]
      by (cases res) (auto simp: is_exported_def wanted_endpoints_def for_export_def split: if_splits)
    then show ?thesis using live by contradiction
  next
    case (exported g w2 e)
    have "view w' = set_view k me (endpoints_of g) (view w2)"
      using export_ok [of g w2 w'] exported cfg by simp
    moreover have "source rt cfg services slices w' k = Some (endpoints_of g)"
      using wanted_source [OF exported(3)] source_cong [of w' k w rt cfg] same by simp
    ultimately show ?thesis by (simp add: synced_def set_view_apply)
  qed simp
qed

lemma revoke_matching_frame:
  assumes "cfgClusterName cfg = me" and "cfgRevoke cfg = revoke" and "legal (keyFromObject gs)"
    and "revoke_matching cfg gs es w = (rs, w')"
  shows "services w' = services w \<and> slices w' = slices w \<and> (informed view local me w k \<longrightarrow> informed view local me w' k)"
  using assms(4)
proof (induction es arbitrary: w rs)
  case Nil
  then show ?case by simp
next
  case (Cons e es)
  show ?case
  proof (cases "epCluster e = me")
    case False
    then show ?thesis using Cons assms(1) by simp
  next
    case True
    obtain r w1 rs1 where call: "revoke me (omNamespace (gsMeta gs)) (omName (gsMeta gs)) w = (r, w1)"
      and rest: "revoke_matching cfg gs es w1 = (rs1, w')"
      using True Cons.prems assms by (auto split: prod.splits)
    show ?thesis
      using revoke_source [OF call] revoke_informed [OF call, of k] assms(3) Cons.IH [OF rest]
      by (auto simp: keyFromObject_def)
  qed
qed

lemma revoker_effect:
  assumes cfg: "cfgClusterName cfg = me" "cfgRevoke cfg = revoke" and legal: "legal k"
    and run: "lostServiceRevoker_Reconcile K cfg k w = (r, w')"
  shows "view w' = view w \<or> lost services w k \<and> view w' = set_view k me [] (view w)"
    and "services w' = services w \<and> slices w' = slices w"
    and "informed view local me w k' \<Longrightarrow> informed view local me w' k'"
    and "r = None \<Longrightarrow> revocations_pass K cfg k w \<Longrightarrow> lost services w k \<Longrightarrow> informed view local me w k \<Longrightarrow>
      view w' k me = []"
proof -
  obtain res w1 where get: "kGetGS K k w = (res, w1)" by force
  note same1 = get_gs_frame [OF get]
  have "(view w' = view w \<or> lost services w k \<and> view w' = set_view k me [] (view w)) \<and>
    services w' = services w \<and> slices w' = slices w \<and>
    (informed view local me w k' \<longrightarrow> informed view local me w' k') \<and>
    (r = None \<longrightarrow> revocations_pass K cfg k w \<longrightarrow> lost services w k \<longrightarrow> informed view local me w k \<longrightarrow> view w' k me = [])"
  proof (cases res)
    case (Inl e)
    then have w': "w' = w1" and r: "r = (if IsNotFound e then None else Some e)"
      using run get by (auto simp: lostServiceRevoker_Reconcile_def)
    have "view w k me = []" if "IsNotFound e" "informed view local me w k"
      using get_local_missing [OF get [unfolded Inl] that(1)] that(2) by (simp add: informed_def)
    moreover have "informed view local me w' k' = informed view local me w k'"
      using same1 w' by (intro informed_cong) simp_all
    ultimately show ?thesis using same1 w' r by (simp split: if_splits)
  next
    case (Inr gs)
    have here: "local w k = Some gs" "keyFromObject gs = k"
      using get_local [OF get [unfolded Inr]] by simp_all
    obtain sres w2 where svc: "kGetService K k w1 = (sres, w2)" by force
    have same2: "view w2 = view w" "services w2 = services w" "slices w2 = slices w" "local w2 = local w"
      using get_service_view [OF svc] get_service_source [OF svc] get_service_local [OF svc] same1 by simp_all
    show ?thesis
    proof (cases "case sres of Inl e \<Rightarrow> IsNotFound e | Inr svc \<Rightarrow> \<not> isGlobalService (omLabels (svcMeta svc))")
      case True
      have gone: "lost services w k"
        using True svc service_found [of k w1 _ w2] service_missing [of k w1 _ w2] same1
        by (cases sres) (auto simp: lost_def)
      obtain rs where loop: "revoke_matching cfg gs (endpoints_of gs) w2 = (rs, w')"
        using run get Inr svc True by (cases "revoke_matching cfg gs (endpoints_of gs) w2")
          (auto simp: lostServiceRevoker_Reconcile_def revokeGlobalServiceIfNecessary_def split: sum.splits)
      have pass: "revocations_pass K cfg k w \<longleftrightarrow> rs = [] \<or> None \<in> set rs"
        unfolding revocations_pass_def get Inr by (simp add: svc loop)
      have legal': "legal (keyFromObject gs)" using here(2) legal by simp
      note effect = revoke_matching_view [OF cfg legal' loop, unfolded here(2) same2(1)]
      have clear: "view w' k me = []" if "revocations_pass K cfg k w" "informed view local me w k"
      proof (cases "rs = []")
        case True
        then have "\<forall>e \<in> set (endpoints_of gs). epCluster e \<noteq> me"
          using revoke_matching_calls [OF loop] cfg(1) by (simp add: filter_empty_conv)
        then have "view w k me = []" using that(2) here(1) by (auto simp: informed_def)
        then show ?thesis using effect by (auto simp: set_view_apply)
      next
        case False
        then have "view w' = set_view k me [] (view w)" using that(1) effect unfolding pass by simp
        then show ?thesis by (simp add: set_view_apply)
      qed
      have inf: "informed view local me w2 k' = informed view local me w k'"
        using same2 by (intro informed_cong) simp_all
      note frame = revoke_matching_frame [OF cfg legal' loop, of k', unfolded inf same2(2,3)]
      show ?thesis
      proof (intro conjI impI)
        show "view w' = view w \<or> lost services w k \<and> view w' = set_view k me [] (view w)"
          using effect gone by blast
      qed (use frame clear in simp_all)
    next
      case False
      then have w': "w' = w2" using run get Inr svc
        by (auto simp: lostServiceRevoker_Reconcile_def split: sum.splits)
      have "r \<noteq> None" if "lost services w k"
        using that False run get Inr svc service_found [of k w1 _ w2] same1
        by (cases sres) (auto simp: lost_def lostServiceRevoker_Reconcile_def)
      moreover have "informed view local me w' k' = informed view local me w k'"
        using same2 w' by (intro informed_cong) simp_all
      ultimately show ?thesis using same2 w' by auto
    qed
  qed
  then show "view w' = view w \<or> lost services w k \<and> view w' = set_view k me [] (view w)"
    and "services w' = services w \<and> slices w' = slices w"
    and "informed view local me w k' \<Longrightarrow> informed view local me w' k'"
    and "r = None \<Longrightarrow> revocations_pass K cfg k w \<Longrightarrow> lost services w k \<Longrightarrow> informed view local me w k \<Longrightarrow>
      view w' k me = []"
    by blast+
qed

lemma revoker_keeps:
  assumes cfg: "cfgClusterName cfg = me" "cfgRevoke cfg = revoke" and legal: "legal k"
    and run: "lostServiceRevoker_Reconcile K cfg k w = (r, w')" and old: "synced rt cfg w k'"
  shows "synced rt cfg w' k'"
proof -
  note effect = revoker_effect [OF cfg legal run]
  from effect(1) show ?thesis
  proof (elim disjE conjE)
    assume "view w' = view w"
    then show ?thesis using old synced_cong [OF effect(2)] by simp
  next
    assume gone: "lost services w k" and view: "view w' = set_view k me [] (view w)"
    have "lost services w' k" using gone effect(2) by (simp add: lost_def)
    then show ?thesis
      using lost_source [of w' k rt] view old synced_cong [OF effect(2), of k' rt cfg]
      by (cases "k' = k") (simp_all add: synced_def set_view_apply)
  qed
qed

lemma revoker_syncs:
  assumes cfg: "cfgClusterName cfg = me" "cfgRevoke cfg = revoke" and legal: "legal k"
    and run: "lostServiceRevoker_Reconcile K cfg k w = (None, w')"
    and pass: "revocations_pass K cfg k w" and gone: "lost services w k" and known: "informed view local me w k"
  shows "synced rt cfg w' k"
  using revoker_effect(4) [OF cfg legal run refl pass gone known] lost_source [of w' k rt] gone
    revoker_effect(2) [OF cfg legal run]
  by (simp add: synced_def lost_def)

text \<open>
  A task that succeeded once leaves its service in sync, and nothing that follows undoes it; the
  other clusters lose and gain nothing.
\<close>

lemma controllers_run_effect:
  assumes "controllers_run rt K cfg legal st ts st'" and "go_runtime_ok rt"
    and cfg: "cfgClusterName cfg = me" "cfgExport cfg = export" "cfgRevoke cfg = revoke"
  shows "services (snd st') = services (snd st) \<and> slices (snd st') = slices (snd st) \<and>
    (\<forall>k c. c \<noteq> me \<longrightarrow> view (snd st') k c = view (snd st) k c) \<and>
    (synced rt cfg (snd st) k \<or> for_export services (snd st) k \<and> ExportTask k \<in> set ts \<longrightarrow>
      synced rt cfg (snd st') k) \<and>
    (lost services (snd st) k \<and> informed view local me (snd st) k \<and>
      (synced rt cfg (snd st) k \<or> RevokeTask k \<in> set ts) \<longrightarrow> synced rt cfg (snd st') k)"
  using assms(1)
proof induction
  case (exported k0 ks w ks1 w1 ts st)
  note same = Reconcile_source [OF cfg(2,3) exported.hyps(2)]
  have "\<forall>k c. c \<noteq> me \<longrightarrow> view w1 k c = view w k c"
    using Reconcile_atomic [OF assms(2) cfg exported.hyps(1,2)] by (auto simp: set_view_apply)
  then show ?case
    using exported.IH same export_keeps [OF assms(2) cfg exported.hyps(1,2), of k]
      export_syncs [OF assms(2) cfg exported.hyps(2)] Reconcile_informed [OF assms(2) cfg exported.hyps(1,2), of k]
    by (auto simp: for_export_def lost_def)
next
  case (export_failed k0 ks w e ks1 w1 ts st)
  note same = Reconcile_source [OF cfg(2,3) export_failed.hyps(2)]
  have "\<forall>k c. c \<noteq> me \<longrightarrow> view w1 k c = view w k c"
    using Reconcile_atomic [OF assms(2) cfg export_failed.hyps(1,2)] by (auto simp: set_view_apply)
  then show ?case
    using export_failed.IH same export_keeps [OF assms(2) cfg export_failed.hyps(1,2), of k]
      Reconcile_informed [OF assms(2) cfg export_failed.hyps(1,2), of k]
    by (auto simp: for_export_def lost_def)
next
  case (revoked k0 w w1 ks ts st)
  note effect = revoker_effect [OF cfg(1,3) revoked.hyps(1,2)]
  have "\<forall>k c. c \<noteq> me \<longrightarrow> view w1 k c = view w k c"
    using effect(1) by (auto simp: set_view_apply)
  then show ?case
    using revoked.IH effect(2) effect(3) [of k] revoker_keeps [OF cfg(1,3) revoked.hyps(1,2), of rt k]
      revoker_syncs [OF cfg(1,3) revoked.hyps(1,2,3), of rt]
    by (auto simp: for_export_def lost_def)
next
  case (revoke_failed k0 w r w1 ks ts st)
  note effect = revoker_effect [OF cfg(1,3) revoke_failed.hyps(1,2)]
  have "\<forall>k c. c \<noteq> me \<longrightarrow> view w1 k c = view w k c"
    using effect(1) by (auto simp: set_view_apply)
  then show ?case
    using revoke_failed.IH effect(2) effect(3) [of k] revoker_keeps [OF cfg(1,3) revoke_failed.hyps(1,2), of rt k]
    by (auto simp: for_export_def lost_def)
qed auto

lemma restart_all:
  assumes "go_runtime_ok rt"
    and cfg: "cfgClusterName cfg = me" "cfgExport cfg = export" "cfgRevoke cfg = revoke"
    and run: "controllers_run rt K cfg legal (ks0, w) ts (ks, w')"
    and exports: "\<forall>k. services w k \<noteq> None \<longrightarrow> ExportTask k \<in> set ts"
    and revokes: "\<forall>k. local w k \<noteq> None \<longrightarrow> RevokeTask k \<in> set ts"
    and known: "informed view local me w k" and covered: "for_export services w k \<or> lost services w k"
  shows "source rt cfg services slices w' k = Some (view w' k me)" and "c \<noteq> me \<Longrightarrow> view w' k c = view w k c"
proof -
  note effect = controllers_run_effect [OF run assms(1) cfg, unfolded snd_conv]
  have "synced rt cfg w' k"
  proof (cases "lost services w k")
    case True
    have "synced rt cfg w k \<or> RevokeTask k \<in> set ts"
    proof (cases "local w k")
      case None
      then have "view w k me = []" using known by (simp add: informed_def)
      then show ?thesis using lost_source [OF True] by (simp add: synced_def)
    qed (use revokes in auto)
    then show ?thesis using effect [of k] True known by blast
  next
    case False
    then have "for_export services w k" using covered by blast
    moreover from this have "ExportTask k \<in> set ts" using exports by (auto simp: for_export_def split: option.splits)
    ultimately show ?thesis using effect [of k] by blast
  qed
  then show "source rt cfg services slices w' k = Some (view w' k me)" by (simp add: synced_def)
  show "c \<noteq> me \<Longrightarrow> view w' k c = view w k c" using effect [of k] by blast
qed

end

section \<open>The two modes\<close>

text \<open>In server mode the revoker reads the hub's own services.\<close>

lemma informed_hub: "informed (cluster_view objs) objs me w k"
  by (auto simp: informed_def cluster_view_def filter_empty_conv split: option.splits)

sublocale kube_source \<subseteq> server_pair: two_controllers me "\<lambda>_. True"
  "CreateOrMergeGlobalService (NewGlobalServiceManager K a)"
  "RevokeGlobalService (NewGlobalServiceManager K a)" "cluster_view objs" K services slices objs for me a
  by unfold_locales
    (auto simp: informed_hub dest: get_ok keyed get_missing get_frame get_same get_service_frame list_slices_frame
      intro: cluster_view_objs)

context kube_source begin

lemma two_controllers_axioms_hub:
  "two_controllers me (\<lambda>_. True) (CreateOrMergeGlobalService (NewGlobalServiceManager K a))
    (RevokeGlobalService (NewGlobalServiceManager K a)) (cluster_view objs) K services slices objs"
  by (rule server_pair.two_controllers_axioms)

end

text \<open>
  In client mode it reads the member's own API, where the imported services are, and which exports
  and revocations do not change.
\<close>

lemma two_controllers_client:
  fixes K :: "'w kube" and M :: "'m kube"
  assumes "kube_api K objs nss" and "kube_source M mobjs mnss services slices" and "chi_ok chi" and "json_ok js"
  shows "two_controllers me legal_key
    (\<lambda>g. on_network (client_UploadGlobalService (hub_client_of me url chi (hub_server K a d js)) g))
    (\<lambda>c ns n. on_network (client_DeleteGlobalService (hub_client_of me url chi (hub_server K a d js)) ns n))
    (\<lambda>x. cluster_view objs (hub_of x)) (member_kube M) (\<lambda>x. services (fst x)) (\<lambda>x. slices (fst x)) (\<lambda>x. mobjs (fst x))"
proof (intro two_controllers.intro two_controllers_axioms.intro)
  have api: "kube_api M mobjs mnss" by (rule kube_source.axioms(1) [OF assms(2)])
  let ?export = "\<lambda>g. on_network (client_UploadGlobalService (hub_client_of me url chi (hub_server K a d js)) g)"
  let ?revoke = "\<lambda>c ns n. on_network (client_DeleteGlobalService (hub_client_of me url chi (hub_server K a d js)) ns n)"
  let ?view = "\<lambda>x :: 'm \<times> 'w network. cluster_view objs (hub_of x)" and ?local = "\<lambda>x :: 'm \<times> 'w network. mobjs (fst x)"
  note env = exporter_env_client [OF assms(1) api assms(3,4), of me url a d]
  show "exporter_source me legal_key ?export ?revoke ?view (member_kube M) (\<lambda>x. services (fst x)) (\<lambda>x. slices (fst x))"
    by (rule exporter_source_client [OF assms])
  show "kGetGS (member_kube M) k w = (Inr g, w') \<Longrightarrow> mobjs (fst w) k = Some g \<and> keyFromObject g = k" for k w g w'
    by (auto simp: member_kube_def on_member_def split: prod.splits dest: kube_api.get_ok [OF api] kube_api.keyed [OF api])
  show "kGetGS (member_kube M) k w = (Inl e, w') \<Longrightarrow> IsNotFound e \<Longrightarrow> mobjs (fst w) k = None" for k w e w'
    by (auto simp: member_kube_def on_member_def split: prod.splits dest: kube_api.get_missing [OF api])
  show "kGetGS (member_kube M) k w = (r, w') \<Longrightarrow> ?view w' = ?view w \<and> ?local w' = ?local w \<and>
      services (fst w') = services (fst w) \<and> slices (fst w') = slices (fst w)" for k w r w'
    by (auto simp: member_kube_def on_member_def split: prod.splits dest: kube_api.get_frame [OF api] kube_source.get_same [OF assms(2)])
  show "kGetService (member_kube M) k w = (rs, w') \<Longrightarrow> ?local w' = ?local w" for k w rs w'
    by (auto simp: member_kube_def on_member_def split: prod.splits dest: kube_api.get_service_frame [OF api])
  show "kListSlices (member_kube M) n ls w = (rl, w') \<Longrightarrow> ?local w' = ?local w" for n ls w rl w'
    by (auto simp: member_kube_def on_member_def split: prod.splits dest: kube_api.list_slices_frame [OF api])
  show "?export g w = (r', w') \<Longrightarrow> ?local w' = ?local w \<or> (\<forall>k. informed ?view ?local me w' k)" for g w r' w'
    by (auto simp: on_network_def split: prod.splits)
  fix ns n w r' w' k
  assume call: "?revoke me ns n w = (r', w')" and legal: "legal_key (ObjectKey ns n)" and old: "informed ?view ?local me w k"
  have "?local w' = ?local w" using call by (auto simp: on_network_def split: prod.splits)
  moreover have "?view w' k me = ?view w k me \<or> ?view w' k me = []"
    using export_target.revoke_me_atomic [OF exporter_env.axioms(1) [OF env] call legal] by (auto simp: set_view_apply)
  ultimately show "informed ?view ?local me w' k" using old by (auto simp: informed_def)
qed

lemma kube_source_pair:
  assumes "kube_source K objs nss services slices"
  shows "two_controllers me (\<lambda>_. True) (CreateOrMergeGlobalService (NewGlobalServiceManager K a))
    (RevokeGlobalService (NewGlobalServiceManager K a)) (cluster_view objs) K services slices objs"
  by (rule kube_source.two_controllers_axioms_hub [OF assms])

section \<open>Properties\<close>

text \<open>
  C6 (restart_converges): what a start of the hub's own cluster puts right.  However out of date the
  global services are, once every service went through the exporter and every global service
  through the revoker successfully, in any order and with any failures in between, the cluster has
  in every global service exactly what its service has, and nothing where the service is gone or
  not labelled; the endpoints of the other clusters are as they were.  Labelled services of
  another type than ClusterIP are not covered.
\<close>

theorem restart_converges:
  assumes "kube_source K objs nss services slices" and "go_runtime_ok rt"
    and "controllers_run rt K (server_config K a me z reg) (\<lambda>_. True) (NewObjectKeySet, w) ts (ks, w')"
    and "\<forall>k. services w k \<noteq> None \<longrightarrow> ExportTask k \<in> set ts"
    and "\<forall>k. objs w k \<noteq> None \<longrightarrow> RevokeTask k \<in> set ts"
    and "for_export services w k \<or> lost services w k"
  shows "source rt (server_config K a me z reg) services slices w' k = Some (cluster_view objs w' k me) \<and>
    (\<forall>c. c \<noteq> me \<longrightarrow> cluster_view objs w' k c = cluster_view objs w k c)"
  using two_controllers.restart_all [OF kube_source_pair [OF assms(1)] assms(2) _ _ _ assms(3-5) informed_hub assms(6)]
  by simp

text \<open>
  A start of the cluster \<open>beijing\<close>: its service \<open>nginx\<close> has new endpoints, and the endpoints of a
  service \<open>redis\<close>, deleted while the hub was down, are still there.
\<close>

definition redis_key :: ObjectKey where
  "redis_key = ObjectKey ''default'' ''redis''"

definition restart_world :: memory where
  "restart_world = nginx_hub\<lparr>memGS := beijing\<lparr>gsMeta := sample_meta ''default'' ''redis'' []\<rparr> # memGS nginx_hub\<rparr>"

definition restart_1 :: "go_error option outcome \<times> ObjectKeySet \<times> memory" where
  "restart_1 = Reconcile demo_runtime mem_kube nginx_config nginx_key (NewObjectKeySet, restart_world)"

definition restart_2 :: "go_error option \<times> memory" where
  "restart_2 = lostServiceRevoker_Reconcile mem_kube nginx_config redis_key (snd (snd restart_1))"

definition restart_3 :: "go_error option \<times> memory" where
  "restart_3 = lostServiceRevoker_Reconcile mem_kube nginx_config nginx_key (snd restart_2)"

theorem restart_converges_witness:
  "cluster_view mem_objs (snd restart_3) redis_key ''beijing'' = [] \<and>
   cluster_view mem_objs restart_world redis_key ''beijing'' \<noteq> [] \<and>
   source demo_runtime nginx_config mem_services mem_slices (snd restart_3) nginx_key =
     Some (cluster_view mem_objs (snd restart_3) nginx_key ''beijing'')"
proof -
  let ?ts = "[ExportTask nginx_key, RevokeTask redis_key, RevokeTask nginx_key]"
  have "fst restart_1 = Returned None" by code_simp
  then have 1: "Reconcile demo_runtime mem_kube nginx_config nginx_key (NewObjectKeySet, restart_world) =
      (Returned None, fst (snd restart_1), snd (snd restart_1))" by (metis restart_1_def prod.collapse)
  have "fst restart_2 = None" by code_simp
  then have 2: "lostServiceRevoker_Reconcile mem_kube nginx_config redis_key (snd (snd restart_1)) = (None, snd restart_2)"
    by (metis restart_2_def prod.collapse)
  have "fst restart_3 = None" by code_simp
  then have 3: "lostServiceRevoker_Reconcile mem_kube nginx_config nginx_key (snd restart_2) = (None, snd restart_3)"
    by (metis restart_3_def prod.collapse)
  have pass: "revocations_pass mem_kube nginx_config redis_key (snd (snd restart_1))"
    "revocations_pass mem_kube nginx_config nginx_key (snd restart_2)" by code_simp+
  have run: "controllers_run demo_runtime mem_kube nginx_config (\<lambda>_. True) (NewObjectKeySet, restart_world) ?ts
      (fst (snd restart_1), snd restart_3)"
    by (rule controllers_run.exported [OF TrueI 1 controllers_run.revoked [OF TrueI 2 pass(1)
          controllers_run.revoked [OF TrueI 3 pass(2) controllers_run.stop]]])
  have "memServices restart_world = [nginx_service]" by code_simp
  then have exports: "\<forall>k. mem_services restart_world k \<noteq> None \<longrightarrow> ExportTask k \<in> set ?ts"
    by (auto simp: mem_services_def nginx_service_def sample_meta_def zero_meta_def nginx_key_def split: if_splits)
  have "map keyFromObject (memGS restart_world) = [redis_key, nginx_key]" by code_simp
  then have "keyFromObject ` set (memGS restart_world) = {redis_key, nginx_key}"
    by (metis list.set_map list.simps(15) list.set(1))
  then have revokes: "\<forall>k. mem_objs restart_world k \<noteq> None \<longrightarrow> RevokeTask k \<in> set ?ts"
    by (auto simp: mem_objs_def mem_lookup_def find_Some_iff dest!: nth_mem)
  have cases: "for_export mem_services restart_world nginx_key" "lost mem_services restart_world redis_key" by code_simp+
  note both = restart_converges [OF mem_source.kube_source_axioms demo_runtimes_ok(1) run exports revokes, THEN conjunct1]
  have "source demo_runtime nginx_config mem_services mem_slices (snd restart_3) redis_key = Some []" by code_simp
  with both [of redis_key] cases(2) have "cluster_view mem_objs (snd restart_3) redis_key ''beijing'' = []" by simp
  moreover have "cluster_view mem_objs restart_world redis_key ''beijing'' \<noteq> []" by code_simp
  ultimately show ?thesis using both [of nginx_key] cases(1) by blast
qed

text \<open>
  C7 (restart_converges_client): the same for a member in client mode, over a lossy network.  The
  revoker goes by the services imported into the member's own API, so the import has to be there:
  where the hub has endpoints of the member, the imported service shows one.
\<close>

theorem restart_converges_client:
  fixes K :: "'w kube" and M :: "'m kube"
  assumes "kube_api K objs nss" and "kube_source M mobjs mnss services slices" and "chi_ok chi" and "json_ok js"
    and "go_runtime_ok rt" and "cfg = client_config (hub_client_of me url chi (hub_server K a d js)) me z reg"
    and "controllers_run rt (member_kube M) cfg legal_key (NewObjectKeySet, x) ts (ks, x')"
    and "\<forall>k. services (fst x) k \<noteq> None \<longrightarrow> ExportTask k \<in> set ts"
    and "\<forall>k. mobjs (fst x) k \<noteq> None \<longrightarrow> RevokeTask k \<in> set ts"
    and "informed (\<lambda>x. cluster_view objs (hub_of x)) (\<lambda>x. mobjs (fst x)) me x k"
    and "for_export (\<lambda>x. services (fst x)) x k \<or> lost (\<lambda>x. services (fst x)) x k"
  shows "source rt cfg (\<lambda>x. services (fst x)) (\<lambda>x. slices (fst x)) x' k = Some (cluster_view objs (hub_of x') k me) \<and>
    (\<forall>c. c \<noteq> me \<longrightarrow> cluster_view objs (hub_of x') k c = cluster_view objs (hub_of x) k c)"
  using two_controllers.restart_all [OF two_controllers_client [OF assms(1-4), where url = url and a = a and d = d]
      assms(5) _ _ _ assms(7-11)]
  by (simp add: assms(6) client_config_def)

definition lost_member :: "memory \<times> memory network" where
  "lost_member = (restart_world\<lparr>memServices := []\<rparr>, [Delivered 10, Lost, ReplyLost 20, Delivered 30], NewClusterStore, restart_world)"

abbreviation lost_config :: "(memory \<times> memory network) ExporterConfig" where
  "lost_config \<equiv> client_config (hub_client_of ''beijing'' demo_url std_chi (hub_server mem_kube True 300 demo_json))
     ''beijing'' ''beijing'' ''north''"

text \<open>The member's services are gone; a request and a reply of its revocations are lost on the way.\<close>

definition lost_run :: "ObjectKey list \<Rightarrow> memory \<times> memory network" where
  "lost_run ks = fold (\<lambda>k x. snd (lostServiceRevoker_Reconcile (member_kube mem_kube) lost_config k x)) ks lost_member"

theorem restart_converges_client_witness:
  "cluster_view mem_objs (hub_of (lost_run [redis_key, nginx_key, nginx_key, nginx_key])) nginx_key ''beijing'' = [] \<and>
   cluster_view mem_objs (hub_of lost_member) nginx_key ''beijing'' \<noteq> []"
proof -
  let ?step = "lostServiceRevoker_Reconcile (member_kube mem_kube) lost_config"
  let ?run = "controllers_run demo_runtime (member_kube mem_kube) lost_config legal_key"
  have legal: "legal_key redis_key" "legal_key nginx_key" by code_simp+
  have step: "?step k x = (fst (?step k x), snd (?step k x))" for k x by simp
  have ok: "fst (?step redis_key (lost_run [])) = None"
    "fst (?step nginx_key (lost_run [redis_key, nginx_key, nginx_key])) = None" by code_simp+
  have pass: "revocations_pass (member_kube mem_kube) lost_config redis_key (lost_run [])"
    "revocations_pass (member_kube mem_kube) lost_config nginx_key (lost_run [redis_key, nginx_key, nginx_key])"
    by code_simp+
  have next': "snd (?step k (lost_run ks)) = lost_run (ks @ [k])" for k ks by (simp add: lost_run_def)
  have 1: "?step redis_key (lost_run []) = (None, lost_run [redis_key])"
    using ok(1) next' [of redis_key "[]"] by (simp add: prod_eq_iff)
  have 4: "?step nginx_key (lost_run [redis_key, nginx_key, nginx_key]) = (None, lost_run [redis_key, nginx_key, nginx_key, nginx_key])"
    using ok(2) next' [of nginx_key "[redis_key, nginx_key, nginx_key]"] by (simp add: prod_eq_iff)
  have failed: "?step nginx_key (lost_run [redis_key]) = (fst (?step nginx_key (lost_run [redis_key])), lost_run [redis_key, nginx_key])"
    "?step nginx_key (lost_run [redis_key, nginx_key]) =
      (fst (?step nginx_key (lost_run [redis_key, nginx_key])), lost_run [redis_key, nginx_key, nginx_key])"
    using next' [of nginx_key "[redis_key]"] next' [of nginx_key "[redis_key, nginx_key]"] by (simp_all add: prod_eq_iff)
  have start: "lost_member = lost_run []" by (simp add: lost_run_def)
  note tasks = controllers_run.intros [where rt = demo_runtime and K = "member_kube mem_kube" and cfg = lost_config
      and legal = legal_key]
  have run: "?run (NewObjectKeySet, lost_member) [RevokeTask redis_key, RevokeTask nginx_key]
      (NewObjectKeySet, lost_run [redis_key, nginx_key, nginx_key, nginx_key])"
    unfolding start
    by (rule tasks(4) [OF legal(1) 1 pass(1)], rule tasks(5) [OF legal(2) failed(1)],
        rule tasks(5) [OF legal(2) failed(2)], rule tasks(4) [OF legal(2) 4 pass(2)], rule tasks(1))
  have none: "mem_services (fst lost_member) k = None" for k by (simp add: mem_services_def lost_member_def)
  have "map keyFromObject (memGS (fst lost_member)) = [redis_key, nginx_key]" by code_simp
  then have "keyFromObject ` set (memGS (fst lost_member)) = {redis_key, nginx_key}"
    by (metis list.set_map list.simps(15) list.set(1))
  then have revokes: "\<forall>k. mem_objs (fst lost_member) k \<noteq> None \<longrightarrow>
      RevokeTask k \<in> set [RevokeTask redis_key, RevokeTask nginx_key]"
    by (auto simp: mem_objs_def mem_lookup_def find_Some_iff dest!: nth_mem)
  have known: "informed (\<lambda>x. cluster_view mem_objs (hub_of x)) (\<lambda>x. mem_objs (fst x)) ''beijing'' lost_member nginx_key"
    by code_simp
  have gone: "for_export (\<lambda>x. mem_services (fst x)) lost_member nginx_key \<or> lost (\<lambda>x. mem_services (fst x)) lost_member nginx_key"
    by (simp add: lost_def none)
  have "source demo_runtime lost_config (\<lambda>x. mem_services (fst x)) (\<lambda>x. mem_slices (fst x))
      (lost_run [redis_key, nginx_key, nginx_key, nginx_key]) nginx_key = Some []" by code_simp
  moreover have "cluster_view mem_objs (hub_of lost_member) nginx_key ''beijing'' \<noteq> []" by code_simp
  ultimately show ?thesis
    using restart_converges_client [OF mem.kube_api_axioms mem_source.kube_source_axioms chi_ok_std json_ok_demo
        demo_runtimes_ok(1) refl run _ revokes known gone] none by simp
qed

text \<open>
  C30 (restart_race_leaks): the race a start leaves open.  When the revoker looks at a global service
  while its service is still labelled, and the service is deleted before the exporter has looked at
  it for the first time since the start, neither takes the cluster's endpoints away: the revoker
  saw a labelled service, the exporter does not remember having exported it, and the global
  service does not change, so that the revoker is not called again.
\<close>

theorem restart_race_leaks:
  assumes "kube_source K objs nss services slices" and "go_runtime_ok rt"
    and "services w k = Some svc" and "isGlobalService (omLabels (svcMeta svc))"
    and "lostServiceRevoker_Reconcile K (server_config K a me z reg) k w = (r, w1)"
    and "services w2 k = None" and "cluster_view objs w2 = cluster_view objs w1"
    and "Reconcile rt K (server_config K a me z reg) k (NewObjectKeySet, w2) = (Returned None, ks, w3)"
  shows "cluster_view objs w3 = cluster_view objs w \<and> \<not> Has ks k \<and>
    source rt (server_config K a me z reg) services slices w3 k = Some []"
proof -
  let ?cfg = "server_config K a me z reg"
  note pair = kube_source_pair [OF assms(1), of me a]
  have "\<not> lost services w k" using assms(3,4) by (simp add: lost_def)
  then have 1: "cluster_view objs w1 = cluster_view objs w"
    using two_controllers.revoker_effect(1) [OF pair _ _ _ assms(5)] by simp
  obtain res w2' where get: "kGetService K k w2 = (res, w2')" by force
  have "Inr svc' \<noteq> res" for svc' using kube_source.found [OF assms(1)] get assms(6) by fastforce
  then obtain e where e: "res = Inl e" by (cases res) auto
  have new: "\<not> Has NewObjectKeySet k" by (simp add: keys.has_new)
  have w3: "w3 = w2'" "ks = NewObjectKeySet"
    using assms(8) get e new by (auto simp: Reconcile_def revokeGlobalService_def split: if_splits)
  have "objs w2' = objs w2" by (rule kube_api.get_service_frame [OF kube_source.axioms(1) [OF assms(1)] get])
  then have "cluster_view objs w3 = cluster_view objs w2" unfolding w3(1) by (rule cluster_view_objs)
  moreover have "services w3 k = None" using kube_source.get_service_same [OF assms(1) get] assms(6) w3(1) by simp
  ultimately show ?thesis using 1 assms(7) new w3(2) by (simp add: source_def)
qed

definition race_1 :: "go_error option \<times> memory" where
  "race_1 = lostServiceRevoker_Reconcile mem_kube nginx_config nginx_key nginx_hub"

definition race_2 :: "go_error option outcome \<times> ObjectKeySet \<times> memory" where
  "race_2 = Reconcile demo_runtime mem_kube nginx_config nginx_key (NewObjectKeySet, (snd race_1)\<lparr>memServices := []\<rparr>)"

theorem restart_race_leaks_witness:
  "cluster_view mem_objs (snd (snd race_2)) nginx_key ''beijing'' = endpoints_of beijing"
proof -
  have svc: "mem_services nginx_hub nginx_key = Some nginx_service" by code_simp
  have labelled: "isGlobalService (omLabels (svcMeta nginx_service))" by code_simp
  have 1: "lostServiceRevoker_Reconcile mem_kube nginx_config nginx_key nginx_hub = (fst race_1, snd race_1)"
    by (simp add: race_1_def)
  have gone: "mem_services ((snd race_1)\<lparr>memServices := []\<rparr>) nginx_key = None" by (simp add: mem_services_def)
  have same: "cluster_view mem_objs ((snd race_1)\<lparr>memServices := []\<rparr>) = cluster_view mem_objs (snd race_1)"
    by (simp add: cluster_view_def mem_objs_def fun_eq_iff)
  have "fst race_2 = Returned None" by code_simp
  then have 2: "Reconcile demo_runtime mem_kube nginx_config nginx_key (NewObjectKeySet, (snd race_1)\<lparr>memServices := []\<rparr>)
      = (Returned None, fst (snd race_2), snd (snd race_2))" by (metis race_2_def prod.collapse)
  from restart_race_leaks [OF mem_source.kube_source_axioms demo_runtimes_ok(1) svc labelled 1 gone same 2]
  have "cluster_view mem_objs (snd (snd race_2)) nginx_key ''beijing'' = cluster_view mem_objs nginx_hub nginx_key ''beijing''"
    by simp
  also have "\<dots> = endpoints_of beijing" by code_simp
  finally show ?thesis .
qed

end
