(* ===== verification/ClientMode.thy ===== *)
theory ClientMode
  imports ExportLoop Importer FabDns
begin

text \<open>
  Client mode from end to end: the exporter and the importer of a member above the HTTP client
  of \<open>HubClient\<close>, the network and the server of \<open>ApiServer\<close>, and the DNS plugin above what the
  importer leaves in the member's API.
\<close>

section \<open>A member and its hub\<close>

text \<open>
  A member in client mode: its own API, the network, and the hub behind it.  \<open>link\<close> is its HTTP
  client to a hub served by \<open>ServeHTTP\<close> over the manager of \<open>initAPIServer\<close>.
\<close>

abbreviation link ::
  "string \<Rightarrow> URL \<Rightarrow> chi \<Rightarrow> 'w kube \<Rightarrow> bool \<Rightarrow> time \<Rightarrow> json \<Rightarrow> 'w network hub_client" where
  "link me url chi K a d js \<equiv> hub_client_of me url chi (hub_server K a d js)"

definition client_member ::
  "'m kube \<Rightarrow> 'w network hub_client \<Rightarrow> bool \<Rightarrow> ('m \<times> 'w network) globalServiceImporter" where
  "client_member M c allow = member_of (member_kube M) (on_network (DownloadAllGlobalServices c)) allow"

lemma client_Reconcile_outcome:
  fixes K :: "'w kube" and M :: "'m kube"
  assumes "kube_api K objs nss" and "kube_api M mobjs mnss" and "chi_ok chi" and "json_ok js"
    and "go_runtime_ok rt" and "legal_key k"
    and "Reconcile rt (member_kube M) (client_config (link me url chi K a d js) me z reg) k (ks, x) = (r, ks', x')"
  shows "(cluster_view objs (hub_of x') = cluster_view objs (hub_of x) \<or>
      (\<exists>eps. wanted_endpoints rt (member_kube M) (client_config (link me url chi K a d js) me z reg) k x = Some eps \<and>
        cluster_view objs (hub_of x') = set_view k me eps (cluster_view objs (hub_of x)))) \<and>
    (r = Returned None \<longrightarrow> (Has ks' k \<longleftrightarrow> is_exported (member_kube M) k x) \<and>
      (\<exists>eps. wanted_endpoints rt (member_kube M) (client_config (link me url chi K a d js) me z reg) k x = Some eps \<and>
        (is_exported (member_kube M) k x \<or> eps = []) \<and>
        cluster_view objs (hub_of x') = (if is_exported (member_kube M) k x \<or> Has ks k
          then set_view k me eps (cluster_view objs (hub_of x)) else cluster_view objs (hub_of x))))"
proof -
  let ?cfg = "client_config (link me url chi K a d js) me z reg"
  note env = exporter_env_client [OF assms(1-4), of me url a d]
  have cfg: "cfgClusterName ?cfg = me"
    "cfgExport ?cfg = (\<lambda>g. on_network (client_UploadGlobalService (link me url chi K a d js) g))"
    "cfgRevoke ?cfg = (\<lambda>c ns n. on_network (client_DeleteGlobalService (link me url chi K a d js) ns n))"
    by (simp_all add: client_config_def)
  show ?thesis
    using exporter_env.Reconcile_atomic [OF env assms(5) cfg assms(6,7)]
      exporter_env.Reconcile_success [OF env assms(5) cfg assms(6)] assms(7) by blast
qed

lemma client_Reconcile_sync:
  fixes K :: "'w kube" and M :: "'m kube"
  assumes "kube_api K objs nss" and "kube_api M mobjs mnss" and "chi_ok chi" and "json_ok js"
    and "go_runtime_ok rt" and "legal_key k" and "cluster_view objs (hub_of x) k me \<noteq> [] \<longrightarrow> Has ks k"
    and "Reconcile rt (member_kube M) (client_config (link me url chi K a d js) me z reg) k (ks, x) = (Returned None, ks', x')"
  shows "\<exists>eps. wanted_endpoints rt (member_kube M) (client_config (link me url chi K a d js) me z reg) k x = Some eps \<and>
    cluster_view objs (hub_of x') = set_view k me eps (cluster_view objs (hub_of x))"
proof -
  obtain eps where wanted: "wanted_endpoints rt (member_kube M) (client_config (link me url chi K a d js) me z reg) k x = Some eps"
    and none: "is_exported (member_kube M) k x \<or> eps = []"
    and hub: "cluster_view objs (hub_of x') = (if is_exported (member_kube M) k x \<or> Has ks k
      then set_view k me eps (cluster_view objs (hub_of x)) else cluster_view objs (hub_of x))"
    using client_Reconcile_outcome [OF assms(1-6,8)] by blast
  have "set_view k me eps (cluster_view objs (hub_of x)) = cluster_view objs (hub_of x)"
    if "\<not> (is_exported (member_kube M) k x \<or> Has ks k)"
    by (rule set_view_absorb) (use that none assms(7) in auto)
  with wanted hub show ?thesis by auto
qed

lemma client_download_frame:
  fixes K :: "'w kube"
  assumes "kube_api K objs nss" and "chi_ok chi" and "json_list_ok js"
    and "on_network (DownloadAllGlobalServices (link me url chi K a d js)) x = (Inr services, x1)"
  shows "objs (hub_of x1) = objs (hub_of x)"
proof -
  obtain m ds s w where x: "x = (m, ds, s, w)" by (metis prod_cases4)
  obtain ds1 s1 w1 where
    down: "DownloadAllGlobalServices (link me url chi K a d js) (ds, s, w) = (Inr services, ds1, s1, w1)"
    and x1: "x1 = (m, ds1, s1, w1)"
    using assms(4) x by (auto simp: on_network_def split: prod.splits)
  show ?thesis using download_lists [OF assms(1-3) down] x x1 by auto
qed

lemma client_import_copies:
  fixes K :: "'w kube" and M :: "'m kube"
  assumes "kube_api K objs nss" and "kube_api M mobjs mnss" and "chi_ok chi" and "json_list_ok js"
    and "import_schedule_ok sch"
    and "importServices sch (client_member M (link me url chi K a d js) allow) x = (Inr rs, x')"
    and "set rs \<subseteq> {None}"
  shows "map_option copy_of (mobjs (fst x') k) =
      map_option (import_result (mobjs (fst x) k)) (objs (hub_of x) k)"
proof -
  let ?link = "link me url chi K a d js"
  obtain services x1 where got: "on_network (DownloadAllGlobalServices ?link) x = (Inr services, x1)"
    using assms(6) by (auto simp: importServices_def client_member_def member_of_def split: prod.splits sum.splits)
  obtain m ds s w where x: "x = (m, ds, s, w)" by (metis prod_cases4)
  obtain ds1 s1 w1 where down: "DownloadAllGlobalServices ?link (ds, s, w) = (Inr services, ds1, s1, w1)"
    and x1: "x1 = (m, ds1, s1, w1)"
    using got x by (auto simp: on_network_def split: prod.splits)
  from download_lists [OF assms(1,3,4) down] obtain items where
    services: "services = map clean_meta items" and dist: "distinct (map keyFromObject items)"
    and items: "\<And>g. g \<in> set items \<longleftrightarrow> objs w (keyFromObject g) = Some g" and same: "objs w1 = objs w"
    by metis
  have d: "distinct (map keyFromObject services)"
    using dist by (simp add: services comp_def)
  have "map_option copy_of (mobjs (fst x') k) =
      map_option (import_result (mobjs (fst x) k)) (map_of (map (\<lambda>s. (keyFromObject s, s)) services) k)"
    by (rule kube_api.import_all_ok [OF kube_api_member [OF assms(2)] _ assms(5) _ _ d assms(6,7), where ?w1.0 = x1])
      (simp_all add: client_member_def member_of_def got, simp add: x x1)
  moreover have "map_option (import_result old) (map_of (map (\<lambda>s. (keyFromObject s, s)) services) k) =
      map_option (import_result old) (objs w k)" for old
  proof (cases "objs w k")
    case None
    then have "k \<notin> keyFromObject ` set items" using items by auto
    then show ?thesis using None by (simp add: services map_of_eq_None_iff image_image)
  next
    case (Some g)
    then have key: "keyFromObject g = k" by (rule kube_api.keyed [OF assms(1)])
    then have "g \<in> set items" using items Some by simp
    then have "(k, clean_meta g) \<in> set (map (\<lambda>s. (keyFromObject s, s)) services)"
      using key by (auto simp: services intro!: rev_image_eqI)
    from map_of_is_SomeI [OF _ this] d
    have "map_of (map (\<lambda>s. (keyFromObject s, s)) services) k = Some (clean_meta g)"
      by (simp add: comp_def)
    then show ?thesis using Some by (simp add: import_result_def split: option.split)
  qed
  ultimately show ?thesis using x same by simp
qed

section \<open>From the service of one member to the DNS answers of another\<close>

text \<open>
  A local service that carries the hub's resource version is a copy of the hub's service: the
  importer wrote it, and nobody changed it since.
\<close>

definition honest_copy :: "(ObjectKey \<Rightarrow> GlobalService option) \<Rightarrow> (ObjectKey \<Rightarrow> GlobalService option) \<Rightarrow> ObjectKey \<Rightarrow> bool" where
  "honest_copy hub member k \<longleftrightarrow>
     (case (hub k, member k) of
        (Some g, Some local) \<Rightarrow>
          version local \<noteq> [] \<and> version local = omResourceVersion (gsMeta g) \<longrightarrow> gsSpec local = gsSpec g
      | _ \<Rightarrow> True)"

lemma import_view:
  assumes "map_option copy_of (mobjs w' k) = map_option (import_result (mobjs w k)) (objs h k)"
    and "honest_copy (objs h) (mobjs w) k"
  shows "cluster_view mobjs w' k = cluster_view objs h k"
proof (cases "objs h k")
  case None
  then show ?thesis using assms(1) by (simp add: cluster_view_def fun_eq_iff)
next
  case (Some g)
  then have "snd (import_result (mobjs w k) g) = gsSpec g"
    using assms(2) by (auto simp: import_result_def honest_copy_def copy_of_def split: option.splits)
  moreover obtain g' where g': "mobjs w' k = Some g'" "copy_of g' = import_result (mobjs w k) g"
    using assms(1) Some by auto
  ultimately have "gsSpec g' = gsSpec g" by (metis copy_of_def snd_conv)
  then show ?thesis using Some g'(1) by (simp add: cluster_view_def fun_eq_iff)
qed

lemma records_of_filter:
  "records_of f q P eps = concat (map (generateRecords f q) (filter P eps))"
  by (simp add: records_of_def)

lemma resolve_imported:
  assumes "kube_api N nobjs nnss" and "coredns_laws L" and "Client f = N" and "accepted L f q"
    and "splitDomainName L (qQName q) = name_labels z (ClusterName c s n)"
    and "kGetGS N (ObjectKey n s) w = (res, w1)"
  shows "case res of
      Inr gs \<Rightarrow> ServeDNS L f q (w, ms) = Returned ((RcodeSuccess, None), w1, ms @ [reply_with L q
        (concat (map (generateRecords f q) (cluster_view nobjs w (ObjectKey n s) c)))])
    | Inl e \<Rightarrow> IsNotFound e \<longrightarrow> cluster_view nobjs w (ObjectKey n s) c = [] \<and>
        ServeDNS L f q (w, ms) = Returned (nextOrFailure L f q RcodeNameError errNoItems (w1, ms))"
proof -
  have get: "kGetGS (Client f) (ObjectKey n s) w = (res, w1)" using assms(3,6) by simp
  note serve = coredns_laws.ServeDNS_cluster_service [OF assms(2,4) disjI1 [OF assms(5)] get, of ms]
  show ?thesis
  proof (cases res)
    case (Inl e)
    have "IsNotFound e \<Longrightarrow> nobjs w (ObjectKey n s) = None"
      using kube_api.get_missing [OF assms(1)] assms(6) Inl by blast
    then show ?thesis using serve Inl by (simp add: cluster_view_def)
  next
    case (Inr gs)
    have "nobjs w (ObjectKey n s) = Some gs"
      using kube_api.get_ok [OF assms(1)] assms(6) Inr by blast
    then show ?thesis using serve Inr by (simp add: cluster_view_def records_of_filter)
  qed
qed

end
