(* ===== verification/Memory.thy ===== *)
theory Memory
  imports Apis
begin

text \<open>
  Go structs in memory, for \<open>pkg/apis/v1alpha1/zz_generated.deepcopy.go\<close>: pointers, slices,
  allocation, well typed memory, and the blocks the generator emits for a pointer field and for a
  slice field.  Memory is a list of cells, an address an index; a cell is an array of values of one
  type, and what \<open>new\<close> gives is an array of one element, so that a pointer is an address and an
  index.  The locales \<open>cell_type\<close> and \<open>value_cells\<close> say what a type of cells promises; in them the
  blocks are proved to be deep copies once, for every type.
\<close>

section \<open>Memory\<close>

type_synonym addr = nat
type_synonym ptr = "addr \<times> nat"

record goslice =
  slArray :: addr
  slOffset :: nat
  slLen :: nat

record mEndpoint =
  meAddresses :: "goslice option"
  meHostname :: "ptr option"
  meTargetRef :: "ptr option"
  meCluster :: string
  meZone :: string
  meRegion :: string

record mServicePort =
  mpName :: string
  mpProtocol :: string
  mpAppProtocol :: "ptr option"
  mpPort :: "32 word"

record mGlobalServiceSpec =
  msType :: ServiceType
  msPorts :: "goslice option"
  msEndpoints :: "goslice option"

text \<open>Labels and annotations are maps, so references to a cell.\<close>

record mObjectMeta =
  mmName :: string
  mmNamespace :: string
  mmClusterName :: string
  mmResourceVersion :: string
  mmLabels :: "ptr option"
  mmUID :: string
  mmAnnotations :: "ptr option"

record TypeMeta =
  tmKind :: string
  tmAPIVersion :: string

record mGlobalService =
  mgTypeMeta :: TypeMeta
  mgObjectMeta :: mObjectMeta
  mgSpec :: mGlobalServiceSpec

record mListMeta =
  mlResourceVersion :: string
  mlContinue :: string
  mlRemainingItemCount :: "ptr option"

record mGlobalServiceList =
  mlTypeMeta :: TypeMeta
  mlListMeta :: mListMeta
  mlItems :: "goslice option"

datatype cell =
    Strings "string list"
  | References "ObjectReference list"
  | Maps "(string, string) gomap list"
  | Int64s "64 word list"
  | Ports "mServicePort list"
  | Endpoints "mEndpoint list"
  | Specs "mGlobalServiceSpec list"
  | Services "mGlobalService list"
  | Lists "mGlobalServiceList list"

type_synonym heap = "cell list"
type_synonym cells = "addr \<rightharpoonup> cell"

definition cells :: "heap \<Rightarrow> cells" where
  "cells h a = (if a < length h then Some (h ! a) else None)"

text \<open>What a program does with cells that hold values of one type.\<close>

record 'e kind =
  kdMake :: "'e list \<Rightarrow> cell"
  kdGet :: "cell \<Rightarrow> 'e list option"
  kdZero :: 'e

definition peek :: "'e kind \<Rightarrow> cells \<Rightarrow> ptr \<Rightarrow> 'e option" where
  "peek K m p =
     (case m (fst p) of
        None \<Rightarrow> None
      | Some c \<Rightarrow>
          (case kdGet K c of
             None \<Rightarrow> None
           | Some xs \<Rightarrow> if snd p < length xs then Some (xs ! snd p) else None))"

definition load :: "'e kind \<Rightarrow> ptr \<Rightarrow> heap \<Rightarrow> 'e outcome" where
  "load K p h = (case peek K (cells h) p of None \<Rightarrow> Panicked | Some x \<Rightarrow> Returned x)"

definition store :: "'e kind \<Rightarrow> ptr \<Rightarrow> 'e \<Rightarrow> heap \<Rightarrow> heap outcome" where
  "store K p x h =
     (case cells h (fst p) of
        None \<Rightarrow> Panicked
      | Some c \<Rightarrow>
          (case kdGet K c of
             None \<Rightarrow> Panicked
           | Some xs \<Rightarrow>
               if snd p < length xs then Returned (h[fst p := kdMake K (xs[snd p := x])]) else Panicked))"

text \<open>\<open>new(T)\<close>, \<open>make([]T, n)\<close> and \<open>&s[i]\<close>.\<close>

definition new :: "'e kind \<Rightarrow> heap \<Rightarrow> ptr \<times> heap" where
  "new K h = ((length h, 0), h @ [kdMake K [kdZero K]])"

definition makeSlice :: "'e kind \<Rightarrow> nat \<Rightarrow> heap \<Rightarrow> goslice \<times> heap" where
  "makeSlice K n h = (\<lparr>slArray = length h, slOffset = 0, slLen = n\<rparr>, h @ [kdMake K (replicate n (kdZero K))])"

definition element :: "goslice \<Rightarrow> nat \<Rightarrow> ptr outcome" where
  "element s i = (if i < slLen s then Returned (slArray s, slOffset s + i) else Panicked)"

section \<open>The types of the API\<close>

definition string_kind :: "string kind" where
  "string_kind = \<lparr>kdMake = Strings, kdGet = (\<lambda>c. case c of Strings xs \<Rightarrow> Some xs | _ \<Rightarrow> None), kdZero = []\<rparr>"

definition reference_kind :: "ObjectReference kind" where
  "reference_kind = \<lparr>kdMake = References, kdGet = (\<lambda>c. case c of References xs \<Rightarrow> Some xs | _ \<Rightarrow> None),
     kdZero = \<lparr>refKind = [], refNamespace = [], refName = [], refUID = [], refAPIVersion = [],
       refResourceVersion = [], refFieldPath = []\<rparr>\<rparr>"

definition port_kind :: "mServicePort kind" where
  "port_kind = \<lparr>kdMake = Ports, kdGet = (\<lambda>c. case c of Ports xs \<Rightarrow> Some xs | _ \<Rightarrow> None),
     kdZero = \<lparr>mpName = [], mpProtocol = [], mpAppProtocol = None, mpPort = 0\<rparr>\<rparr>"

definition endpoint_kind :: "mEndpoint kind" where
  "endpoint_kind = \<lparr>kdMake = Endpoints, kdGet = (\<lambda>c. case c of Endpoints xs \<Rightarrow> Some xs | _ \<Rightarrow> None),
     kdZero = \<lparr>meAddresses = None, meHostname = None, meTargetRef = None, meCluster = [], meZone = [], meRegion = []\<rparr>\<rparr>"

definition zero_mspec :: mGlobalServiceSpec where
  "zero_mspec = \<lparr>msType = [], msPorts = None, msEndpoints = None\<rparr>"

definition spec_kind :: "mGlobalServiceSpec kind" where
  "spec_kind = \<lparr>kdMake = Specs, kdGet = (\<lambda>c. case c of Specs xs \<Rightarrow> Some xs | _ \<Rightarrow> None), kdZero = zero_mspec\<rparr>"

definition service_kind :: "mGlobalService kind" where
  "service_kind = \<lparr>kdMake = Services, kdGet = (\<lambda>c. case c of Services xs \<Rightarrow> Some xs | _ \<Rightarrow> None),
     kdZero = \<lparr>mgTypeMeta = \<lparr>tmKind = [], tmAPIVersion = []\<rparr>,
       mgObjectMeta = \<lparr>mmName = [], mmNamespace = [], mmClusterName = [], mmResourceVersion = [], mmLabels = None,
         mmUID = [], mmAnnotations = None\<rparr>,
       mgSpec = zero_mspec\<rparr>\<rparr>"

definition list_kind :: "mGlobalServiceList kind" where
  "list_kind = \<lparr>kdMake = Lists, kdGet = (\<lambda>c. case c of Lists xs \<Rightarrow> Some xs | _ \<Rightarrow> None),
     kdZero = \<lparr>mlTypeMeta = \<lparr>tmKind = [], tmAPIVersion = []\<rparr>,
       mlListMeta = \<lparr>mlResourceVersion = [], mlContinue = [], mlRemainingItemCount = None\<rparr>, mlItems = None\<rparr>\<rparr>"

definition map_kind :: "(string, string) gomap kind" where
  "map_kind = \<lparr>kdMake = Maps, kdGet = (\<lambda>c. case c of Maps xs \<Rightarrow> Some xs | _ \<Rightarrow> None), kdZero = []\<rparr>"

definition int64_kind :: "64 word kind" where
  "int64_kind = \<lparr>kdMake = Int64s, kdGet = (\<lambda>c. case c of Int64s xs \<Rightarrow> Some xs | _ \<Rightarrow> None), kdZero = 0\<rparr>"

section \<open>The blocks of the generated code\<close>

text \<open>The block for a pointer field \<open>F *T\<close>: \<open>*out = new(T); **out = **in\<close> when it is not nil.\<close>

definition copyPointer :: "'e kind \<Rightarrow> ptr option \<Rightarrow> heap \<Rightarrow> (ptr option \<times> heap) outcome" where
  "copyPointer K field h =
     (case field of
        None \<Rightarrow> Returned (None, h)
      | Some src \<Rightarrow>
          (case new K h of
             (out, h1) \<Rightarrow>
               bind_outcome (load K src h1) (\<lambda>x.
               bind_outcome (store K out x h1) (\<lambda>h2. Returned (Some out, h2)))))"

text \<open>
  The block for a slice field: \<open>*out = make([]T, len(*in))\<close>, then for every index
  \<open>(*in)[i].DeepCopyInto(&(*out)[i])\<close>; for strings the built-in \<open>copy\<close>, which assigns the elements.
\<close>

fun copyElements ::
  "'e kind \<Rightarrow> ('e \<Rightarrow> heap \<Rightarrow> ('e \<times> heap) outcome) \<Rightarrow> goslice \<Rightarrow> goslice \<Rightarrow> nat list \<Rightarrow> heap \<Rightarrow> heap outcome" where
  "copyElements K into src out [] h = Returned h"
| "copyElements K into src out (i # is) h =
     bind_outcome (element src i) (\<lambda>p.
     bind_outcome (element out i) (\<lambda>q.
     bind_outcome (load K p h) (\<lambda>x.
     bind_outcome (into x h) (\<lambda>(x', h1).
     bind_outcome (store K q x' h1) (\<lambda>h2. copyElements K into src out is h2)))))"

definition copySlice ::
  "'e kind \<Rightarrow> ('e \<Rightarrow> heap \<Rightarrow> ('e \<times> heap) outcome) \<Rightarrow> goslice option \<Rightarrow> heap \<Rightarrow> (goslice option \<times> heap) outcome" where
  "copySlice K into field h =
     (case field of
        None \<Rightarrow> Returned (None, h)
      | Some src \<Rightarrow>
          (case makeSlice K (slLen src) h of
             (out, h1) \<Rightarrow>
               bind_outcome (copyElements K into src out [0..<slLen src] h1) (\<lambda>h2. Returned (Some out, h2))))"

definition assign :: "'e \<Rightarrow> heap \<Rightarrow> ('e \<times> heap) outcome" where
  "assign x h = Returned (x, h)"

text \<open>The body all the \<open>DeepCopy\<close> methods share: nil for nil, else \<open>new(T)\<close>, copy into it, return it.\<close>

definition deepCopy ::
  "'e kind \<Rightarrow> ('e \<Rightarrow> heap \<Rightarrow> ('e \<times> heap) outcome) \<Rightarrow> ptr option \<Rightarrow> heap \<Rightarrow> (ptr option \<times> heap) outcome" where
  "deepCopy K into receiver h =
     (case receiver of
        None \<Rightarrow> Returned (None, h)
      | Some p \<Rightarrow>
          (case new K h of
             (out, h1) \<Rightarrow>
               bind_outcome (load K p h1) (\<lambda>x.
               bind_outcome (into x h1) (\<lambda>(x', h2).
               bind_outcome (store K out x' h2) (\<lambda>h3. Returned (Some out, h3))))))"

section \<open>Types in memory\<close>

text \<open>
  A pointer is well typed when it points into an array of its type, a slice when its bounds are
  inside one; a heap when every pointer and slice in its cells is.  Which cells can be pointed into
  depends on their type and length only.
\<close>

fun shape :: "cell \<Rightarrow> nat \<times> nat" where
  "shape (Strings xs) = (0, length xs)"
| "shape (References xs) = (1, length xs)"
| "shape (Maps xs) = (2, length xs)"
| "shape (Int64s xs) = (3, length xs)"
| "shape (Ports xs) = (4, length xs)"
| "shape (Endpoints xs) = (5, length xs)"
| "shape (Specs xs) = (6, length xs)"
| "shape (Services xs) = (7, length xs)"
| "shape (Lists xs) = (8, length xs)"

definition same_types :: "cells \<Rightarrow> cells \<Rightarrow> bool" where
  "same_types m m' \<longleftrightarrow> (\<forall>a c. m a = Some c \<longrightarrow> (\<exists>c'. m' a = Some c' \<and> shape c' = shape c))"

definition ptr_ok :: "'e kind \<Rightarrow> cells \<Rightarrow> ptr option \<Rightarrow> bool" where
  "ptr_ok K m p \<longleftrightarrow> (case p of None \<Rightarrow> True | Some q \<Rightarrow> peek K m q \<noteq> None)"

definition backing :: "'e kind \<Rightarrow> cells \<Rightarrow> goslice \<Rightarrow> 'e list option" where
  "backing K m s =
     (case m (slArray s) of
        None \<Rightarrow> None
      | Some c \<Rightarrow>
          (case kdGet K c of
             None \<Rightarrow> None
           | Some xs \<Rightarrow>
               if slOffset s + slLen s \<le> length xs then Some (take (slLen s) (drop (slOffset s) xs)) else None))"

definition slice_ok :: "'e kind \<Rightarrow> cells \<Rightarrow> goslice option \<Rightarrow> bool" where
  "slice_ok K m s \<longleftrightarrow> (case s of None \<Rightarrow> True | Some t \<Rightarrow> backing K m t \<noteq> None)"

definition port_ok :: "cells \<Rightarrow> mServicePort \<Rightarrow> bool" where
  "port_ok m p \<longleftrightarrow> ptr_ok string_kind m (mpAppProtocol p)"

definition endpoint_ok :: "cells \<Rightarrow> mEndpoint \<Rightarrow> bool" where
  "endpoint_ok m e \<longleftrightarrow> slice_ok string_kind m (meAddresses e) \<and> ptr_ok string_kind m (meHostname e) \<and>
     ptr_ok reference_kind m (meTargetRef e)"

definition spec_ok :: "cells \<Rightarrow> mGlobalServiceSpec \<Rightarrow> bool" where
  "spec_ok m s \<longleftrightarrow> slice_ok port_kind m (msPorts s) \<and> slice_ok endpoint_kind m (msEndpoints s)"

definition meta_ok :: "cells \<Rightarrow> mObjectMeta \<Rightarrow> bool" where
  "meta_ok m o' \<longleftrightarrow> ptr_ok map_kind m (mmLabels o') \<and> ptr_ok map_kind m (mmAnnotations o')"

definition service_ok :: "cells \<Rightarrow> mGlobalService \<Rightarrow> bool" where
  "service_ok m g \<longleftrightarrow> meta_ok m (mgObjectMeta g) \<and> spec_ok m (mgSpec g)"

definition list_ok :: "cells \<Rightarrow> mGlobalServiceList \<Rightarrow> bool" where
  "list_ok m l \<longleftrightarrow> ptr_ok int64_kind m (mlRemainingItemCount (mlListMeta l)) \<and> slice_ok service_kind m (mlItems l)"

lemmas value_ok_defs = port_ok_def endpoint_ok_def spec_ok_def meta_ok_def service_ok_def list_ok_def

fun cell_ok :: "cells \<Rightarrow> cell \<Rightarrow> bool" where
  "cell_ok m (Ports xs) = (\<forall>x \<in> set xs. port_ok m x)"
| "cell_ok m (Endpoints xs) = (\<forall>x \<in> set xs. endpoint_ok m x)"
| "cell_ok m (Specs xs) = (\<forall>x \<in> set xs. spec_ok m x)"
| "cell_ok m (Services xs) = (\<forall>x \<in> set xs. service_ok m x)"
| "cell_ok m (Lists xs) = (\<forall>x \<in> set xs. list_ok m x)"
| "cell_ok m _ = True"

definition heap_ok :: "heap \<Rightarrow> bool" where
  "heap_ok h \<longleftrightarrow> (\<forall>c \<in> set h. cell_ok (cells h) c)"

text \<open>What a pointer stands for: nothing, or what it points to.\<close>

definition val_ptr :: "'e kind \<Rightarrow> cells \<Rightarrow> ptr option \<Rightarrow> 'e option option" where
  "val_ptr K m p = (case p of None \<Rightarrow> Some None | Some q \<Rightarrow> map_option Some (peek K m q))"

text \<open>The laws of a type of cells.\<close>

locale cell_type =
  fixes K :: "'e kind"
  assumes get_make: "kdGet K (kdMake K xs) = Some xs"
    and make_get: "kdGet K c = Some xs \<Longrightarrow> c = kdMake K xs"
    and make_shape: "length xs = length ys \<Longrightarrow> shape (kdMake K xs) = shape (kdMake K ys)"
    and get_shape: "shape c' = shape c \<Longrightarrow> kdGet K c = Some xs \<Longrightarrow> \<exists>ys. kdGet K c' = Some ys \<and> length ys = length xs"
begin

lemma peek_mono: "m \<subseteq>\<^sub>m m' \<Longrightarrow> peek K m p = Some x \<Longrightarrow> peek K m' p = Some x"
  by (auto simp: peek_def map_le_def dom_def split: option.splits)

lemma backing_mono: "m \<subseteq>\<^sub>m m' \<Longrightarrow> backing K m s = Some xs \<Longrightarrow> backing K m' s = Some xs"
  by (auto simp: backing_def map_le_def dom_def split: option.splits if_splits)

lemma peek_types: "same_types m m' \<Longrightarrow> peek K m p \<noteq> None \<Longrightarrow> peek K m' p \<noteq> None"
  by (fastforce simp: peek_def same_types_def split: option.splits if_splits dest: get_shape)

lemma backing_types: "same_types m m' \<Longrightarrow> backing K m s \<noteq> None \<Longrightarrow> backing K m' s \<noteq> None"
  by (fastforce simp: backing_def same_types_def split: option.splits if_splits dest: get_shape)

lemma ptr_ok_types: "same_types m m' \<Longrightarrow> ptr_ok K m p \<Longrightarrow> ptr_ok K m' p"
  using peek_types by (auto simp: ptr_ok_def split: option.splits)

lemma slice_ok_types: "same_types m m' \<Longrightarrow> slice_ok K m s \<Longrightarrow> slice_ok K m' s"
  using backing_types by (auto simp: slice_ok_def split: option.splits)

lemma val_ptr_mono: "m \<subseteq>\<^sub>m m' \<Longrightarrow> val_ptr K m p = Some v \<Longrightarrow> val_ptr K m' p = Some v"
  by (auto simp: val_ptr_def peek_mono split: option.splits)

lemma val_ptr_ok: "val_ptr K m p = Some v \<Longrightarrow> ptr_ok K m p"
  by (auto simp: val_ptr_def ptr_ok_def split: option.splits)

end

interpretation string_cells: cell_type string_kind
  by unfold_locales (auto simp: string_kind_def elim: shape.elims split: cell.splits)
interpretation reference_cells: cell_type reference_kind
  by unfold_locales (auto simp: reference_kind_def elim: shape.elims split: cell.splits)

interpretation map_cells: cell_type map_kind
  by unfold_locales (auto simp: map_kind_def elim: shape.elims split: cell.splits)

interpretation int64_cells: cell_type int64_kind
  by unfold_locales (auto simp: int64_kind_def elim: shape.elims split: cell.splits)

interpretation port_cells: cell_type port_kind
  by unfold_locales (auto simp: port_kind_def elim: shape.elims split: cell.splits)

interpretation endpoint_cells: cell_type endpoint_kind
  by unfold_locales (auto simp: endpoint_kind_def elim: shape.elims split: cell.splits)

interpretation spec_cells: cell_type spec_kind
  by unfold_locales (auto simp: spec_kind_def elim: shape.elims split: cell.splits)

interpretation service_cells: cell_type service_kind
  by unfold_locales (auto simp: service_kind_def elim: shape.elims split: cell.splits)

interpretation list_cells: cell_type list_kind
  by unfold_locales (auto simp: list_kind_def elim: shape.elims split: cell.splits)

lemmas ptr_ok_mono =
  string_cells.ptr_ok_types reference_cells.ptr_ok_types map_cells.ptr_ok_types int64_cells.ptr_ok_types

lemmas slice_ok_mono =
  string_cells.slice_ok_types port_cells.slice_ok_types endpoint_cells.slice_ok_types service_cells.slice_ok_types

lemma value_ok_types:
  assumes "same_types m m'"
  shows "port_ok m p \<Longrightarrow> port_ok m' p" and "endpoint_ok m e \<Longrightarrow> endpoint_ok m' e"
    and "spec_ok m s \<Longrightarrow> spec_ok m' s" and "meta_ok m x \<Longrightarrow> meta_ok m' x"
    and "service_ok m g \<Longrightarrow> service_ok m' g" and "list_ok m l \<Longrightarrow> list_ok m' l"
  using ptr_ok_mono [OF assms] slice_ok_mono [OF assms] by (auto simp: value_ok_defs)

lemma cell_ok_types: "same_types m m' \<Longrightarrow> cell_ok m c \<Longrightarrow> cell_ok m' c"
  using value_ok_types by (cases c) auto

section \<open>Growing memory\<close>

definition fresh :: "heap \<Rightarrow> heap \<Rightarrow> cells" where
  "fresh h h' = cells h' |` {length h..}"

definition grows :: "heap \<Rightarrow> heap \<Rightarrow> bool" where
  "grows h h' \<longleftrightarrow> cells h \<subseteq>\<^sub>m cells h' \<and> (heap_ok h \<longrightarrow> heap_ok h')"

lemma dom_cells: "dom (cells h) = {..<length h}"
  by (auto simp: cells_def split: if_splits)

lemma cells_le_length: "cells h \<subseteq>\<^sub>m cells h' \<Longrightarrow> length h \<le> length h'"
  using map_le_implies_dom_le [of "cells h" "cells h'"] by (simp add: dom_cells)

lemma cells_append: "cells h \<subseteq>\<^sub>m cells (h @ h')"
  by (simp add: cells_def map_le_def nth_append dom_def)

lemma cells_new: "cells (h @ [c]) (length h) = Some c"
  by (simp add: cells_def)

lemma map_le_same_types: "m \<subseteq>\<^sub>m m' \<Longrightarrow> same_types m m'"
  by (force simp: same_types_def map_le_def dom_def)

lemma grows_refl [simp]: "grows h h"
  by (simp add: grows_def)

lemma grows_trans: "grows h h1 \<Longrightarrow> grows h1 h2 \<Longrightarrow> grows h h2"
  by (auto simp: grows_def intro: map_le_trans)

lemma grows_length: "grows h h' \<Longrightarrow> length h \<le> length h'"
  by (simp add: grows_def cells_le_length)

lemma fresh_le: "fresh h h' \<subseteq>\<^sub>m cells h'"
  by (auto simp: fresh_def map_le_def restrict_map_def dom_def)

lemma fresh_later: "grows h h1 \<Longrightarrow> fresh h1 h2 \<subseteq>\<^sub>m fresh h h2"
  by (auto simp: fresh_def map_le_def restrict_map_def dom_def dest: grows_length)

lemma fresh_grows: "grows h1 h2 \<Longrightarrow> fresh h h1 \<subseteq>\<^sub>m fresh h h2"
  by (auto simp: fresh_def grows_def map_le_def restrict_map_def dom_def split: if_splits)

text \<open>Adding a cell, and writing a cell with one of the same type and length.\<close>

lemma heap_ok_append:
  assumes "heap_ok h" and "cell_ok (cells h) c"
  shows "heap_ok (h @ [c])"
  using assms cell_ok_types [OF map_le_same_types [OF cells_append]]
  by (auto simp: heap_ok_def)

lemma heap_ok_update:
  assumes "heap_ok h" and "cells h a = Some c" and "shape c' = shape c" and "cell_ok (cells h) c'"
  shows "heap_ok (h[a := c'])"
proof -
  have "same_types (cells h) (cells (h[a := c']))"
    using assms(2,3) by (auto simp: same_types_def cells_def nth_list_update split: if_splits)
  from cell_ok_types [OF this] assms(1,4) show ?thesis
    by (auto simp: heap_ok_def dest: set_update_subset_insert [THEN subsetD])
qed

lemma grows_append: "(heap_ok h \<Longrightarrow> cell_ok (cells h) c) \<Longrightarrow> grows h (h @ [c])"
  by (simp add: grows_def cells_append heap_ok_append)

section \<open>Deep copies\<close>

text \<open>What a slice stands for, element by element; and what a pointer points to.\<close>

definition val_slice :: "'e kind \<Rightarrow> (cells \<Rightarrow> 'e \<Rightarrow> 'v option) \<Rightarrow> cells \<Rightarrow> goslice option \<Rightarrow> 'v list option" where
  "val_slice K f m s =
     (case s of None \<Rightarrow> Some [] | Some t \<Rightarrow> Option.bind (backing K m t) (\<lambda>xs. those (map (f m) xs)))"

definition itself :: "cells \<Rightarrow> 'e \<Rightarrow> 'e option" where
  "itself m x = Some x"

definition val_at :: "'e kind \<Rightarrow> (cells \<Rightarrow> 'e \<Rightarrow> 'v option) \<Rightarrow> cells \<Rightarrow> ptr \<Rightarrow> 'v option" where
  "val_at K f m p = Option.bind (peek K m p) (f m)"

lemma those_map: "those (map f xs) = Some ys \<longleftrightarrow> list_all2 (\<lambda>x y. f x = Some y) xs ys"
  by (induction xs arbitrary: ys) (auto simp: list_all2_Cons1 split: option.splits)

text \<open>
  \<open>deep val into\<close>: the copy succeeds on everything that has a value, changes no cell there was,
  and its result has the same value in the cells that are new alone.
\<close>

definition deep :: "(cells \<Rightarrow> 'm \<Rightarrow> 'v option) \<Rightarrow> ('m \<Rightarrow> heap \<Rightarrow> ('m \<times> heap) outcome) \<Rightarrow> bool" where
  "deep val into \<longleftrightarrow>
     (\<forall>x h v. val (cells h) x = Some v \<longrightarrow>
       (\<exists>x' h'. into x h = Returned (x', h') \<and> grows h h' \<and> val (fresh h h') x' = Some v))"
lemma deepD:
  "deep val into \<Longrightarrow> val (cells h) x = Some v \<Longrightarrow>
    \<exists>x' h'. into x h = Returned (x', h') \<and> grows h h' \<and> val (fresh h h') x' = Some v"
  by (simp add: deep_def)

section \<open>The blocks are deep copies\<close>

locale value_cells = cell_type K for K :: "'e kind" +
  fixes ok :: "cells \<Rightarrow> 'e \<Rightarrow> bool"
    and val :: "cells \<Rightarrow> 'e \<Rightarrow> 'v option"
  assumes ok_make: "cell_ok m (kdMake K xs) \<longleftrightarrow> (\<forall>x \<in> set xs. ok m x)"
    and ok_zero: "ok m (kdZero K)"
    and val_mono: "m \<subseteq>\<^sub>m m' \<Longrightarrow> val m x = Some v \<Longrightarrow> val m' x = Some v"
    and val_ok: "val m x = Some v \<Longrightarrow> ok m x"
begin

lemma val_slice_mono:
  assumes "m \<subseteq>\<^sub>m m'" and "val_slice K val m s = Some vs"
  shows "val_slice K val m' s = Some vs"
proof (cases s)
  case None
  then show ?thesis using assms(2) by (simp add: val_slice_def)
next
  case (Some t)
  then obtain xs where "backing K m t = Some xs" and "list_all2 (\<lambda>x y. val m x = Some y) xs vs"
    using assms(2) by (auto simp: val_slice_def those_map bind_eq_Some_conv)
  then have "backing K m' t = Some xs" and "list_all2 (\<lambda>x y. val m' x = Some y) xs vs"
    using backing_mono [OF assms(1)] val_mono [OF assms(1)] by (auto elim: list_all2_mono)
  then show ?thesis using Some by (simp add: val_slice_def those_map)
qed

lemma val_at_mono: "m \<subseteq>\<^sub>m m' \<Longrightarrow> val_at K val m p = Some v \<Longrightarrow> val_at K val m' p = Some v"
  by (simp add: val_at_def bind_eq_Some_conv) (blast intro: peek_mono val_mono)

lemma val_slice_ok: "val_slice K val m s = Some vs \<Longrightarrow> slice_ok K m s"
  by (auto simp: val_slice_def slice_ok_def bind_eq_Some_conv split: option.splits)

lemma peek_ok: "heap_ok h \<Longrightarrow> peek K (cells h) p = Some x \<Longrightarrow> ok (cells h) x"
  by (auto simp: peek_def heap_ok_def cells_def ok_make split: option.splits if_splits
      dest!: make_get bspec [OF _ nth_mem])

lemma backing_ok: "heap_ok h \<Longrightarrow> backing K (cells h) s = Some xs \<Longrightarrow> x \<in> set xs \<Longrightarrow> ok (cells h) x"
  by (auto simp: backing_def heap_ok_def cells_def ok_make split: option.splits if_splits
      dest!: make_get bspec [OF _ nth_mem] in_set_takeD in_set_dropD)

lemma typed_slice_value:
  assumes "heap_ok h" and "\<And>x. ok (cells h) x \<Longrightarrow> \<exists>v. val (cells h) x = Some v" and "slice_ok K (cells h) s"
  shows "\<exists>vs. val_slice K val (cells h) s = Some vs"
proof (cases s)
  case None
  then show ?thesis by (simp add: val_slice_def)
next
  case (Some t)
  then obtain xs where xs: "backing K (cells h) t = Some xs" using assms(3) by (auto simp: slice_ok_def)
  have "\<forall>x \<in> set xs. val (cells h) x = Some (the (val (cells h) x))"
    using backing_ok [OF assms(1) xs] assms(2) by fastforce
  then have "list_all2 (\<lambda>x y. val (cells h) x = Some y) xs (map (\<lambda>x. the (val (cells h) x)) xs)"
    by (simp add: list_all2_conv_all_nth)
  then show ?thesis using Some xs by (auto simp: val_slice_def those_map)
qed

lemma store_cell:
  assumes "cells h a = Some (kdMake K xs)" and "i < length xs"
  shows "store K (a, i) x h = Returned (h[a := kdMake K (xs[i := x])])"
    and "cells (h[a := kdMake K (xs[i := x])]) a = Some (kdMake K (xs[i := x]))"
    and "b \<noteq> a \<Longrightarrow> cells (h[a := kdMake K (xs[i := x])]) b = cells h b"
    and "heap_ok h \<Longrightarrow> ok (cells h) x \<Longrightarrow> heap_ok (h[a := kdMake K (xs[i := x])])"
proof -
  show "store K (a, i) x h = Returned (h[a := kdMake K (xs[i := x])])"
    using assms by (simp add: store_def get_make)
  show "cells (h[a := kdMake K (xs[i := x])]) a = Some (kdMake K (xs[i := x]))"
    using assms by (auto simp: cells_def split: if_splits)
  show "b \<noteq> a \<Longrightarrow> cells (h[a := kdMake K (xs[i := x])]) b = cells h b"
    by (simp add: cells_def)
  assume "heap_ok h" "ok (cells h) x"
  moreover from this(1) have "\<forall>y \<in> set xs. ok (cells h) y"
    using assms(1) by (auto simp: heap_ok_def cells_def ok_make split: if_splits dest!: bspec [OF _ nth_mem])
  ultimately show "heap_ok (h[a := kdMake K (xs[i := x])])"
    by (intro heap_ok_update [OF _ assms(1)])
      (auto simp: ok_make intro: make_shape dest: set_update_subset_insert [THEN subsetD])
qed

text \<open>\<open>out := new(T)\<close> and the write of \<open>*out\<close> that ends every \<open>DeepCopy\<close>.\<close>

lemma deepCopy_deep:
  assumes into: "deep val into" and v: "val_at K val (cells h) p = Some v"
  shows "\<exists>q h'. deepCopy K into (Some p) h = Returned (Some q, h') \<and> grows h h' \<and> val_at K val (fresh h h') q = Some v"
proof -
  let ?h1 = "h @ [kdMake K [kdZero K]]"
  have g1: "grows h ?h1" by (rule grows_append) (simp add: ok_make ok_zero)
  then have le: "cells h \<subseteq>\<^sub>m cells ?h1" by (simp add: grows_def)
  obtain x where x: "peek K (cells h) p = Some x" "val (cells h) x = Some v"
    using v by (auto simp: val_at_def bind_eq_Some_conv)
  have x1: "peek K (cells ?h1) p = Some x" "val (cells ?h1) x = Some v"
    using peek_mono [OF le x(1)] val_mono [OF le x(2)] .
  then obtain x' h2 where run: "into x ?h1 = Returned (x', h2)" and g2: "grows ?h1 h2"
    and v2: "val (fresh ?h1 h2) x' = Some v"
    using deepD [OF into] by blast
  let ?h3 = "h2[length h := kdMake K [x']]"
  have at: "cells h2 (length h) = Some (kdMake K [kdZero K])"
    using g2 cells_new [of h] by (force simp: grows_def map_le_def dom_def)
  note st = store_cell [OF at, where i = 0 and x = x', simplified]
  have g12: "grows h h2" by (rule grows_trans [OF g1 g2])
  have "cells h \<subseteq>\<^sub>m cells ?h3"
    using g12 st(3) by (auto simp: grows_def map_le_def dom_cells)
  moreover have "heap_ok h \<longrightarrow> heap_ok ?h3"
    using g12 st(4) val_ok [OF val_mono [OF fresh_le v2]] by (auto simp: grows_def)
  moreover have "fresh ?h1 h2 \<subseteq>\<^sub>m fresh h ?h3"
    by (auto simp: fresh_def map_le_def restrict_map_def st(3) split: if_splits)
  from val_mono [OF this v2] have "val_at K val (fresh h ?h3) (length h, 0) = Some v"
    by (simp add: val_at_def peek_def fresh_def st(2) get_make)
  ultimately show ?thesis
    using x1 run st(1) by (intro exI [of _ "(length h, 0)"] exI [of _ ?h3])
      (simp add: deepCopy_def new_def load_def grows_def)
qed

lemma copyPointer_deep: "deep (val_ptr K) (copyPointer K)"
  unfolding deep_def
proof (intro allI impI)
  fix p h v
  assume v: "val_ptr K (cells h) p = Some v"
  show "\<exists>p' h'. copyPointer K p h = Returned (p', h') \<and> grows h h' \<and> val_ptr K (fresh h h') p' = Some v"
  proof (cases p)
    case None
    then show ?thesis using v by (simp add: copyPointer_def val_ptr_def)
  next
    case (Some src)
    then obtain x where x: "peek K (cells h) src = Some x" "v = Some x" using v by (auto simp: val_ptr_def)
    let ?h1 = "h @ [kdMake K [kdZero K]]" and ?h2 = "h @ [kdMake K [x]]"
    have x1: "peek K (cells ?h1) src = Some x" by (rule peek_mono [OF cells_append x(1)])
    have st: "store K (length h, 0) x ?h1 = Returned ?h2"
      using store_cell(1) [OF cells_new, of 0] by simp
    have "grows h ?h2" using peek_ok [OF _ x(1)] by (intro grows_append) (simp add: ok_make)
    moreover have "val_ptr K (fresh h ?h2) (Some (length h, 0)) = Some v"
      by (simp add: val_ptr_def peek_def fresh_def cells_new get_make x(2))
    ultimately show ?thesis
      using Some x1 st by (intro exI [of _ "Some (length h, 0)"] exI [of _ ?h2])
        (simp add: copyPointer_def new_def load_def)
  qed
qed

text \<open>
  The loop over a slice: what it has written so far has its values in cells newer than the array
  made for the copy, which is the only older cell it writes.
\<close>

definition copied :: "heap \<Rightarrow> nat \<Rightarrow> 'v list \<Rightarrow> nat \<Rightarrow> heap \<Rightarrow> bool" where
  "copied h n vs i hh \<longleftrightarrow>
     cells h \<subseteq>\<^sub>m cells hh \<and> (heap_ok h \<longrightarrow> heap_ok hh) \<and> length h < length hh \<and>
     (\<exists>ys. cells hh (length h) = Some (kdMake K ys) \<and> length ys = n \<and>
       (\<forall>j < i. val (cells hh |` {length h<..}) (ys ! j) = Some (vs ! j)))"

lemma copied_step:
  assumes into: "deep val into" and state: "copied h n vs i hh" and "i < n"
    and x: "val (cells hh) x = Some (vs ! i)"
  shows "\<exists>x' h1 h2. into x hh = Returned (x', h1) \<and> store K (length h, i) x' h1 = Returned h2 \<and> copied h n vs (Suc i) h2"
proof -
  obtain ys where ys: "cells hh (length h) = Some (kdMake K ys)" "length ys = n"
    "\<forall>j < i. val (cells hh |` {length h<..}) (ys ! j) = Some (vs ! j)"
    and st: "cells h \<subseteq>\<^sub>m cells hh" "heap_ok h \<longrightarrow> heap_ok hh" "length h < length hh"
    using state by (auto simp: copied_def)
  from deepD [OF into x] obtain x' h1 where run: "into x hh = Returned (x', h1)" and g: "grows hh h1"
    and v: "val (fresh hh h1) x' = Some (vs ! i)" by blast
  have le: "cells hh \<subseteq>\<^sub>m cells h1" using g by (simp add: grows_def)
  have at: "cells h1 (length h) = Some (kdMake K ys)"
    using ys(1) le by (force simp: map_le_def dom_def)
  have i: "i < length ys" using \<open>i < n\<close> ys(2) by simp
  note cell = store_cell [OF at i]
  let ?h2 = "h1[length h := kdMake K (ys[i := x'])]" and ?new = "\<lambda>hh. cells hh |` {length h<..}"
  have new: "?new ?h2 = ?new h1" by (auto simp: restrict_map_def fun_eq_iff cell(3))
  have "?new hh \<subseteq>\<^sub>m ?new h1" using le by (auto simp: map_le_def restrict_map_def dom_def)
  then have old: "val (?new h1) (ys ! j) = Some (vs ! j)" if "j < i" for j
    using ys(3) that val_mono by blast
  have "fresh hh h1 \<subseteq>\<^sub>m ?new h1"
    using st(3) by (auto simp: fresh_def map_le_def restrict_map_def dom_def)
  from val_mono [OF this v] have now: "val (?new h1) x' = Some (vs ! i)" .
  have "cells h \<subseteq>\<^sub>m cells ?h2"
    using map_le_trans [OF st(1) le] cell(3) by (auto simp: map_le_def dom_cells)
  moreover have "heap_ok h \<longrightarrow> heap_ok ?h2"
    using st(2) g cell(4) val_ok [OF val_mono [OF fresh_le v]] by (auto simp: grows_def)
  moreover have "length h < length ?h2" using st(3) grows_length [OF g] by simp
  moreover have "\<forall>j < Suc i. val (?new ?h2) (ys[i := x'] ! j) = Some (vs ! j)"
    using old now i by (auto simp: new less_Suc_eq nth_list_update)
  ultimately have "copied h n vs (Suc i) ?h2"
    using cell(2) ys(2) by (auto simp: copied_def)
  then show ?thesis using run cell(1) by blast
qed

lemma copyElements_copied:
  assumes into: "deep val into"
    and src: "backing K (cells h) s = Some xs" and vs: "list_all2 (\<lambda>x y. val (cells h) x = Some y) xs vs"
    and state: "copied h (slLen s) vs i hh" and i: "i \<le> slLen s"
  shows "\<exists>hh'. copyElements K into s \<lparr>slArray = length h, slOffset = 0, slLen = slLen s\<rparr> [i..<slLen s] hh = Returned hh' \<and>
    copied h (slLen s) vs (slLen s) hh'"
  using i state
proof (induction "slLen s - i" arbitrary: i hh)
  case 0
  then show ?case by simp
next
  case (Suc d)
  then have i: "i < slLen s" by simp
  have le: "cells h \<subseteq>\<^sub>m cells hh" using Suc.prems(2) by (simp add: copied_def)
  have len: "length xs = slLen s"
    using src by (auto simp: backing_def split: option.splits if_splits)
  have "val (cells h) (xs ! i) = Some (vs ! i)" using vs i len by (simp add: list_all2_conv_all_nth)
  then have x: "val (cells hh) (xs ! i) = Some (vs ! i)" by (rule val_mono [OF le])
  have "peek K (cells h) (slArray s, slOffset s + i) = Some (xs ! i)"
    using src i by (auto simp: backing_def peek_def split: option.splits if_splits)
  then have p: "load K (slArray s, slOffset s + i) hh = Returned (xs ! i)"
    using peek_mono [OF le] by (simp add: load_def)
  from copied_step [OF into Suc.prems(2) i x] obtain x' h1 h2 where
    step: "into (xs ! i) hh = Returned (x', h1)" "store K (length h, i) x' h1 = Returned h2"
    and next': "copied h (slLen s) vs (Suc i) h2" by blast
  have "d = slLen s - Suc i" and "Suc i \<le> slLen s" using Suc.hyps(2) i by simp_all
  from Suc.hyps(1) [OF this next'] show ?case
    using i p step by (simp add: upt_conv_Cons element_def)
qed

lemma copySlice_deep:
  assumes into: "deep val into"
  shows "deep (val_slice K val) (copySlice K into)"
  unfolding deep_def
proof (intro allI impI)
  fix s h vs
  assume v: "val_slice K val (cells h) s = Some vs"
  show "\<exists>s' h'. copySlice K into s h = Returned (s', h') \<and> grows h h' \<and> val_slice K val (fresh h h') s' = Some vs"
  proof (cases s)
    case None
    then show ?thesis using v by (simp add: copySlice_def val_slice_def)
  next
    case (Some t)
    then obtain xs where xs: "backing K (cells h) t = Some xs" "list_all2 (\<lambda>x y. val (cells h) x = Some y) xs vs"
      using v by (auto simp: val_slice_def those_map bind_eq_Some_conv)
    let ?out = "\<lparr>slArray = length h, slOffset = 0, slLen = slLen t\<rparr>"
    let ?h1 = "h @ [kdMake K (replicate (slLen t) (kdZero K))]"
    have "grows h ?h1" by (rule grows_append) (simp add: ok_make ok_zero)
    then have "copied h (slLen t) vs 0 ?h1" by (auto simp: copied_def grows_def cells_new)
    from copyElements_copied [OF into xs this] obtain h' where
      run: "copyElements K into t ?out [0..<slLen t] ?h1 = Returned h'" and all: "copied h (slLen t) vs (slLen t) h'"
      by auto
    have len: "length xs = slLen t" "length vs = slLen t"
      using xs by (auto simp: backing_def list_all2_lengthD split: option.splits if_splits dest!: list_all2_lengthD)
    obtain ys where ys: "cells h' (length h) = Some (kdMake K ys)" "length ys = slLen t"
      "\<forall>j < slLen t. val (cells h' |` {length h<..}) (ys ! j) = Some (vs ! j)"
      using all by (auto simp: copied_def)
    have "cells h' |` {length h<..} \<subseteq>\<^sub>m fresh h h'"
      by (auto simp: fresh_def map_le_def restrict_map_def split: if_splits)
    then have "list_all2 (\<lambda>x y. val (fresh h h') x = Some y) ys vs"
      using ys(2,3) len val_mono by (auto simp: list_all2_conv_all_nth)
    moreover have "backing K (fresh h h') ?out = Some ys"
      using ys(1,2) by (simp add: backing_def fresh_def get_make)
    ultimately have "val_slice K val (fresh h h') (Some ?out) = Some vs"
      by (simp add: val_slice_def those_map)
    then show ?thesis
      using run Some all by (intro exI [of _ "Some ?out"] exI [of _ h'])
        (simp add: copySlice_def makeSlice_def grows_def copied_def)
  qed
qed
end

end
