(* ===== verification/DeepCopy.thy ===== *)
theory DeepCopy
  imports Memory
begin

text \<open>
  \<open>pkg/apis/v1alpha1/zz_generated.deepcopy.go\<close>: the deep copies by which an object read from the
  client's cache is made safe to change.  Every other theory takes the objects as values; here they
  are structs in memory, and the copies are shown to stand for the same values in memory of their
  own.  \<open>ObjectMeta.DeepCopyInto\<close> and \<open>ListMeta.DeepCopyInto\<close> of the Kubernetes library are arguments.
\<close>

section \<open>The copies\<close>

text \<open>The two methods of the Kubernetes library.\<close>

record meta_lib =
  objectMetaDeepCopyInto :: "mObjectMeta \<Rightarrow> heap \<Rightarrow> (mObjectMeta \<times> heap) outcome"
  listMetaDeepCopyInto :: "mListMeta \<Rightarrow> heap \<Rightarrow> (mListMeta \<times> heap) outcome"

text \<open>
  \<open>DeepCopyInto\<close> takes what \<open>*in\<close> holds and gives what it leaves in \<open>*out\<close>: \<open>out\<close> starts as a copy of
  \<open>in\<close>, and the fields that are pointers or slices are replaced.  Every caller passes an \<open>out\<close> in
  memory just allocated, so writing it does not change what \<open>in\<close> reads.
\<close>

definition Endpoint_DeepCopyInto :: "mEndpoint \<Rightarrow> heap \<Rightarrow> (mEndpoint \<times> heap) outcome" where
  "Endpoint_DeepCopyInto src h =
     bind_outcome (copySlice string_kind assign (meAddresses src) h) (\<lambda>(addresses, h1).
     bind_outcome (copyPointer string_kind (meHostname src) h1) (\<lambda>(hostname, h2).
     bind_outcome (copyPointer reference_kind (meTargetRef src) h2) (\<lambda>(targetRef, h3).
     Returned (src\<lparr>meAddresses := addresses, meHostname := hostname, meTargetRef := targetRef\<rparr>, h3))))"

definition ServicePort_DeepCopyInto :: "mServicePort \<Rightarrow> heap \<Rightarrow> (mServicePort \<times> heap) outcome" where
  "ServicePort_DeepCopyInto src h =
     bind_outcome (copyPointer string_kind (mpAppProtocol src) h) (\<lambda>(appProtocol, h1).
     Returned (src\<lparr>mpAppProtocol := appProtocol\<rparr>, h1))"

definition GlobalServiceSpec_DeepCopyInto :: "mGlobalServiceSpec \<Rightarrow> heap \<Rightarrow> (mGlobalServiceSpec \<times> heap) outcome" where
  "GlobalServiceSpec_DeepCopyInto src h =
     bind_outcome (copySlice port_kind ServicePort_DeepCopyInto (msPorts src) h) (\<lambda>(ports, h1).
     bind_outcome (copySlice endpoint_kind Endpoint_DeepCopyInto (msEndpoints src) h1) (\<lambda>(endpoints, h2).
     Returned (src\<lparr>msPorts := ports, msEndpoints := endpoints\<rparr>, h2)))"

definition GlobalService_DeepCopyInto ::
  "meta_lib \<Rightarrow> mGlobalService \<Rightarrow> heap \<Rightarrow> (mGlobalService \<times> heap) outcome" where
  "GlobalService_DeepCopyInto L src h =
     bind_outcome (objectMetaDeepCopyInto L (mgObjectMeta src) h) (\<lambda>(meta, h1).
     bind_outcome (GlobalServiceSpec_DeepCopyInto (mgSpec src) h1) (\<lambda>(spec, h2).
     Returned (src\<lparr>mgTypeMeta := mgTypeMeta src, mgObjectMeta := meta, mgSpec := spec\<rparr>, h2)))"

definition GlobalServiceList_DeepCopyInto ::
  "meta_lib \<Rightarrow> mGlobalServiceList \<Rightarrow> heap \<Rightarrow> (mGlobalServiceList \<times> heap) outcome" where
  "GlobalServiceList_DeepCopyInto L src h =
     bind_outcome (listMetaDeepCopyInto L (mlListMeta src) h) (\<lambda>(meta, h1).
     bind_outcome (copySlice service_kind (GlobalService_DeepCopyInto L) (mlItems src) h1) (\<lambda>(items, h2).
     Returned (src\<lparr>mlTypeMeta := mlTypeMeta src, mlListMeta := meta, mlItems := items\<rparr>, h2)))"

definition Endpoint_DeepCopy :: "ptr option \<Rightarrow> heap \<Rightarrow> (ptr option \<times> heap) outcome" where
  "Endpoint_DeepCopy = deepCopy endpoint_kind Endpoint_DeepCopyInto"

definition ServicePort_DeepCopy :: "ptr option \<Rightarrow> heap \<Rightarrow> (ptr option \<times> heap) outcome" where
  "ServicePort_DeepCopy = deepCopy port_kind ServicePort_DeepCopyInto"

definition GlobalServiceSpec_DeepCopy :: "ptr option \<Rightarrow> heap \<Rightarrow> (ptr option \<times> heap) outcome" where
  "GlobalServiceSpec_DeepCopy = deepCopy spec_kind GlobalServiceSpec_DeepCopyInto"

definition GlobalService_DeepCopy :: "meta_lib \<Rightarrow> ptr option \<Rightarrow> heap \<Rightarrow> (ptr option \<times> heap) outcome" where
  "GlobalService_DeepCopy L = deepCopy service_kind (GlobalService_DeepCopyInto L)"

definition GlobalServiceList_DeepCopy :: "meta_lib \<Rightarrow> ptr option \<Rightarrow> heap \<Rightarrow> (ptr option \<times> heap) outcome" where
  "GlobalServiceList_DeepCopy L = deepCopy list_kind (GlobalServiceList_DeepCopyInto L)"

text \<open>
  \<open>DeepCopyObject\<close> returns an interface: a nil pointer must become a nil interface, and not an
  interface that holds a nil pointer.
\<close>

datatype runtime_object = ServiceObject "ptr option" | ListObject "ptr option"

definition GlobalService_DeepCopyObject ::
  "meta_lib \<Rightarrow> ptr option \<Rightarrow> heap \<Rightarrow> (runtime_object option \<times> heap) outcome" where
  "GlobalService_DeepCopyObject L receiver h =
     bind_outcome (GlobalService_DeepCopy L receiver h) (\<lambda>(c, h1).
     Returned (if c \<noteq> None then Some (ServiceObject c) else None, h1))"

definition GlobalServiceList_DeepCopyObject ::
  "meta_lib \<Rightarrow> ptr option \<Rightarrow> heap \<Rightarrow> (runtime_object option \<times> heap) outcome" where
  "GlobalServiceList_DeepCopyObject L receiver h =
     bind_outcome (GlobalServiceList_DeepCopy L receiver h) (\<lambda>(c, h1).
     Returned (if c \<noteq> None then Some (ListObject c) else None, h1))"

section \<open>Values\<close>

text \<open>
  What a struct in memory stands for: the value the rest of the library takes it for, read through
  its pointers and slices; a nil slice is the empty list.
\<close>

definition val_Endpoint :: "cells \<Rightarrow> mEndpoint \<Rightarrow> Endpoint option" where
  "val_Endpoint m e =
     Option.bind (val_slice string_kind itself m (meAddresses e)) (\<lambda>addresses.
     Option.bind (val_ptr string_kind m (meHostname e)) (\<lambda>hostname.
     Option.bind (val_ptr reference_kind m (meTargetRef e)) (\<lambda>targetRef.
     Some \<lparr>epAddresses = addresses, epHostname = hostname, epTargetRef = targetRef,
       epCluster = meCluster e, epZone = meZone e, epRegion = meRegion e\<rparr>)))"

definition val_ServicePort :: "cells \<Rightarrow> mServicePort \<Rightarrow> ServicePort option" where
  "val_ServicePort m p =
     Option.bind (val_ptr string_kind m (mpAppProtocol p)) (\<lambda>appProtocol.
     Some \<lparr>spName = mpName p, spProtocol = mpProtocol p, spAppProtocol = appProtocol, spPort = mpPort p\<rparr>)"

definition val_Spec :: "cells \<Rightarrow> mGlobalServiceSpec \<Rightarrow> GlobalServiceSpec option" where
  "val_Spec m s =
     Option.bind (val_slice port_kind val_ServicePort m (msPorts s)) (\<lambda>ports.
     Option.bind (val_slice endpoint_kind val_Endpoint m (msEndpoints s)) (\<lambda>endpoints.
     Some \<lparr>gsType = msType s, gsPorts = ports, gsEndpoints = endpoints\<rparr>))"

definition val_ObjectMeta :: "cells \<Rightarrow> mObjectMeta \<Rightarrow> ObjectMeta option" where
  "val_ObjectMeta m o' =
     Option.bind (val_ptr map_kind m (mmLabels o')) (\<lambda>ls.
     Option.bind (val_ptr map_kind m (mmAnnotations o')) (\<lambda>as.
     Some \<lparr>omName = mmName o', omNamespace = mmNamespace o', omClusterName = mmClusterName o',
       omResourceVersion = mmResourceVersion o', omLabels = ls, omUID = mmUID o', omAnnotations = as\<rparr>))"

definition val_Service :: "cells \<Rightarrow> mGlobalService \<Rightarrow> (TypeMeta \<times> GlobalService) option" where
  "val_Service m g =
     Option.bind (val_ObjectMeta m (mgObjectMeta g)) (\<lambda>meta.
     Option.bind (val_Spec m (mgSpec g)) (\<lambda>spec.
     Some (mgTypeMeta g, \<lparr>gsMeta = meta, gsSpec = spec\<rparr>)))"

definition val_ListMeta :: "cells \<Rightarrow> mListMeta \<Rightarrow> (string \<times> string \<times> 64 word option) option" where
  "val_ListMeta m l = map_option (\<lambda>r. (mlResourceVersion l, mlContinue l, r)) (val_ptr int64_kind m (mlRemainingItemCount l))"

definition val_List ::
  "cells \<Rightarrow> mGlobalServiceList \<Rightarrow> (TypeMeta \<times> (string \<times> string \<times> 64 word option) \<times> (TypeMeta \<times> GlobalService) list) option" where
  "val_List m l =
     Option.bind (val_ListMeta m (mlListMeta l)) (\<lambda>meta.
     Option.bind (val_slice service_kind val_Service m (mlItems l)) (\<lambda>items.
     Some (mlTypeMeta l, meta, items)))"

section \<open>The copies are deep\<close>

lemmas val_ptr_mono =
  string_cells.val_ptr_mono reference_cells.val_ptr_mono map_cells.val_ptr_mono int64_cells.val_ptr_mono

lemma grows_le: "grows h h' \<Longrightarrow> cells h \<subseteq>\<^sub>m cells h'"
  by (simp add: grows_def)

lemma assign_deep: "deep itself assign"
  by (simp add: deep_def assign_def itself_def)

interpretation strings: value_cells string_kind "\<lambda>_ _. True" itself
  by unfold_locales (auto simp: string_kind_def itself_def)

interpretation references: value_cells reference_kind "\<lambda>_ _. True" itself
  by unfold_locales (auto simp: reference_kind_def itself_def)

interpretation maps: value_cells map_kind "\<lambda>_ _. True" itself
  by unfold_locales (auto simp: map_kind_def itself_def)

interpretation int64s: value_cells int64_kind "\<lambda>_ _. True" itself
  by unfold_locales (auto simp: int64_kind_def itself_def)

lemma ServicePort_deep: "deep val_ServicePort ServicePort_DeepCopyInto"
  unfolding deep_def
proof (intro allI impI)
  fix p h v
  assume "val_ServicePort (cells h) p = Some v"
  then obtain x where v: "val_ptr string_kind (cells h) (mpAppProtocol p) = Some x"
    "v = \<lparr>spName = mpName p, spProtocol = mpProtocol p, spAppProtocol = x, spPort = mpPort p\<rparr>"
    by (auto simp: val_ServicePort_def bind_eq_Some_conv)
  from deepD [OF strings.copyPointer_deep v(1)] obtain q h' where
    "copyPointer string_kind (mpAppProtocol p) h = Returned (q, h')" "grows h h'"
    "val_ptr string_kind (fresh h h') q = Some x" by blast
  then show "\<exists>x' h'. ServicePort_DeepCopyInto p h = Returned (x', h') \<and> grows h h' \<and> val_ServicePort (fresh h h') x' = Some v"
    by (simp add: ServicePort_DeepCopyInto_def val_ServicePort_def v(2))
qed

interpretation ports: value_cells port_kind port_ok val_ServicePort
proof unfold_locales
  fix m m' x v xs
  show "cell_ok m (kdMake port_kind xs) \<longleftrightarrow> (\<forall>x \<in> set xs. port_ok m x)" "port_ok m (kdZero port_kind)"
    by (simp_all add: port_kind_def port_ok_def ptr_ok_def)
  show "m \<subseteq>\<^sub>m m' \<Longrightarrow> val_ServicePort m x = Some v \<Longrightarrow> val_ServicePort m' x = Some v"
    by (auto simp: val_ServicePort_def bind_eq_Some_conv dest: val_ptr_mono)
  show "val_ServicePort m x = Some v \<Longrightarrow> port_ok m x"
    by (auto simp: val_ServicePort_def bind_eq_Some_conv port_ok_def string_cells.val_ptr_ok)
qed

lemma Endpoint_deep: "deep val_Endpoint Endpoint_DeepCopyInto"
  unfolding deep_def
proof (intro allI impI)
  fix e h v
  assume "val_Endpoint (cells h) e = Some v"
  then obtain a n t where a: "val_slice string_kind itself (cells h) (meAddresses e) = Some a"
    and n: "val_ptr string_kind (cells h) (meHostname e) = Some n"
    and t: "val_ptr reference_kind (cells h) (meTargetRef e) = Some t"
    and v: "v = \<lparr>epAddresses = a, epHostname = n, epTargetRef = t, epCluster = meCluster e,
      epZone = meZone e, epRegion = meRegion e\<rparr>"
    by (auto simp: val_Endpoint_def bind_eq_Some_conv)
  from deepD [OF strings.copySlice_deep [OF assign_deep] a] obtain a' h1 where
    1: "copySlice string_kind assign (meAddresses e) h = Returned (a', h1)" "grows h h1"
      "val_slice string_kind itself (fresh h h1) a' = Some a" by blast
  from deepD [OF strings.copyPointer_deep val_ptr_mono(1) [OF grows_le [OF 1(2)] n]] obtain n' h2 where
    2: "copyPointer string_kind (meHostname e) h1 = Returned (n', h2)" "grows h1 h2"
      "val_ptr string_kind (fresh h1 h2) n' = Some n" by blast
  note g2 = grows_trans [OF 1(2) 2(2)]
  from deepD [OF references.copyPointer_deep val_ptr_mono(2) [OF grows_le [OF g2] t]] obtain t' h3 where
    3: "copyPointer reference_kind (meTargetRef e) h2 = Returned (t', h3)" "grows h2 h3"
      "val_ptr reference_kind (fresh h2 h3) t' = Some t" by blast
  have "val_slice string_kind itself (fresh h h3) a' = Some a"
    by (rule strings.val_slice_mono [OF fresh_grows 1(3)]) (rule grows_trans [OF 2(2) 3(2)])
  moreover have "val_ptr string_kind (fresh h h3) n' = Some n"
    by (rule val_ptr_mono(1) [OF map_le_trans [OF fresh_later [OF 1(2)] fresh_grows [OF 3(2)]] 2(3)])
  moreover have "val_ptr reference_kind (fresh h h3) t' = Some t"
    by (rule val_ptr_mono(2) [OF fresh_later [OF g2] 3(3)])
  ultimately show "\<exists>x' h'. Endpoint_DeepCopyInto e h = Returned (x', h') \<and> grows h h' \<and> val_Endpoint (fresh h h') x' = Some v"
    using 1(1) 2(1) 3(1) grows_trans [OF g2 3(2)] by (simp add: Endpoint_DeepCopyInto_def val_Endpoint_def v)
qed

interpretation endpoints: value_cells endpoint_kind endpoint_ok val_Endpoint
proof unfold_locales
  fix m m' x v xs
  show "cell_ok m (kdMake endpoint_kind xs) \<longleftrightarrow> (\<forall>x \<in> set xs. endpoint_ok m x)" "endpoint_ok m (kdZero endpoint_kind)"
    by (simp_all add: endpoint_kind_def endpoint_ok_def ptr_ok_def slice_ok_def)
  show "m \<subseteq>\<^sub>m m' \<Longrightarrow> val_Endpoint m x = Some v \<Longrightarrow> val_Endpoint m' x = Some v"
    by (auto simp: val_Endpoint_def bind_eq_Some_conv dest: val_ptr_mono strings.val_slice_mono)
  show "val_Endpoint m x = Some v \<Longrightarrow> endpoint_ok m x"
    by (auto simp: val_Endpoint_def bind_eq_Some_conv endpoint_ok_def string_cells.val_ptr_ok
        reference_cells.val_ptr_ok strings.val_slice_ok)
qed

lemma GlobalServiceSpec_deep: "deep val_Spec GlobalServiceSpec_DeepCopyInto"
  unfolding deep_def
proof (intro allI impI)
  fix s h v
  assume "val_Spec (cells h) s = Some v"
  then obtain ps es where p: "val_slice port_kind val_ServicePort (cells h) (msPorts s) = Some ps"
    and e: "val_slice endpoint_kind val_Endpoint (cells h) (msEndpoints s) = Some es"
    and v: "v = \<lparr>gsType = msType s, gsPorts = ps, gsEndpoints = es\<rparr>"
    by (auto simp: val_Spec_def bind_eq_Some_conv)
  from deepD [OF ports.copySlice_deep [OF ServicePort_deep] p] obtain ps' h1 where
    1: "copySlice port_kind ServicePort_DeepCopyInto (msPorts s) h = Returned (ps', h1)" "grows h h1"
      "val_slice port_kind val_ServicePort (fresh h h1) ps' = Some ps" by blast
  from deepD [OF endpoints.copySlice_deep [OF Endpoint_deep] endpoints.val_slice_mono [OF grows_le [OF 1(2)] e]]
  obtain es' h2 where
    2: "copySlice endpoint_kind Endpoint_DeepCopyInto (msEndpoints s) h1 = Returned (es', h2)" "grows h1 h2"
      "val_slice endpoint_kind val_Endpoint (fresh h1 h2) es' = Some es" by blast
  have "val_slice port_kind val_ServicePort (fresh h h2) ps' = Some ps"
    by (rule ports.val_slice_mono [OF fresh_grows [OF 2(2)] 1(3)])
  moreover have "val_slice endpoint_kind val_Endpoint (fresh h h2) es' = Some es"
    by (rule endpoints.val_slice_mono [OF fresh_later [OF 1(2)] 2(3)])
  ultimately show "\<exists>x' h'. GlobalServiceSpec_DeepCopyInto s h = Returned (x', h') \<and> grows h h' \<and> val_Spec (fresh h h') x' = Some v"
    using 1(1) 2(1) grows_trans [OF 1(2) 2(2)] by (simp add: GlobalServiceSpec_DeepCopyInto_def val_Spec_def v)
qed

interpretation specs: value_cells spec_kind spec_ok val_Spec
proof unfold_locales
  fix m m' x v xs
  show "cell_ok m (kdMake spec_kind xs) \<longleftrightarrow> (\<forall>x \<in> set xs. spec_ok m x)" "spec_ok m (kdZero spec_kind)"
    by (simp_all add: spec_kind_def zero_mspec_def spec_ok_def slice_ok_def)
  show "m \<subseteq>\<^sub>m m' \<Longrightarrow> val_Spec m x = Some v \<Longrightarrow> val_Spec m' x = Some v"
    by (auto simp: val_Spec_def bind_eq_Some_conv dest: ports.val_slice_mono endpoints.val_slice_mono)
  show "val_Spec m x = Some v \<Longrightarrow> spec_ok m x"
    by (auto simp: val_Spec_def bind_eq_Some_conv spec_ok_def ports.val_slice_ok endpoints.val_slice_ok)
qed

lemma val_ObjectMeta_mono:
  "m \<subseteq>\<^sub>m m' \<Longrightarrow> val_ObjectMeta m o' = Some v \<Longrightarrow> val_ObjectMeta m' o' = Some v"
  by (auto simp: val_ObjectMeta_def bind_eq_Some_conv dest: val_ptr_mono)

lemma val_ListMeta_mono: "m \<subseteq>\<^sub>m m' \<Longrightarrow> val_ListMeta m l = Some v \<Longrightarrow> val_ListMeta m' l = Some v"
  by (auto simp: val_ListMeta_def dest: val_ptr_mono)

interpretation services: value_cells service_kind service_ok val_Service
proof unfold_locales
  fix m m' x v xs
  show "cell_ok m (kdMake service_kind xs) \<longleftrightarrow> (\<forall>x \<in> set xs. service_ok m x)" "service_ok m (kdZero service_kind)"
    by (simp_all add: service_kind_def zero_mspec_def value_ok_defs ptr_ok_def slice_ok_def)
  show "m \<subseteq>\<^sub>m m' \<Longrightarrow> val_Service m x = Some v \<Longrightarrow> val_Service m' x = Some v"
    by (auto simp: val_Service_def bind_eq_Some_conv dest: val_ObjectMeta_mono specs.val_mono)
  show "val_Service m x = Some v \<Longrightarrow> service_ok m x"
    by (auto simp: val_Service_def val_ObjectMeta_def bind_eq_Some_conv service_ok_def meta_ok_def
        map_cells.val_ptr_ok specs.val_ok)
qed

interpretation lists: value_cells list_kind list_ok val_List
proof unfold_locales
  fix m m' x v xs
  show "cell_ok m (kdMake list_kind xs) \<longleftrightarrow> (\<forall>x \<in> set xs. list_ok m x)" "list_ok m (kdZero list_kind)"
    by (simp_all add: list_kind_def list_ok_def ptr_ok_def slice_ok_def)
  show "m \<subseteq>\<^sub>m m' \<Longrightarrow> val_List m x = Some v \<Longrightarrow> val_List m' x = Some v"
    by (auto simp: val_List_def bind_eq_Some_conv dest: val_ListMeta_mono services.val_slice_mono)
  show "val_List m x = Some v \<Longrightarrow> list_ok m x"
    by (auto simp: val_List_def val_ListMeta_def bind_eq_Some_conv list_ok_def int64_cells.val_ptr_ok
        services.val_slice_ok)
qed

section \<open>Services and lists of services\<close>

text \<open>
  What the two methods of the Kubernetes library promise: they are deep copies themselves.  The
  instance copies the maps and the pointer of the fields modelled here.
\<close>

locale meta_copies =
  fixes L :: meta_lib
  assumes object_meta: "deep val_ObjectMeta (objectMetaDeepCopyInto L)"
    and list_meta: "deep val_ListMeta (listMetaDeepCopyInto L)"
begin

lemma GlobalService_deep: "deep val_Service (GlobalService_DeepCopyInto L)"
  unfolding deep_def
proof (intro allI impI)
  fix g h v
  assume "val_Service (cells h) g = Some v"
  then obtain m s where m: "val_ObjectMeta (cells h) (mgObjectMeta g) = Some m"
    and s: "val_Spec (cells h) (mgSpec g) = Some s" and v: "v = (mgTypeMeta g, \<lparr>gsMeta = m, gsSpec = s\<rparr>)"
    by (auto simp: val_Service_def bind_eq_Some_conv)
  from deepD [OF object_meta m] obtain m' h1 where
    1: "objectMetaDeepCopyInto L (mgObjectMeta g) h = Returned (m', h1)" "grows h h1"
      "val_ObjectMeta (fresh h h1) m' = Some m" by blast
  from deepD [OF GlobalServiceSpec_deep specs.val_mono [OF grows_le [OF 1(2)] s]] obtain s' h2 where
    2: "GlobalServiceSpec_DeepCopyInto (mgSpec g) h1 = Returned (s', h2)" "grows h1 h2"
      "val_Spec (fresh h1 h2) s' = Some s" by blast
  have "val_ObjectMeta (fresh h h2) m' = Some m"
    by (rule val_ObjectMeta_mono [OF fresh_grows [OF 2(2)] 1(3)])
  moreover have "val_Spec (fresh h h2) s' = Some s"
    by (rule specs.val_mono [OF fresh_later [OF 1(2)] 2(3)])
  ultimately show "\<exists>x' h'. GlobalService_DeepCopyInto L g h = Returned (x', h') \<and> grows h h' \<and> val_Service (fresh h h') x' = Some v"
    using 1(1) 2(1) grows_trans [OF 1(2) 2(2)] by (simp add: GlobalService_DeepCopyInto_def val_Service_def v)
qed

lemma GlobalServiceList_deep: "deep val_List (GlobalServiceList_DeepCopyInto L)"
  unfolding deep_def
proof (intro allI impI)
  fix l h v
  assume "val_List (cells h) l = Some v"
  then obtain m s where m: "val_ListMeta (cells h) (mlListMeta l) = Some m"
    and s: "val_slice service_kind val_Service (cells h) (mlItems l) = Some s" and v: "v = (mlTypeMeta l, m, s)"
    by (auto simp: val_List_def bind_eq_Some_conv)
  from deepD [OF list_meta m] obtain m' h1 where
    1: "listMetaDeepCopyInto L (mlListMeta l) h = Returned (m', h1)" "grows h h1"
      "val_ListMeta (fresh h h1) m' = Some m" by blast
  from deepD [OF services.copySlice_deep [OF GlobalService_deep] services.val_slice_mono [OF grows_le [OF 1(2)] s]]
  obtain s' h2 where
    2: "copySlice service_kind (GlobalService_DeepCopyInto L) (mlItems l) h1 = Returned (s', h2)" "grows h1 h2"
      "val_slice service_kind val_Service (fresh h1 h2) s' = Some s" by blast
  have "val_ListMeta (fresh h h2) m' = Some m"
    by (rule val_ListMeta_mono [OF fresh_grows [OF 2(2)] 1(3)])
  moreover have "val_slice service_kind val_Service (fresh h h2) s' = Some s"
    by (rule services.val_slice_mono [OF fresh_later [OF 1(2)] 2(3)])
  ultimately show "\<exists>x' h'. GlobalServiceList_DeepCopyInto L l h = Returned (x', h') \<and> grows h h' \<and> val_List (fresh h h') x' = Some v"
    using 1(1) 2(1) grows_trans [OF 1(2) 2(2)] by (simp add: GlobalServiceList_DeepCopyInto_def val_List_def v)
qed

end

definition std_meta :: meta_lib where
  "std_meta =
     \<lparr>objectMetaDeepCopyInto = (\<lambda>src h.
        bind_outcome (copyPointer map_kind (mmLabels src) h) (\<lambda>(ls, h1).
        bind_outcome (copyPointer map_kind (mmAnnotations src) h1) (\<lambda>(as, h2).
        Returned (src\<lparr>mmLabels := ls, mmAnnotations := as\<rparr>, h2)))),
      listMetaDeepCopyInto = (\<lambda>src h.
        bind_outcome (copyPointer int64_kind (mlRemainingItemCount src) h) (\<lambda>(n, h1).
        Returned (src\<lparr>mlRemainingItemCount := n\<rparr>, h1)))\<rparr>"

interpretation std_copies: meta_copies std_meta
proof unfold_locales
  show "deep val_ObjectMeta (objectMetaDeepCopyInto std_meta)"
    unfolding deep_def
  proof (intro allI impI)
    fix o' h v
    assume "val_ObjectMeta (cells h) o' = Some v"
    then obtain x y where x: "val_ptr map_kind (cells h) (mmLabels o') = Some x"
      and y: "val_ptr map_kind (cells h) (mmAnnotations o') = Some y"
      and v: "v = \<lparr>omName = mmName o', omNamespace = mmNamespace o', omClusterName = mmClusterName o',
        omResourceVersion = mmResourceVersion o', omLabels = x, omUID = mmUID o', omAnnotations = y\<rparr>"
      by (auto simp: val_ObjectMeta_def bind_eq_Some_conv)
    from deepD [OF maps.copyPointer_deep x] obtain x' h1 where
      1: "copyPointer map_kind (mmLabels o') h = Returned (x', h1)" "grows h h1"
        "val_ptr map_kind (fresh h h1) x' = Some x" by blast
    from deepD [OF maps.copyPointer_deep val_ptr_mono(3) [OF grows_le [OF 1(2)] y]] obtain y' h2 where
      2: "copyPointer map_kind (mmAnnotations o') h1 = Returned (y', h2)" "grows h1 h2"
        "val_ptr map_kind (fresh h1 h2) y' = Some y" by blast
    have "val_ptr map_kind (fresh h h2) x' = Some x" by (rule val_ptr_mono(3) [OF fresh_grows [OF 2(2)] 1(3)])
    moreover have "val_ptr map_kind (fresh h h2) y' = Some y" by (rule val_ptr_mono(3) [OF fresh_later [OF 1(2)] 2(3)])
    ultimately show "\<exists>x' h'. objectMetaDeepCopyInto std_meta o' h = Returned (x', h') \<and> grows h h' \<and>
        val_ObjectMeta (fresh h h') x' = Some v"
      using 1(1) 2(1) grows_trans [OF 1(2) 2(2)] by (simp add: std_meta_def val_ObjectMeta_def v)
  qed
  show "deep val_ListMeta (listMetaDeepCopyInto std_meta)"
    unfolding deep_def
  proof (intro allI impI)
    fix l h v
    assume "val_ListMeta (cells h) l = Some v"
    then obtain x where x: "val_ptr int64_kind (cells h) (mlRemainingItemCount l) = Some x"
      "v = (mlResourceVersion l, mlContinue l, x)" by (auto simp: val_ListMeta_def)
    from deepD [OF int64s.copyPointer_deep x(1)] obtain x' h1 where
      "copyPointer int64_kind (mlRemainingItemCount l) h = Returned (x', h1)" "grows h h1"
      "val_ptr int64_kind (fresh h h1) x' = Some x" by blast
    then show "\<exists>x' h'. listMetaDeepCopyInto std_meta l h = Returned (x', h') \<and> grows h h' \<and>
        val_ListMeta (fresh h h') x' = Some v"
      by (simp add: std_meta_def val_ListMeta_def x(2))
  qed
qed

section \<open>What is well typed has a value\<close>

lemma typed_ptr_value: "ptr_ok K m p \<Longrightarrow> \<exists>v. val_ptr K m p = Some v"
  by (auto simp: ptr_ok_def val_ptr_def split: option.splits)

lemma typed_values:
  assumes "heap_ok h"
  shows "port_ok (cells h) p \<Longrightarrow> \<exists>v. val_ServicePort (cells h) p = Some v"
    and "endpoint_ok (cells h) e \<Longrightarrow> \<exists>v. val_Endpoint (cells h) e = Some v"
    and "meta_ok (cells h) m \<Longrightarrow> \<exists>v. val_ObjectMeta (cells h) m = Some v"
    and "spec_ok (cells h) s \<Longrightarrow> \<exists>v. val_Spec (cells h) s = Some v"
    and "service_ok (cells h) g \<Longrightarrow> \<exists>v. val_Service (cells h) g = Some v"
    and "list_ok (cells h) l \<Longrightarrow> \<exists>v. val_List (cells h) l = Some v"
proof -
  show p: "\<exists>v. val_ServicePort (cells h) p = Some v" if "port_ok (cells h) p" for p
    using that typed_ptr_value by (fastforce simp: val_ServicePort_def port_ok_def)
  show e: "\<exists>v. val_Endpoint (cells h) e = Some v" if "endpoint_ok (cells h) e" for e
  proof -
    have "\<exists>v. val_slice string_kind itself (cells h) (meAddresses e) = Some v"
      using that by (intro strings.typed_slice_value [OF assms]) (auto simp: endpoint_ok_def itself_def)
    then show ?thesis
      using that typed_ptr_value [of string_kind "cells h" "meHostname e"]
        typed_ptr_value [of reference_kind "cells h" "meTargetRef e"]
      by (auto simp: val_Endpoint_def endpoint_ok_def)
  qed
  show m: "\<exists>v. val_ObjectMeta (cells h) m = Some v" if "meta_ok (cells h) m" for m
    using that typed_ptr_value [of map_kind "cells h" "mmLabels m"]
      typed_ptr_value [of map_kind "cells h" "mmAnnotations m"]
    by (auto simp: val_ObjectMeta_def meta_ok_def)
  show s: "\<exists>v. val_Spec (cells h) s = Some v" if "spec_ok (cells h) s" for s
    using that ports.typed_slice_value [OF assms p, of "msPorts s"]
      endpoints.typed_slice_value [OF assms e, of "msEndpoints s"]
    by (auto simp: val_Spec_def spec_ok_def)
  show g: "\<exists>v. val_Service (cells h) g = Some v" if "service_ok (cells h) g" for g
    using that m [of "mgObjectMeta g"] s [of "mgSpec g"] by (auto simp: val_Service_def service_ok_def)
  show "\<exists>v. val_List (cells h) l = Some v" if "list_ok (cells h) l"
    using that services.typed_slice_value [OF assms g, of "mlItems l"]
      typed_ptr_value [of int64_kind "cells h" "mlRemainingItemCount (mlListMeta l)"]
    by (auto simp: val_List_def val_ListMeta_def list_ok_def)
qed

section \<open>Properties\<close>

text \<open>A copy and its original in the terms of what others may do to memory afterwards.\<close>

lemma deepCopy_independent:
  assumes "value_cells K ok val" and "deep val into" and "val_at K val (cells h) p = Some v"
  shows "\<exists>q h'. deepCopy K into (Some p) h = Returned (Some q, h') \<and>
    (\<forall>m. (\<forall>a \<ge> length h. m a = cells h' a) \<longrightarrow> val_at K val m q = Some v) \<and>
    (\<forall>m. (\<forall>a < length h. m a = cells h' a) \<longrightarrow> val_at K val m p = Some v)"
proof -
  obtain q h' where run: "deepCopy K into (Some p) h = Returned (Some q, h')" and g: "grows h h'"
    and q: "val_at K val (fresh h h') q = Some v"
    using value_cells.deepCopy_deep [OF assms] by blast
  have "val_at K val m q = Some v" if "\<forall>a \<ge> length h. m a = cells h' a" for m
    by (rule value_cells.val_at_mono [OF assms(1) _ q])
      (use that in \<open>auto simp: fresh_def map_le_def restrict_map_def split: if_splits\<close>)
  moreover have "val_at K val m p = Some v" if "\<forall>a < length h. m a = cells h' a" for m
    by (rule value_cells.val_at_mono [OF assms(1) _ assms(3)])
      (use that g in \<open>auto simp: grows_def map_le_def dom_cells\<close>)
  ultimately show ?thesis using run by blast
qed

text \<open>
  C20 (DeepCopy_independent): the deep copy of a \<open>GlobalService\<close> stands for the same value as the
  original, and the two share no memory: whatever happens to the cells there were before, the copy
  keeps its value, and whatever happens to the cells made since, so does the original.
\<close>

theorem DeepCopy_independent:
  assumes "meta_copies L" and "val_at service_kind val_Service (cells h) p = Some v"
  shows "\<exists>q h'. GlobalService_DeepCopy L (Some p) h = Returned (Some q, h') \<and>
    (\<forall>m. (\<forall>a \<ge> length h. m a = cells h' a) \<longrightarrow> val_at service_kind val_Service m q = Some v) \<and>
    (\<forall>m. (\<forall>a < length h. m a = cells h' a) \<longrightarrow> val_at service_kind val_Service m p = Some v)"
  unfolding GlobalService_DeepCopy_def
  by (rule deepCopy_independent [OF services.value_cells_axioms meta_copies.GlobalService_deep [OF assms(1)] assms(2)])

text \<open>
  A service in memory whose endpoint takes its host name from the array of its addresses, so that
  the struct shares memory with itself; and a list of it.
\<close>

definition demo_heap :: heap where
  "demo_heap =
     [Strings [''192.168.1.1'', ''nginx-0''],
      Endpoints [\<lparr>meAddresses = Some \<lparr>slArray = 0, slOffset = 0, slLen = 1\<rparr>, meHostname = Some (0, 1),
        meTargetRef = None, meCluster = ''beijing'', meZone = ''beijing'', meRegion = ''north''\<rparr>],
      Maps [[(KeyCreatedBy, AppServiceHub)]],
      Services [\<lparr>mgTypeMeta = \<lparr>tmKind = ''GlobalService'', tmAPIVersion = ''dns.fabedge.io/v1alpha1''\<rparr>,
        mgObjectMeta = \<lparr>mmName = ''nginx'', mmNamespace = ''default'', mmClusterName = [],
          mmResourceVersion = ''7'', mmLabels = Some (2, 0), mmUID = [], mmAnnotations = None\<rparr>,
        mgSpec = \<lparr>msType = Headless, msPorts = None,
          msEndpoints = Some \<lparr>slArray = 1, slOffset = 0, slLen = 1\<rparr>\<rparr>\<rparr>],
      Lists [\<lparr>mlTypeMeta = \<lparr>tmKind = ''GlobalServiceList'', tmAPIVersion = ''dns.fabedge.io/v1alpha1''\<rparr>,
        mlListMeta = \<lparr>mlResourceVersion = ''9'', mlContinue = [], mlRemainingItemCount = None\<rparr>,
        mlItems = Some \<lparr>slArray = 3, slOffset = 0, slLen = 1\<rparr>\<rparr>]]"

definition demo_copy :: "ptr option \<times> heap" where
  "demo_copy = (case GlobalService_DeepCopy std_meta (Some (3, 0)) demo_heap of
     Returned x \<Rightarrow> x | Panicked \<Rightarrow> (None, []))"

theorem DeepCopy_independent_witness:
  "val_at service_kind val_Service (\<lambda>a. if a < 5 then None else cells (snd demo_copy) a) (the (fst demo_copy))
     = val_at service_kind val_Service (cells demo_heap) (3, 0) \<and>
   val_at service_kind val_Service (cells demo_heap) (3, 0) \<noteq> None"
proof -
  let ?m = "\<lambda>a. if a < 5 then None else cells (snd demo_copy) a"
  have "val_at service_kind val_Service (cells demo_heap) (3, 0) \<noteq> None" by code_simp
  then obtain v where v: "val_at service_kind val_Service (cells demo_heap) (3, 0) = Some v" by blast
  have run: "GlobalService_DeepCopy std_meta (Some (3, 0)) demo_heap = Returned demo_copy" by code_simp
  have len: "length demo_heap = 5" by code_simp
  from DeepCopy_independent [OF std_copies.meta_copies_axioms v] obtain q h' where
    q: "GlobalService_DeepCopy std_meta (Some (3, 0)) demo_heap = Returned (Some q, h')"
    and all: "\<forall>m. (\<forall>a \<ge> length demo_heap. m a = cells h' a) \<longrightarrow> val_at service_kind val_Service m q = Some v"
    by blast
  have copy: "demo_copy = (Some q, h')" using run q by simp
  have "\<forall>a \<ge> length demo_heap. ?m a = cells h' a" by (simp add: len copy)
  then have "val_at service_kind val_Service ?m q = Some v" by (rule all [THEN spec, THEN mp])
  then show ?thesis using v by (simp add: copy)
qed

text \<open>
  C21 (DeepCopyList_typed): in a well typed memory the deep copy of a well typed list of services,
  or of nil, does not panic; it leaves the memory well typed and gives a well typed list, nil
  exactly for nil; and \<open>DeepCopyObject\<close> gives a nil interface exactly for nil, never an interface
  that holds a nil pointer.
\<close>

theorem DeepCopyList_typed:
  assumes "meta_copies L" and "heap_ok h" and "ptr_ok list_kind (cells h) p"
  shows "\<exists>q h'. GlobalServiceList_DeepCopy L p h = Returned (q, h') \<and> heap_ok h' \<and>
    ptr_ok list_kind (cells h') q \<and> (q = None \<longleftrightarrow> p = None) \<and>
    GlobalServiceList_DeepCopyObject L p h =
      Returned (if p = None then None else Some (ListObject q), h')"
proof (cases p)
  case None
  then show ?thesis
    using assms(2) by (simp add: GlobalServiceList_DeepCopyObject_def GlobalServiceList_DeepCopy_def deepCopy_def ptr_ok_def)
next
  case (Some r)
  then obtain l where l: "peek list_kind (cells h) r = Some l" using assms(3) by (auto simp: ptr_ok_def)
  then obtain v where "val_at list_kind val_List (cells h) r = Some v"
    using typed_values(6) [OF assms(2) lists.peek_ok [OF assms(2) l]] by (auto simp: val_at_def)
  from lists.deepCopy_deep [OF meta_copies.GlobalServiceList_deep [OF assms(1)] this] obtain q h' where
    run: "GlobalServiceList_DeepCopy L (Some r) h = Returned (Some q, h')" and g: "grows h h'"
    and q: "val_at list_kind val_List (fresh h h') q = Some v"
    unfolding GlobalServiceList_DeepCopy_def by blast
  have "ptr_ok list_kind (cells h') (Some q)"
    using lists.val_at_mono [OF fresh_le q] by (auto simp: ptr_ok_def val_at_def bind_eq_Some_conv)
  then show ?thesis
    using run g assms(2) Some by (simp add: GlobalServiceList_DeepCopyObject_def grows_def)
qed

theorem DeepCopyList_typed_witness:
  "\<exists>q h'. GlobalServiceList_DeepCopyObject std_meta (Some (4, 0)) demo_heap = Returned (Some (ListObject q), h') \<and>
     heap_ok h' \<and> ptr_ok list_kind (cells h') q \<and> q \<noteq> None"
proof -
  have "heap_ok demo_heap"
    by (simp add: heap_ok_def demo_heap_def cells_def value_ok_defs ptr_ok_def slice_ok_def peek_def backing_def
        string_kind_def reference_kind_def endpoint_kind_def port_kind_def map_kind_def service_kind_def int64_kind_def)
  moreover have "ptr_ok list_kind (cells demo_heap) (Some (4, 0))" by code_simp
  ultimately show ?thesis
    using DeepCopyList_typed [OF std_copies.meta_copies_axioms, of demo_heap "Some (4, 0)"] by auto
qed

end
