(* ===== verification/InPlace.thy ===== *)
theory InPlace
  imports DeepCopy GlobalServiceManager "HOL-Library.While_Combinator"
begin

text \<open>
  \<open>removeEndpoints\<close> of \<open>pkg/service-hub/types/global_service_manager.go\<close> as it runs in memory: the loop
  deletes in place, by \<open>append(endpoints[:i], endpoints[i+1:]...)\<close>, which writes into the array of the
  slice it reads.  \<open>GlobalServiceManager\<close> takes the endpoints as a list; the theory shows that the loop
  ends and leaves in memory what that definition says, and which memory it writes.
\<close>

section \<open>The loop in memory\<close>

text \<open>
  \<open>append(s, t...)\<close>: into the array of \<open>s\<close> when it has room behind \<open>s\<close>, into a new array otherwise.
\<close>

definition appendSlice :: "'e kind \<Rightarrow> goslice \<Rightarrow> goslice \<Rightarrow> heap \<Rightarrow> (goslice \<times> heap) outcome" where
  "appendSlice K s t h =
     (case cells h (slArray s) of
        None \<Rightarrow> Panicked
      | Some c \<Rightarrow>
          (case (kdGet K c, backing K (cells h) t) of
             (Some xs, Some ys) \<Rightarrow>
               (let end' = slOffset s + slLen s; n = slLen s + length ys in
                if end' + length ys \<le> length xs
                then Returned (s\<lparr>slLen := n\<rparr>,
                  h[slArray s := kdMake K (take end' xs @ ys @ drop (end' + length ys) xs)])
                else Returned (\<lparr>slArray = length h, slOffset = 0, slLen = n\<rparr>,
                  h @ [kdMake K (take (slLen s) (drop (slOffset s) xs) @ ys)]))
           | _ \<Rightarrow> Panicked))"

text \<open>\<open>s[:i]\<close> and \<open>s[i:]\<close>.\<close>

definition sliceTo :: "goslice \<Rightarrow> nat \<Rightarrow> goslice" where
  "sliceTo s i = s\<lparr>slLen := i\<rparr>"

definition sliceFrom :: "goslice \<Rightarrow> nat \<Rightarrow> goslice" where
  "sliceFrom s i = s\<lparr>slOffset := slOffset s + i, slLen := slLen s - i\<rparr>"

type_synonym loop_state = "(nat \<times> goslice \<times> heap) outcome"

fun removing :: "loop_state \<Rightarrow> bool" where
  "removing (Returned (i, endpoints, h)) \<longleftrightarrow> i < slLen endpoints"
| "removing Panicked \<longleftrightarrow> False"

fun remove_step :: "string \<Rightarrow> loop_state \<Rightarrow> loop_state" where
  "remove_step cluster (Returned (i, endpoints, h)) =
     bind_outcome (element endpoints i) (\<lambda>p.
     bind_outcome (load endpoint_kind p h) (\<lambda>e.
     if meCluster e = cluster
     then bind_outcome (appendSlice endpoint_kind (sliceTo endpoints i) (sliceFrom endpoints (i + 1)) h)
       (\<lambda>(endpoints', h'). Returned (i, endpoints', h'))
     else Returned (i + 1, endpoints, h)))"
| "remove_step cluster Panicked = Panicked"

text \<open>The function; \<open>None\<close> when the loop does not end.  The length of a nil slice is zero.\<close>

definition removeEndpoints_memory ::
  "string \<Rightarrow> goslice option \<Rightarrow> heap \<Rightarrow> (goslice option \<times> heap) outcome option" where
  "removeEndpoints_memory cluster endpoints h =
     (case endpoints of
        None \<Rightarrow> Some (Returned (None, h))
      | Some s \<Rightarrow>
          map_option (\<lambda>st. bind_outcome st (\<lambda>(i, s', h'). Returned (Some s', h')))
            (while_option removing (remove_step cluster) (Returned (0, s, h))))"

section \<open>A step\<close>

lemma backing_Some:
  "backing K m s = Some ys \<longleftrightarrow> (\<exists>c xs. m (slArray s) = Some c \<and> kdGet K c = Some xs \<and>
     slOffset s + slLen s \<le> length xs \<and> ys = take (slLen s) (drop (slOffset s) xs))"
  by (auto simp: backing_def split: option.splits if_splits)

lemma backing_length: "backing K m s = Some ys \<Longrightarrow> length ys = slLen s"
  by (auto simp: backing_Some)

lemma backing_endpoints: "backing endpoint_kind m s = Some ys \<Longrightarrow> \<exists>xs. m (slArray s) = Some (Endpoints xs)"
  using endpoint_cells.make_get by (fastforce simp: backing_Some endpoint_kind_def)

lemma delete_in_place:
  assumes "backing endpoint_kind (cells h) s = Some ys" and "i < slLen s"
  shows "\<exists>h'. appendSlice endpoint_kind (sliceTo s i) (sliceFrom s (i + 1)) h = Returned (s\<lparr>slLen := slLen s - 1\<rparr>, h') \<and>
    backing endpoint_kind (cells h') (s\<lparr>slLen := slLen s - 1\<rparr>) = Some (take i ys @ drop (i + 1) ys) \<and>
    length h' = length h \<and> (\<forall>a. a \<noteq> slArray s \<longrightarrow> cells h' a = cells h a)"
proof -
  let ?o = "slOffset s" and ?n = "slLen s"
  obtain c xs where c: "cells h (slArray s) = Some c" "kdGet endpoint_kind c = Some xs"
    and len: "?o + ?n \<le> length xs" and ys: "ys = take ?n (drop ?o xs)"
    using assms(1) by (auto simp: backing_Some)
  define r where "r = take (?n - (i + 1)) (drop (?o + (i + 1)) xs)"
  let ?xs = "take (?o + i) xs @ r @ drop (?o + i + length r) xs"
  let ?h = "h[slArray s := kdMake endpoint_kind ?xs]" and ?s = "s\<lparr>slLen := ?n - 1\<rparr>"
  have r: "length r = ?n - (i + 1)" using len assms(2) by (simp add: r_def)
  have tail: "backing endpoint_kind (cells h) (sliceFrom s (i + 1)) = Some r"
    unfolding backing_Some r_def sliceFrom_def using c len assms(2) by (simp add: ac_simps)
  have fits: "?o + i + length r \<le> length xs" and count: "i + length r = ?n - 1"
    using r len assms(2) by simp_all
  have arr: "slArray (sliceTo s i) = slArray s" "slOffset (sliceTo s i) = ?o" "slLen (sliceTo s i) = i"
    "(sliceTo s i)\<lparr>slLen := ?n - 1\<rparr> = ?s" by (simp_all add: sliceTo_def)
  have run: "appendSlice endpoint_kind (sliceTo s i) (sliceFrom s (i + 1)) h = Returned (?s, ?h)"
    unfolding appendSlice_def arr(1-3) c tail option.case prod.case Let_def count if_P [OF fits] arr(4) ..
  have bound: "slArray s < length h" using c(1) by (simp add: cells_def split: if_splits)
  have "take i ys = take i (drop ?o xs)" unfolding ys take_take using assms(2) by (simp only: min_absorb1 less_imp_le)
  moreover have "drop (i + 1) ys = r" unfolding ys r_def drop_take drop_drop by (simp only: add.commute)
  ultimately have ends: "take i ys = take i (drop ?o xs)" "drop (i + 1) ys = r" .
  have "drop ?o ?xs = take i (drop ?o xs) @ r @ drop (?o + i + length r) xs"
    using len assms(2) by (simp add: take_drop add.commute)
  then have window: "take (?n - 1) (drop ?o ?xs) = take i ys @ drop (i + 1) ys"
    using len assms(2) unfolding ends count [symmetric] by simp
  have "length ?xs = length xs" using fits by simp
  then have "backing endpoint_kind (cells ?h) ?s = Some (take i ys @ drop (i + 1) ys)"
    unfolding window [symmetric] backing_Some using bound len
    by (intro exI [of _ "kdMake endpoint_kind ?xs"] exI [of _ ?xs])
      (simp add: cells_def endpoint_cells.get_make del: length_append take_append drop_append)
  then show ?thesis using run by (intro exI [of _ ?h]) (simp add: cells_def)
qed

section \<open>The loop\<close>

lemma while_stop: "\<not> b st \<Longrightarrow> while_option b f st = Some st"
  by (subst while_option_unfold) simp

lemma while_go: "b st \<Longrightarrow> while_option b f st = while_option b f (f st)"
  by (subst while_option_unfold) simp

lemma remove_loop:
  assumes "backing endpoint_kind (cells h) s = Some ys" and "i \<le> slLen s"
    and "\<forall>e \<in> set (take i ys). meCluster e \<noteq> c"
  shows "\<exists>n h'. while_option removing (remove_step c) (Returned (i, s, h)) = Some (Returned (n, s\<lparr>slLen := n\<rparr>, h')) \<and>
    backing endpoint_kind (cells h') (s\<lparr>slLen := n\<rparr>) = Some (filter (\<lambda>e. meCluster e \<noteq> c) ys) \<and>
    length h' = length h \<and> (\<forall>a. a \<noteq> slArray s \<longrightarrow> cells h' a = cells h a)"
  using assms
proof (induction "slLen s - i" arbitrary: i s h ys)
  case 0
  then have "i = slLen s" and "length ys = slLen s" by (simp_all add: backing_length)
  then have "filter (\<lambda>e. meCluster e \<noteq> c) ys = ys" and "s\<lparr>slLen := i\<rparr> = s"
    using 0 by simp_all
  then show ?case using 0 \<open>i = slLen s\<close>
    by (intro exI [of _ i] exI [of _ h]) (simp add: while_stop)
next
  case (Suc d)
  then have i: "i < slLen s" and len: "length ys = slLen s" by (simp_all add: backing_length)
  have here: "load endpoint_kind (slArray s, slOffset s + i) h = Returned (ys ! i)"
    using Suc.prems(1) i by (auto simp: load_def peek_def backing_Some)
  have go: "while_option removing (remove_step c) (Returned (i, s, h)) =
      while_option removing (remove_step c) (remove_step c (Returned (i, s, h)))"
    using i by (simp add: while_go)
  have split: "ys = take i ys @ ys ! i # drop (i + 1) ys"
    using i len by (simp add: id_take_nth_drop)
  show ?case
  proof (cases "meCluster (ys ! i) = c")
    case False
    then have step: "remove_step c (Returned (i, s, h)) = Returned (i + 1, s, h)"
      using here i by (simp add: element_def)
    have "\<forall>e \<in> set (take (i + 1) ys). meCluster e \<noteq> c"
      using Suc.prems(3) False i len by (auto simp: take_Suc_conv_app_nth)
    then show ?thesis
      unfolding go step using Suc.prems(1) i Suc.hyps(2) by (intro Suc.hyps(1)) simp_all
  next
    case True
    from delete_in_place [OF Suc.prems(1) i] obtain h1 where
      app: "appendSlice endpoint_kind (sliceTo s i) (sliceFrom s (i + 1)) h = Returned (s\<lparr>slLen := slLen s - 1\<rparr>, h1)"
      and kept: "backing endpoint_kind (cells h1) (s\<lparr>slLen := slLen s - 1\<rparr>) = Some (take i ys @ drop (i + 1) ys)"
      and rest: "length h1 = length h" "\<forall>a. a \<noteq> slArray s \<longrightarrow> cells h1 a = cells h a" by blast
    have step: "remove_step c (Returned (i, s, h)) = Returned (i, s\<lparr>slLen := slLen s - 1\<rparr>, h1)"
      using here i True app by (simp add: element_def)
    have same: "filter (\<lambda>e. meCluster e \<noteq> c) (take i ys @ drop (i + 1) ys) = filter (\<lambda>e. meCluster e \<noteq> c) ys"
      using True by (subst (3) split) simp
    have "\<exists>n h'. while_option removing (remove_step c) (Returned (i, s\<lparr>slLen := slLen s - 1\<rparr>, h1)) =
          Some (Returned (n, s\<lparr>slLen := slLen s - 1, slLen := n\<rparr>, h')) \<and>
        backing endpoint_kind (cells h') (s\<lparr>slLen := slLen s - 1, slLen := n\<rparr>) =
          Some (filter (\<lambda>e. meCluster e \<noteq> c) (take i ys @ drop (i + 1) ys)) \<and>
        length h' = length h1 \<and> (\<forall>a. a \<noteq> slArray (s\<lparr>slLen := slLen s - 1\<rparr>) \<longrightarrow> cells h' a = cells h1 a)"
      by (rule Suc.hyps(1) [OF _ kept]) (use Suc.hyps(2) i len Suc.prems(3) in \<open>simp_all\<close>)
    then show ?thesis unfolding go step same using rest by auto
  qed
qed

text \<open>Values of endpoints are read from cells of other types only.\<close>

lemma val_Endpoint_elsewhere:
  assumes "\<And>b. b \<noteq> a \<Longrightarrow> m' b = m b" and "m a = Some (Endpoints xs)" and "m' a = Some (Endpoints xs')"
  shows "val_Endpoint m' e = val_Endpoint m e"
proof -
  have str: "peek string_kind m' p = peek string_kind m p" for p
    using assms by (cases "fst p = a") (simp_all add: peek_def string_kind_def)
  have ref: "peek reference_kind m' p = peek reference_kind m p" for p
    using assms by (cases "fst p = a") (simp_all add: peek_def reference_kind_def)
  have sl: "backing string_kind m' s = backing string_kind m s" for s
    using assms by (cases "slArray s = a") (simp_all add: backing_def string_kind_def)
  have "val_ptr string_kind m' p = val_ptr string_kind m p" "val_ptr reference_kind m' p = val_ptr reference_kind m p" for p
    by (cases p; simp add: val_ptr_def str ref)+
  moreover have "val_slice string_kind itself m' s = val_slice string_kind itself m s" for s
    by (cases s) (simp_all add: val_slice_def sl itself_def [abs_def])
  ultimately show ?thesis by (simp add: val_Endpoint_def)
qed

lemma val_Endpoint_cluster: "val_Endpoint m e = Some v \<Longrightarrow> epCluster v = meCluster e"
  by (auto simp: val_Endpoint_def bind_eq_Some_conv)

lemma list_all2_filter:
  assumes "list_all2 R xs ys" and "\<And>x y. R x y \<Longrightarrow> P x = Q y"
  shows "list_all2 R (filter P xs) (filter Q ys)"
  using assms by (induction rule: list_all2_induct) auto

lemma remove_slice:
  assumes "val_slice endpoint_kind val_Endpoint (cells h) (Some s) = Some eps"
  shows "\<exists>n h'. while_option removing (remove_step c) (Returned (0, s, h)) = Some (Returned (n, s\<lparr>slLen := n\<rparr>, h')) \<and>
    n \<le> slLen s \<and> val_slice endpoint_kind val_Endpoint (cells h') (Some (s\<lparr>slLen := n\<rparr>)) = Some (removeEndpoints eps c) \<and>
    length h' = length h \<and> (\<forall>a. a \<noteq> slArray s \<longrightarrow> cells h' a = cells h a)"
proof -
  obtain ys where ys: "backing endpoint_kind (cells h) s = Some ys"
    and vals: "list_all2 (\<lambda>x y. val_Endpoint (cells h) x = Some y) ys eps"
    using assms by (auto simp: val_slice_def those_map bind_eq_Some_conv)
  from remove_loop [OF ys, of 0 c] obtain n h' where
    loop: "while_option removing (remove_step c) (Returned (0, s, h)) = Some (Returned (n, s\<lparr>slLen := n\<rparr>, h'))"
    and kept: "backing endpoint_kind (cells h') (s\<lparr>slLen := n\<rparr>) = Some (filter (\<lambda>e. meCluster e \<noteq> c) ys)"
    and rest: "length h' = length h" "\<forall>a. a \<noteq> slArray s \<longrightarrow> cells h' a = cells h a" by auto
  obtain xs xs' where "cells h (slArray s) = Some (Endpoints xs)" "cells h' (slArray s) = Some (Endpoints xs')"
    using backing_endpoints [OF ys] backing_endpoints [OF kept] by auto
  then have same: "val_Endpoint (cells h') e = val_Endpoint (cells h) e" for e
    using rest(2) by (intro val_Endpoint_elsewhere) auto
  have "list_all2 (\<lambda>x y. val_Endpoint (cells h) x = Some y) (filter (\<lambda>e. meCluster e \<noteq> c) ys)
      (filter (\<lambda>e. epCluster e \<noteq> c) eps)"
    using vals by (rule list_all2_filter) (simp add: val_Endpoint_cluster)
  then have "val_slice endpoint_kind val_Endpoint (cells h') (Some (s\<lparr>slLen := n\<rparr>)) = Some (removeEndpoints eps c)"
    using kept by (simp add: val_slice_def those_map same removeEndpoints_filter)
  moreover have "n \<le> slLen s"
    using backing_length [OF kept] backing_length [OF ys] length_filter_le [of "\<lambda>e. meCluster e \<noteq> c" ys] by simp
  ultimately show ?thesis using loop rest by blast
qed

section \<open>Properties\<close>

text \<open>
  C19 (removeEndpoints_in_memory): the loop of \<open>removeEndpoints\<close> ends on every slice of endpoints, without
  a panic; the slice it returns is nil for nil, and else starts where the one it was given does; it
  holds, in memory, the endpoints the model of the global service manager keeps; the loop allocates
  nothing and writes no cell but the array of the slice.
\<close>

theorem removeEndpoints_in_memory:
  assumes "val_slice endpoint_kind val_Endpoint (cells h) endpoints = Some eps"
  shows "\<exists>endpoints' h'. removeEndpoints_memory c endpoints h = Some (Returned (endpoints', h')) \<and>
    val_slice endpoint_kind val_Endpoint (cells h') endpoints' = Some (removeEndpoints eps c) \<and>
    (case (endpoints, endpoints') of
       (None, None) \<Rightarrow> h' = h
     | (Some s, Some s') \<Rightarrow> slArray s' = slArray s \<and> slOffset s' = slOffset s \<and> slLen s' \<le> slLen s \<and>
         length h' = length h \<and> (\<forall>a. a \<noteq> slArray s \<longrightarrow> cells h' a = cells h a)
     | _ \<Rightarrow> False)"
proof (cases endpoints)
  case None
  then show ?thesis
    using assms by (simp add: removeEndpoints_memory_def val_slice_def removeEndpoints_filter)
next
  case (Some s)
  then have "val_slice endpoint_kind val_Endpoint (cells h) (Some s) = Some eps" using assms by simp
  from remove_slice [OF this, of c] obtain n h' where
    "while_option removing (remove_step c) (Returned (0, s, h)) = Some (Returned (n, s\<lparr>slLen := n\<rparr>, h'))"
    "n \<le> slLen s" "val_slice endpoint_kind val_Endpoint (cells h') (Some (s\<lparr>slLen := n\<rparr>)) = Some (removeEndpoints eps c)"
    "length h' = length h" "\<forall>a. a \<noteq> slArray s \<longrightarrow> cells h' a = cells h a" by blast
  then show ?thesis
    using Some by (intro exI [of _ "Some (s\<lparr>slLen := n\<rparr>)"] exI [of _ h']) (simp add: removeEndpoints_memory_def)
qed

definition shared_heap :: heap where
  "shared_heap =
     [Strings [''192.168.1.1''],
      Endpoints (map (\<lambda>c. \<lparr>meAddresses = Some \<lparr>slArray = 0, slOffset = 0, slLen = 1\<rparr>, meHostname = None,
        meTargetRef = None, meCluster = c, meZone = c, meRegion = ''north''\<rparr>)
        [''beijing'', ''shanghai'', ''beijing'', ''pudong''])]"

theorem removeEndpoints_in_memory_witness:
  "let s = \<lparr>slArray = 1, slOffset = 0, slLen = 4\<rparr>
   in \<exists>s' h'. removeEndpoints_memory ''beijing'' (Some s) shared_heap = Some (Returned (s', h')) \<and>
     map_option (map epCluster) (val_slice endpoint_kind val_Endpoint (cells h') s') = Some [''shanghai'', ''pudong'']"
proof -
  let ?s = "\<lparr>slArray = 1, slOffset = 0, slLen = 4\<rparr>"
  let ?eps = "the (val_slice endpoint_kind val_Endpoint (cells shared_heap) (Some ?s))"
  have "val_slice endpoint_kind val_Endpoint (cells shared_heap) (Some ?s) = Some ?eps" by code_simp
  from removeEndpoints_in_memory [OF this, of "''beijing''"] obtain s' h' where
    "removeEndpoints_memory ''beijing'' (Some ?s) shared_heap = Some (Returned (s', h'))"
    "val_slice endpoint_kind val_Endpoint (cells h') s' = Some (removeEndpoints ?eps ''beijing'')" by blast
  moreover have "map epCluster (removeEndpoints ?eps ''beijing'') = [''shanghai'', ''pudong'']" by code_simp
  ultimately show ?thesis by auto
qed

end
