(* ===== verification/Spec2Isabelle.thy ===== *)
theory Spec2Isabelle
  imports FabDnsSetup EntryPoints HubSystem Restart ClientMode InPlace
begin

text \<open>
  A verification library of fab-dns: DNS names for services that are shared between Kubernetes
  clusters.

  The program has two processes.  The service hub (\<open>pkg/service-hub\<close>) runs in every cluster.  In
  server mode it keeps the GlobalServices of its own API: each holds the endpoints every cluster
  has for one service.  In client mode it talks to a hub over HTTP.  In both modes an exporter
  follows the labelled services of the cluster and gives their endpoints to an export function:
  the global service manager of the same process, or the HTTP client.  A member imports the hub's
  GlobalServices into its own API.  The hub remembers which cluster exported what, and a cleaner
  takes away what a cluster left behind that no longer reports.  The CoreDNS plugin
  (\<open>pkg/fabdns\<close>) answers queries from the GlobalServices of its cluster, nearest endpoints first.

  Theories and sources (\<open>src/pkg\<close> unless it says otherwise; function names are those of the code):
    \<^item> \<open>Prelude\<close>: outcomes with panics, Go maps and their iteration orders, views;
    \<open>Apis\<close>: \<open>apis/v1alpha1/global_service_types.go\<close>, the parts of the Kubernetes types the code
      reads, \<open>constants\<close>, the errors; \<open>Samples\<close>: objects for the witnesses.
    \<^item> \<open>KubeApi\<close>: the Kubernetes client as a parameter, with the laws \<open>kube_api\<close> and an API
      server in memory that keeps them and can be told which calls fail.
    \<^item> \<open>Namespace\<close>: \<open>util/namespace\<close>;  \<open>GlobalServiceManager\<close>:
      \<open>service-hub/types/global_service_manager.go\<close>, the in-place loop included.
    \<^item> \<open>Memory\<close>, \<open>DeepCopy\<close>: Go structs in memory, and the generated copies of
      \<open>apis/v1alpha1/zz_generated.deepcopy.go\<close>; \<open>InPlace\<close>: \<open>removeEndpoints\<close> over that memory.
    \<^item> \<open>ObjectKeySet\<close>, \<open>ClusterStore\<close>: \<open>service-hub/types/objectkeyset.go\<close>, \<open>cluster.go\<close>;
      clusters are reached through pointers, so the store is a heap and a map of pointers.
    \<^item> \<open>HeadlessEndpoints\<close>, \<open>Exporter\<close>, \<open>LostServiceRevoker\<close>: \<open>service-hub/exporter\<close>;
      \<open>ExportLoop\<close>: the exporter's \<open>Reconcile\<close> under the controller manager, a step relation;
      \<open>Restart\<close>: runs of both controllers after a start, in both modes.
    \<^item> \<open>ApiServer\<close>: \<open>service-hub/apiserver\<close>;  \<open>Cleaner\<close>: \<open>service-hub/cleaner\<close>;
      \<open>HubStartup\<close>: \<open>recordGlobalServicesByCluster\<close> of \<open>service-hub/options.go\<close>;
      \<open>HubSystem\<close>: the running hub, a step relation over all of these.
    \<^item> \<open>HubClient\<close>: \<open>service-hub/client\<close>, and a lossy network to the server of \<open>ApiServer\<close>;
      \<open>Importer\<close>: \<open>service-hub/importer\<close>.
    \<^item> \<open>About\<close>, \<open>GoRegexp\<close>, \<open>Options\<close>: \<open>about\<close>, \<open>service-hub/options.go\<close> and \<open>cmd.go\<close>: flags, validation
      with its regular expressions, the construction of both modes with everything that is added to
      the controller manager, \<open>Run\<close> and \<open>Execute\<close>; \<open>EntryPoints\<close>: \<open>src/cmd\<close>, the two programs.
    \<^item> \<open>GoNet\<close>, \<open>DnsParse\<close>, \<open>FabDns\<close>, \<open>FabDnsSetup\<close>: \<open>net.ParseIP\<close>, and \<open>fabdns/parse.go\<close>,
      \<open>fabdns.go\<close>, \<open>setup.go\<close>.
    \<^item> \<open>ClientMode\<close>: the lemmas of client mode from end to end, which this theory states: from the
      services of a member to the hub, from the hub to another member, and to its DNS answers.

  How the code appears.  A function that changes state takes and returns the state: \<open>'w\<close> is the
  world of the Kubernetes API, \<open>'w hub\<close> the cluster store beside it, \<open>'m \<times> 'w network\<close> a member's
  API beside the network to a hub.  An error is \<open>Some\<close> or \<open>Inl\<close> of a \<open>go_error\<close>; a nil dereference
  is \<open>Panicked\<close>.  What Go leaves open is an argument: the iteration order of maps, the unstable
  sorts (\<open>go_runtime\<close>), which goroutine runs when (\<open>import_schedule\<close>), what others do between two
  steps of a sweep (\<open>schedule\<close>), the clock.  Third-party code is an argument with named laws:
  \<open>kube_api\<close> and \<open>kube_source\<close> (the Kubernetes client), \<open>coredns_laws\<close>, \<open>chi_ok\<close> (the router),
  \<open>json_ok\<close> and \<open>json_list_ok\<close> (the codec).  Each is shown to hold of a concrete
  instance, which the witnesses run on.  No function needs fuel: every loop of the model ends by
  structural recursion or by the measure of \<open>removeEndpoints_loop\<close>; tickers are lists of ticks.  Only
  the loop of \<open>InPlace\<close> is a \<open>while_option\<close>, whose end is part of what is proved.  Objects are values
  everywhere but in \<open>Memory\<close>, \<open>DeepCopy\<close> and \<open>InPlace\<close>, which justify that: a copy shares no memory with
  its original, and the one function that writes into an array it was given does in memory what it
  does to the value.

  The interfaces are locales: \<open>cluster_store\<close> (pointer store and registry), \<open>key_set\<close>,
  \<open>global_service_manager\<close> (what the manager promises the API server and the cleaner),
  \<open>api_server_env\<close> (that and the client it reads with), \<open>export_target\<close> (what the exporter needs of an export function, met by the manager and by the
  client over a lossy network), \<open>exporter_env\<close>, \<open>exporter_source\<close> and \<open>two_controllers\<close> above it, \<open>cell_type\<close> and \<open>value_cells\<close>
  (what a type of memory cells promises the generated copies).

  What the lemmas show.  The hub's endpoints of a cluster in a service are those of the last
  operation of that cluster there, whatever interleaves and fails (\<open>GlobalServiceManager\<close>).  The
  exporter's \<open>Reconcile\<close> is atomic and, when it succeeds, leaves the hub with what the service has
  (\<open>Exporter\<close>), if the process remembers what it has there; under the controller manager what is not
  waiting is in sync, but for what changes without a notice to the exporter (\<open>ExportLoop\<close>), and a start
  puts right what was lost while the hub was down, but for two gaps (\<open>Restart\<close>, \<open>LostServiceRevoker\<close>).
  Headless endpoints do not depend on map and sort order (\<open>HeadlessEndpoints\<close>).  The pointer store
  refines a map (\<open>ClusterStore\<close>); the endpoints of other clusters stay recorded however the steps of
  the hub interleave, so that the sweep after a cluster's expiry clears it (\<open>HubSystem\<close>, \<open>Cleaner\<close>): this
  from a start with everything recorded, with requests that name their own cluster, without an upload
  between the two halves of a deletion, and while nobody else brings another cluster into a service.
  \<open>HubStartup\<close> and \<open>delete_upload_race\<close> show that the code does not ensure the first and the third.
  An import converges for every schedule (\<open>Importer\<close>).  Names of the
  documented formats parse back (\<open>DnsParse\<close>); answers hold the nearest endpoints, and replies agree
  with the codes returned (\<open>FabDns\<close>).  Options and plugin blocks are accepted exactly when they
  should be or, where the patterns are weaker than the help text, exactly when the code does
  (\<open>Options\<close>, \<open>FabDnsSetup\<close>).

  Atomic steps.  A call of the Kubernetes client is one step, and so is an operation of the
  global service manager, which holds a mutex.  \<open>ServeHTTP\<close> of \<open>ApiServer\<close> runs a request in one
  piece; \<open>HubSystem\<close> splits it into middleware, handler and bookkeeping, and \<open>ServeHTTP_in_steps\<close>
  puts it together again.

  Not modelled: logging and log flags, TLS and certificates (parameters that fail or not),
  timeouts as durations (a call that times out is one that fails), health probes, the
  registration of the types with the API machinery (\<open>register.go\<close>: two variables and a call),
  the inside of \<open>coremain.Run\<close> and of the controller manager beyond what it is told to watch, the delay of
  the cache behind \<open>Manager.GetClient()\<close> (the laws \<open>kube_api\<close> and \<open>kube_source\<close> let reads see the current
  objects; theory \<open>KubeApi\<close> says what that hides), test utilities and end-to-end tests.
\<close>

section \<open>Client mode, end to end\<close>

text \<open>
  C8 (client_mode_exports): from the services of a member over HTTP to the endpoints in the hub.
  Whatever the network loses and whatever fails on either side, one \<open>Reconcile\<close> of a member's
  exporter leaves the hub as it was or gives the member exactly the endpoints its service has, and no
  other cluster or service is touched.  If it reports success, then: when the service is for export,
  the member has in the hub exactly its endpoints; when it is gone or not for export and the process
  remembers having exported it, the member has none there; when the process does not remember it,
  nothing was done, and what the hub has of the member in the service, if anything, stays.  The key is
  remembered afterwards exactly when the service is for export.
\<close>

theorem client_mode_exports:
  fixes K :: "'w kube" and M :: "'m kube"
  assumes "kube_api K objs nss" and "kube_api M mobjs mnss" and "chi_ok chi" and "json_ok js"
    and "go_runtime_ok rt" and "legal_key k"
    and "Reconcile rt (member_kube M) (client_config (link me url chi K a d js) me z reg) k (ks, x) = (r, ks', x')"
  shows "(cluster_view objs (hub_of x') = cluster_view objs (hub_of x) \<or>
      (\<exists>eps. wanted_endpoints rt (member_kube M) (client_config (link me url chi K a d js) me z reg) k x = Some eps \<and>
        cluster_view objs (hub_of x') = set_view k me eps (cluster_view objs (hub_of x)))) \<and>
    (r = Returned None \<longrightarrow> (Has ks' k \<longleftrightarrow> is_exported (member_kube M) k x) \<and>
      (\<exists>eps. wanted_endpoints rt (member_kube M) (client_config (link me url chi K a d js) me z reg) k x = Some eps \<and>
        (is_exported (member_kube M) k x \<or> eps = []) \<and>
        cluster_view objs (hub_of x') = (if is_exported (member_kube M) k x \<or> Has ks k
          then set_view k me eps (cluster_view objs (hub_of x)) else cluster_view objs (hub_of x))))"
  by (rule client_Reconcile_outcome [OF assms])

definition beijing_service :: Service where
  "beijing_service =
     \<lparr>svcMeta = (sample_meta ''default'' ''nginx'' [])\<lparr>omLabels := Some [(labelGlobalService, ''true'')]\<rparr>,
      svcType = ServiceTypeClusterIP, svcClusterIP = ''192.168.1.1'', svcClusterIPs = [''192.168.1.1''],
      svcPorts = [\<lparr>cpName = ''web'', cpProtocol = ''TCP'', cpAppProtocol = None, cpPort = 80,
        cpTargetPort = ''8080'', cpNodePort = 0\<rparr>]\<rparr>"

definition beijing_world :: "memory \<times> memory network" where
  "beijing_world = (empty_memory\<lparr>memServices := [beijing_service]\<rparr>,
     [Delivered 10, ReplyLost 20], NewClusterStore, empty_memory)"

definition beijing_reconcile :: "memory \<times> memory network \<Rightarrow> go_error option outcome \<times> ObjectKeySet \<times> memory \<times> memory network" where
  "beijing_reconcile x = Reconcile demo_runtime (member_kube mem_kube)
     (client_config beijing_client ''beijing'' ''beijing'' ''north'') nginx_key (NewObjectKeySet, x)"

theorem client_mode_exports_witness:
  "fst (beijing_reconcile beijing_world) = Returned None \<and>
   cluster_view mem_objs (hub_of (snd (snd (beijing_reconcile beijing_world)))) nginx_key ''beijing''
     = endpoints_of beijing"
proof -
  let ?run = "beijing_reconcile beijing_world"
  let ?cfg = "client_config beijing_client ''beijing'' ''beijing'' ''north''"
  have ok: "fst ?run = Returned None" by code_simp
  have link: "beijing_client = link ''beijing'' demo_url std_chi mem_kube True 300 demo_json"
    by (simp add: beijing_client_def demo_server_def)
  have run: "Reconcile demo_runtime (member_kube mem_kube)
      (client_config (link ''beijing'' demo_url std_chi mem_kube True 300 demo_json) ''beijing'' ''beijing'' ''north'')
      nginx_key (NewObjectKeySet, beijing_world) = (Returned None, fst (snd ?run), snd (snd ?run))"
    using ok by (metis beijing_reconcile_def link prod.collapse)
  have legal: "legal_key nginx_key" by code_simp
  have wanted: "wanted_endpoints demo_runtime (member_kube mem_kube) ?cfg nginx_key beijing_world
      = Some (endpoints_of beijing)" by code_simp
  have exported: "is_exported (member_kube mem_kube) nginx_key beijing_world" by code_simp
  show ?thesis
    using client_mode_exports [OF mem.kube_api_axioms mem.kube_api_axioms chi_ok_std json_ok_demo
        demo_runtimes_ok(1) legal run] wanted exported ok
    by (simp add: set_view_apply flip: link)
qed

text \<open>
  C5 (exporter_loop_in_sync): the exporter of a member in client mode under the controller manager,
  which calls it for changes of services and of the slices they own.  After any run - any changes by
  others of services, slices and the hub, reconciliations in any order with failures of the network,
  the hub or the member's API, panics and restarts - a service that is not waiting to be reconciled
  has in the hub exactly the endpoints it should have, or it is gone or not for export and this
  process does not remember exporting it; except a service that changed without notice since it was
  last reconciled (\<open>elStale\<close>): one with a changed slice that has its label but is not owned by it,
  or one whose endpoints the hub's cleaner, or somebody else, changed in the hub.  When others do neither
  (\<open>ordinary\<close>), no service is in that state.
\<close>

theorem exporter_loop_in_sync:
  fixes K :: "'w kube" and M :: "'m kube"
  assumes "kube_api K objs nss" and "kube_source M mobjs mnss services slices" and "chi_ok chi" and "json_ok js"
    and "go_runtime_ok rt" and "cfg = client_config (link me url chi K a d js) me z reg"
    and "Q0 \<subseteq> Collect legal_key" and "\<forall>k. services (fst x0) k \<noteq> None \<longrightarrow> k \<in> Q0"
    and "(loop_step rt (member_kube M) cfg (\<lambda>x. cluster_view objs (hub_of x)) (\<lambda>x. services (fst x))
      (\<lambda>x. slices (fst x)) legal_key others)\<^sup>*\<^sup>* (loop_start (member_kube M) cfg Q0 x0) st"
  shows "(k \<notin> elQueue st \<and> k \<notin> elStale st \<longrightarrow>
      source rt cfg (\<lambda>x. services (fst x)) (\<lambda>x. slices (fst x)) (elWorld st) k =
        Some (cluster_view objs (hub_of (elWorld st)) k me) \<or>
      source rt cfg (\<lambda>x. services (fst x)) (\<lambda>x. slices (fst x)) (elWorld st) k = Some [] \<and> \<not> Has (elKeys st) k) \<and>
    ((\<forall>x x'. others x x' \<longrightarrow>
        ordinary me (\<lambda>x. cluster_view objs (hub_of x)) (\<lambda>x. slices (fst x)) x x') \<longrightarrow> elStale st = {})"
proof -
  note src = exporter_source_client [OF assms(1-4), of me url a d]
  have cfg: "cfgClusterName cfg = me"
    "cfgExport cfg = (\<lambda>g. on_network (client_UploadGlobalService (link me url chi K a d js) g))"
    "cfgRevoke cfg = (\<lambda>c ns n. on_network (client_DeleteGlobalService (link me url chi K a d js) ns n))"
    by (simp_all add: assms(6) client_config_def)
  note start = exporter_source.loop_start_inv [OF src assms(7,8)]
  note inv = exporter_source.loop_reachable_inv [OF src assms(9,5) cfg start]
  have "elStale st = {}"
    if "\<forall>x x'. others x x' \<longrightarrow> ordinary me (\<lambda>x. cluster_view objs (hub_of x)) (\<lambda>x. slices (fst x)) x x'"
    using loop_ordinary [OF assms(9)] that by (simp add: cfg(1) loop_start_def)
  then show ?thesis using inv cfg(1) by (simp add: exporter_source.loop_inv_def [OF src] settled_def)
qed

definition beijing_cfg :: "(memory \<times> memory network) ExporterConfig" where
  "beijing_cfg = client_config beijing_client ''beijing'' ''beijing'' ''north''"

theorem exporter_loop_in_sync_witness:
  "cluster_view mem_objs (hub_of (snd (snd (beijing_reconcile beijing_world)))) nginx_key ''beijing'' \<noteq> []"
proof -
  let ?run = "beijing_reconcile beijing_world"
  let ?others = "ordinary ''beijing'' (\<lambda>x. cluster_view mem_objs (hub_of x)) (\<lambda>x. mem_slices (fst x))"
  let ?init = "loop_start (member_kube mem_kube) beijing_cfg {nginx_key} beijing_world"
  let ?st = "\<lparr>elQueue = {}, elKeys = fst (snd ?run), elStale = {}, elWorld = snd (snd ?run)\<rparr>"
  have link: "beijing_cfg = client_config (link ''beijing'' demo_url std_chi mem_kube True 300 demo_json) ''beijing'' ''beijing'' ''north''"
    by (simp add: beijing_cfg_def beijing_client_def demo_server_def)
  have "fst ?run = Returned None" by code_simp
  then have "Reconcile demo_runtime (member_kube mem_kube) beijing_cfg nginx_key (NewObjectKeySet, beijing_world)
      = (Returned None, fst (snd ?run), snd (snd ?run))"
    by (metis beijing_reconcile_def beijing_cfg_def prod.collapse)
  then have "loop_step demo_runtime (member_kube mem_kube) beijing_cfg (\<lambda>x. cluster_view mem_objs (hub_of x))
      (\<lambda>x. mem_services (fst x)) (\<lambda>x. mem_slices (fst x)) legal_key ?others ?init ?st"
    using loop_step.reconcile [of nginx_key ?init demo_runtime "member_kube mem_kube" beijing_cfg None]
    by (simp add: loop_start_def newServiceExporter_def)
  then have run: "(loop_step demo_runtime (member_kube mem_kube) beijing_cfg (\<lambda>x. cluster_view mem_objs (hub_of x))
      (\<lambda>x. mem_services (fst x)) (\<lambda>x. mem_slices (fst x)) legal_key ?others)\<^sup>*\<^sup>* ?init ?st"
    by (rule r_into_rtranclp)
  have "legal_key nginx_key" by code_simp
  then have legal: "{nginx_key} \<subseteq> Collect legal_key" by simp
  have queued: "\<forall>k. mem_services (fst beijing_world) k \<noteq> None \<longrightarrow> k \<in> {nginx_key}"
    by (auto simp: mem_services_def beijing_world_def empty_memory_def beijing_service_def sample_meta_def
        nginx_key_def zero_meta_def split: if_splits)
  have "source demo_runtime beijing_cfg (\<lambda>x. mem_services (fst x)) (\<lambda>x. mem_slices (fst x)) (snd (snd ?run)) nginx_key
      \<notin> {Some [], None}" by code_simp
  then show ?thesis
    using exporter_loop_in_sync [OF mem.kube_api_axioms mem_source.kube_source_axioms chi_ok_std json_ok_demo
        demo_runtimes_ok(1) link legal queued run, THEN conjunct1, of nginx_key] by auto
qed

text \<open>
  C9 (client_mode_imports): from the hub over HTTP to a member's own API.  An import whose calls
  all succeed leaves the member with exactly the services the hub had when it was asked, for
  every schedule of the goroutines, and leaves the hub's services as they were.
\<close>

theorem client_mode_imports:
  fixes K :: "'w kube" and M :: "'m kube"
  assumes "kube_api K objs nss" and "kube_api M mobjs mnss" and "chi_ok chi" and "json_list_ok js"
    and "import_schedule_ok sch"
    and "on_network (DownloadAllGlobalServices (link me url chi K a d js)) x = (Inr services, x1)"
    and "importServices sch (client_member M (link me url chi K a d js) allow) x = (Inr rs, x')"
    and "set rs \<subseteq> {None}"
  shows "map_option copy_of (mobjs (fst x') k) =
      map_option (import_result (mobjs (fst x) k)) (objs (hub_of x) k) \<and> objs (hub_of x1) = objs (hub_of x)"
  using client_import_copies [OF assms(1-5,7,8)] client_download_frame [OF assms(1,3,4,6)] by blast

definition shanghai_world :: "memory \<times> memory network" where
  "shanghai_world = (stale_member, [Delivered 10], NewClusterStore, demo_world1)"

definition shanghai_import :: "(go_error + go_error option list) \<times> memory \<times> memory network" where
  "shanghai_import = importServices lazy
     (client_member mem_kube (link ''shanghai'' demo_url std_chi mem_kube True 300 demo_json) True) shanghai_world"

theorem client_mode_imports_witness:
  "fst shanghai_import = Inr [None, None] \<and>
   map_option gsSpec (mem_objs (fst (snd shanghai_import)) nginx_key) = Some (gsSpec beijing) \<and>
   mem_objs (fst (snd shanghai_import)) (ObjectKey ''default'' ''redis'') = None"
proof -
  let ?link = "link ''shanghai'' demo_url std_chi mem_kube True 300 demo_json"
  let ?down = "on_network (DownloadAllGlobalServices ?link) shanghai_world"
  let ?redis = "ObjectKey ''default'' ''redis''"
  have res: "fst shanghai_import = Inr [None, None]" by code_simp
  have run: "importServices lazy (client_member mem_kube ?link True) shanghai_world
      = (Inr [None, None], snd shanghai_import)"
    using res by (metis shanghai_import_def prod.collapse)
  have "fst ?down = Inr [listed ''1'' (endpoints_of beijing)]" by code_simp
  then have down: "?down = (Inr [listed ''1'' (endpoints_of beijing)], snd ?down)" by (metis prod.collapse)
  note all = client_mode_imports [OF mem.kube_api_axioms mem.kube_api_axioms chi_ok_std json_list_ok_demo
      schedules_ok(2) down run, THEN conjunct1]
  have nginx: "map_option (import_result (mem_objs (fst shanghai_world) nginx_key))
      (mem_objs (hub_of shanghai_world) nginx_key) = Some (''1'', gsSpec beijing)" by code_simp
  have redis: "mem_objs (hub_of shanghai_world) ?redis = None" by code_simp
  have "map_option copy_of (mem_objs (fst (snd shanghai_import)) nginx_key) = Some (''1'', gsSpec beijing)"
    using all [of nginx_key] nginx by simp
  moreover have "mem_objs (fst (snd shanghai_import)) ?redis = None" using all [of ?redis] redis by simp
  ultimately show ?thesis using res by (auto simp: copy_of_def)
qed

text \<open>
  C3 (exported_service_resolves): from a service in one cluster to the DNS answers in another.
  After the exporter of one member reported success and an import of another succeeded, with
  the exporting cluster's part of the service in the hub left alone in between, the plugin of
  the second member answers a query for the first cluster's service with the records of exactly
  the endpoints the exporter found there; where the service did not get to the second member
  there were none.
\<close>

theorem exported_service_resolves:
  fixes K :: "'w kube" and M :: "'m kube" and N :: "'n kube"
  assumes "kube_api K objs nss" and "kube_api M mobjs mnss" and "kube_api N nobjs nnss"
    and "chi_ok chi" and "json_ok js" and "json_list_ok js" and "go_runtime_ok rt"
    and "import_schedule_ok sch" and "coredns_laws L" and "legal_key (ObjectKey n s)"
    and "cluster_view objs (hub_of x) (ObjectKey n s) me \<noteq> [] \<longrightarrow> Has ks (ObjectKey n s)"
    and "Reconcile rt (member_kube M) (client_config (link me url chi K a d js) me z reg) (ObjectKey n s) (ks, x)
      = (Returned None, ks', x')"
    and "cluster_view objs (hub_of y) (ObjectKey n s) me = cluster_view objs (hub_of x') (ObjectKey n s) me"
    and "honest_copy (objs (hub_of y)) (nobjs (fst y)) (ObjectKey n s)"
    and "importServices sch (client_member N (link him url2 chi K a d js) allow) y = (Inr rs, y')"
    and "set rs \<subseteq> {None}"
    and "Client f = N" and "accepted L f q"
    and "splitDomainName L (qQName q) = name_labels zone (ClusterName me s n)"
    and "kGetGS N (ObjectKey n s) (fst y') = (res, w)"
  shows "\<exists>eps. wanted_endpoints rt (member_kube M) (client_config (link me url chi K a d js) me z reg)
      (ObjectKey n s) x = Some eps \<and>
    (case res of
       Inr gs \<Rightarrow> ServeDNS L f q (fst y', ms) = Returned ((RcodeSuccess, None), w,
         ms @ [reply_with L q (concat (map (generateRecords f q) eps))])
     | Inl e \<Rightarrow> IsNotFound e \<longrightarrow> eps = [] \<and>
         ServeDNS L f q (fst y', ms) = Returned (nextOrFailure L f q RcodeNameError errNoItems (w, ms)))"
proof -
  let ?k = "ObjectKey n s"
  obtain eps where wanted: "wanted_endpoints rt (member_kube M)
      (client_config (link me url chi K a d js) me z reg) ?k x = Some eps"
    and hub: "cluster_view objs (hub_of x') = set_view ?k me eps (cluster_view objs (hub_of x))"
    using client_Reconcile_sync [OF assms(1,2,4,5,7,10,11,12)] by blast
  have "map_option copy_of (nobjs (fst y') ?k) =
      map_option (import_result (nobjs (fst y) ?k)) (objs (hub_of y) ?k)"
    by (rule client_import_copies [OF assms(1,3,4,6,8,15,16)])
  then have "cluster_view nobjs (fst y') ?k = cluster_view objs (hub_of y) ?k"
    by (rule import_view) (rule assms(14))
  then have "cluster_view nobjs (fst y') ?k me = eps" using hub assms(13) by (simp add: set_view_apply)
  with resolve_imported [OF assms(3,9,17,18,19,20), of ms] wanted show ?thesis by auto
qed

text \<open>The member of Beijing exports its service; the member of Shanghai imports it and asks for it.\<close>

definition after_export :: "memory \<times> memory network" where
  "after_export = (stale_member, [Delivered 30], snd (snd (snd (snd (beijing_reconcile beijing_world)))))"

definition after_import :: "(go_error + go_error option list) \<times> memory \<times> memory network" where
  "after_import = importServices lazy
     (client_member mem_kube (link ''shanghai'' demo_url std_chi mem_kube True 300 demo_json) True) after_export"

theorem exported_service_resolves_witness:
  "ServeDNS std_dns demo_dns (demo_query ''beijing.nginx.default.svc.global.'' TypeA) (fst (snd after_import), [])
     = Returned ((RcodeSuccess, None), fst (snd after_import),
         [reply_with (std_dns :: memory coredns) (demo_query ''beijing.nginx.default.svc.global.'' TypeA)
            [demo_A ''beijing.nginx.default.svc.global.'' [192, 168, 1, 1]]])"
proof -
  let ?q = "demo_query ''beijing.nginx.default.svc.global.'' TypeA"
  let ?run = "beijing_reconcile beijing_world"
  let ?cfg = "client_config beijing_client ''beijing'' ''beijing'' ''north''"
  have link: "beijing_client = link ''beijing'' demo_url std_chi mem_kube True 300 demo_json"
    by (simp add: beijing_client_def demo_server_def)
  have key: "nginx_key = ObjectKey ''default'' ''nginx''" by (simp add: nginx_key_def)
  have "fst ?run = Returned None" by code_simp
  then have run: "Reconcile demo_runtime (member_kube mem_kube)
      (client_config (link ''beijing'' demo_url std_chi mem_kube True 300 demo_json) ''beijing'' ''beijing'' ''north'')
      (ObjectKey ''default'' ''nginx'') (NewObjectKeySet, beijing_world) = (Returned None, fst (snd ?run), snd (snd ?run))"
    by (metis beijing_reconcile_def link key prod.collapse)
  have legal: "legal_key (ObjectKey ''default'' ''nginx'')" by code_simp
  have new: "cluster_view mem_objs (hub_of beijing_world) (ObjectKey ''default'' ''nginx'') ''beijing'' \<noteq> []
      \<longrightarrow> Has NewObjectKeySet (ObjectKey ''default'' ''nginx'')" by code_simp
  have hub: "cluster_view mem_objs (hub_of after_export) (ObjectKey ''default'' ''nginx'') ''beijing''
      = cluster_view mem_objs (hub_of (snd (snd ?run))) (ObjectKey ''default'' ''nginx'') ''beijing''"
    by (simp add: after_export_def)
  have honest: "honest_copy (mem_objs (hub_of after_export)) (mem_objs (fst after_export))
      (ObjectKey ''default'' ''nginx'')" by code_simp
  have "fst after_import = Inr [None, None]" by code_simp
  then have imp: "importServices lazy
      (client_member mem_kube (link ''shanghai'' demo_url std_chi mem_kube True 300 demo_json) True) after_export
      = (Inr [None, None], snd after_import)" by (metis after_import_def prod.collapse)
  have acc: "accepted std_dns demo_dns ?q" by code_simp
  have split: "splitDomainName std_dns (qQName ?q) = name_labels ''global'' (ClusterName ''beijing'' ''nginx'' ''default'')"
    by code_simp
  let ?gs = "the (mem_objs (fst (snd after_import)) (ObjectKey ''default'' ''nginx''))"
  have get: "kGetGS mem_kube (ObjectKey ''default'' ''nginx'') (fst (snd after_import)) = (Inr ?gs, fst (snd after_import))"
    by code_simp
  have wanted: "wanted_endpoints demo_runtime (member_kube mem_kube) ?cfg (ObjectKey ''default'' ''nginx'') beijing_world
      = Some (endpoints_of beijing)" by code_simp
  have rec: "concat (map (generateRecords demo_dns ?q) (endpoints_of beijing))
      = [demo_A ''beijing.nginx.default.svc.global.'' [192, 168, 1, 1]]"
    by (simp add: demo_eval ip_eval beijing_def sample_service_def)
  have client: "Client demo_dns = mem_kube" by (simp add: demo_dns_def)
  from exported_service_resolves [OF mem.kube_api_axioms mem.kube_api_axioms mem.kube_api_axioms chi_ok_std
      json_ok_demo json_list_ok_demo demo_runtimes_ok(1) schedules_ok(2) std.coredns_laws_axioms legal new run
      hub honest imp _ client acc split get, of "[]"]
  show ?thesis using wanted rec by (simp flip: link)
qed

end
